(* ===== verification/Prelude.thy ===== *)
theory Prelude
  imports Complex_Main "HOL-Library.Word" "HOL-Library.Sublist"
begin

text \<open>
  Shared vocabulary of the development: Go's \<open>int64\<close> arithmetic, the string
  functions of Go's standard library the services use, decimal formatting, and the
  generic lemmas on lists and maps the component theories share.

  Strings are byte lists (\<open>string\<close>).  \<open>to_lower\<close> and \<open>trim_space\<close> are
  exact on ASCII input; Go also folds non-ASCII letters, which no constant of the
  code contains.  A \<open>float64\<close> is modelled by a rational number (\<open>f64\<close>): every
  finite float is one; rounding, infinities and NaN are not modelled.
\<close>

named_theorems go_defs "definitions of Go runtime and library functions"

type_synonym f64 = rat

section \<open>Error values\<close>

text \<open>The sentinel errors the packages export (\<open>errors.Is\<close> compares these), each
  with the text it is wrapped in; \<open>Errorf\<close> is an error with a message only.\<close>

datatype go_error =
    ErrOpen string | ErrCapacityExceeded string | ErrBackpressure
  | ErrInvalidAPIKey | ErrUnauthorized | ErrNotFound | Errorf string

section \<open>Go's signed 64-bit integers\<close>

definition i64 :: "int \<Rightarrow> int" where
  "i64 x = (x + 2 ^ 63) mod 2 ^ 64 - 2 ^ 63"

definition in_i64 :: "int \<Rightarrow> bool" where
  "in_i64 x \<longleftrightarrow> - (2 ^ 63) \<le> x \<and> x < 2 ^ 63"

lemma i64_id [simp]: "in_i64 x \<Longrightarrow> i64 x = x"
  by (simp add: i64_def in_i64_def)

lemma in_i64_i64 [simp]: "in_i64 (i64 x)"
  by (simp add: i64_def in_i64_def pos_mod_bound [of "2 ^ 64" "x + 2 ^ 63", simplified])

lemma i64_range: "- (2 ^ 63) \<le> i64 x" "i64 x < 2 ^ 63"
  using in_i64_i64 [of x] by (simp_all add: in_i64_def)

lemma i64_mod: "i64 x mod 2 ^ 64 = x mod 2 ^ 64"
  unfolding i64_def by (simp add: mod_simps)

text \<open>Go's \<open>/\<close> truncates towards zero.\<close>

definition go_quot :: "int \<Rightarrow> int \<Rightarrow> int" where
  "go_quot a b = sgn a * sgn b * (\<bar>a\<bar> div \<bar>b\<bar>)"

lemma go_quot_nonneg [simp]: "0 \<le> a \<Longrightarrow> 0 < b \<Longrightarrow> go_quot a b = a div b"
  by (cases "a = 0") (simp_all add: go_quot_def)

section \<open>Strings\<close>

definition to_lower_char :: "char \<Rightarrow> char" where
  "to_lower_char c = (let n = (of_char c :: nat) in if 65 \<le> n \<and> n \<le> 90 then char_of (n + 32) else c)"

definition to_lower :: "string \<Rightarrow> string" where
  "to_lower s = map to_lower_char s"

definition is_space :: "char \<Rightarrow> bool" where
  "is_space c = (let n = (of_char c :: nat) in n = 32 \<or> (9 \<le> n \<and> n \<le> 13))"

definition trim_space :: "string \<Rightarrow> string" where
  "trim_space s = rev (dropWhile is_space (rev (dropWhile is_space s)))"

fun str_contains :: "string \<Rightarrow> string \<Rightarrow> bool" where
  "str_contains [] sub = (sub = [])"
| "str_contains (c # s) sub = (prefix sub (c # s) \<or> str_contains s sub)"

lemma str_contains_iff: "str_contains s sub \<longleftrightarrow> sublist sub s"
  by (induction s) (auto simp: sublist_Cons_right)

lemma str_contains_append: "str_contains s sub \<Longrightarrow> str_contains (u @ s @ v) sub"
  by (auto simp: str_contains_iff sublist_def) (metis append_assoc)

text \<open>\<open>strings.ReplaceAll(s, "'", "''")\<close>: the quote is doubled.\<close>

definition quote_char :: char where
  "quote_char = CHR 0x27"

fun double_quotes :: "string \<Rightarrow> string" where
  "double_quotes [] = []"
| "double_quotes (c # s) =
     (if c = quote_char then quote_char # quote_char # double_quotes s else c # double_quotes s)"

fun str_join :: "string \<Rightarrow> string list \<Rightarrow> string" where
  "str_join sep [] = []"
| "str_join sep [s] = s"
| "str_join sep (s # t # ts) = s @ sep @ str_join sep (t # ts)"

section \<open>Decimal formatting (\<open>strconv.Itoa\<close>, \<open>%d\<close>) and parsing\<close>

definition digit :: "nat \<Rightarrow> char" where
  "digit d = char_of (48 + d)"

definition undigit :: "char \<Rightarrow> nat option" where
  "undigit c = (let n = (of_char c :: nat) in if 48 \<le> n \<and> n \<le> 57 then Some (n - 48) else None)"

lemma undigit_digit [simp]: "d < 10 \<Longrightarrow> undigit (digit d) = Some d"
  by (simp add: undigit_def digit_def of_char_of)

fun show_nat :: "nat \<Rightarrow> string" where
  "show_nat n = (if n < 10 then [digit n] else show_nat (n div 10) @ [digit (n mod 10)])"

declare show_nat.simps [simp del]

definition itoa :: "int \<Rightarrow> string" where
  "itoa i = (if i < 0 then CHR 0x2D # show_nat (nat (- i)) else show_nat (nat i))"

fun read_nat :: "nat \<Rightarrow> string \<Rightarrow> nat option" where
  "read_nat acc [] = Some acc"
| "read_nat acc (c # s) = (case undigit c of None \<Rightarrow> None | Some d \<Rightarrow> read_nat (acc * 10 + d) s)"

definition atoi :: "string \<Rightarrow> int option" where
  "atoi s = (case s of [] \<Rightarrow> None
     | c # s' \<Rightarrow>
         if c = CHR 0x2D then (if s' = [] then None else map_option (\<lambda>n. - int n) (read_nat 0 s'))
         else if c = CHR 0x2B then (if s' = [] then None else map_option int (read_nat 0 s'))
         else map_option int (read_nat 0 s))"

lemma read_nat_append:
  "read_nat acc (s @ t) = (case read_nat acc s of None \<Rightarrow> None | Some n \<Rightarrow> read_nat n t)"
  by (induction s arbitrary: acc) (auto split: option.splits)

lemma read_show_nat: "read_nat 0 (show_nat n) = Some n"
proof (induction n rule: show_nat.induct)
  case (1 n)
  show ?case
  proof (cases "n < 10")
    case True
    then show ?thesis by (simp add: show_nat.simps [of n])
  next
    case False
    with "1.IH" show ?thesis
      by (simp add: show_nat.simps [of n] read_nat_append)
  qed
qed

lemma show_nat_nonempty [simp]: "show_nat n \<noteq> []"
  by (subst show_nat.simps) simp

lemma hd_show_nat: "\<exists>d < 10. hd (show_nat n) = digit d"
proof (induction n rule: show_nat.induct)
  case (1 n)
  then show ?case
    by (cases "n < 10") (auto simp: show_nat.simps [of n] hd_append)
qed

lemma digit_not_sign: "d < 10 \<Longrightarrow> digit d \<noteq> CHR 0x2D \<and> digit d \<noteq> CHR 0x2B"
proof -
  assume "d < 10"
  then have "undigit (digit d) \<noteq> undigit (CHR 0x2D)" "undigit (digit d) \<noteq> undigit (CHR 0x2B)"
    by (simp_all, simp_all add: undigit_def)
  then show ?thesis by auto
qed

lemma atoi_itoa [simp]: "atoi (itoa i) = Some i"
proof (cases "i < 0")
  case True
  then show ?thesis by (simp add: itoa_def atoi_def read_show_nat)
next
  case False
  obtain d s where s: "show_nat (nat i) = digit d # s" "d < 10"
    using hd_show_nat [of "nat i"] by (metis list.collapse show_nat_nonempty)
  have "read_nat 0 (digit d # s) = Some (nat i)"
    using read_show_nat [of "nat i"] s by simp
  with False s digit_not_sign [of d] show ?thesis
    by (simp add: itoa_def atoi_def del: read_nat.simps)
qed

lemma itoa_inject [simp]: "itoa i = itoa j \<longleftrightarrow> i = j"
  by (metis atoi_itoa option.inject)

section \<open>Association lists as Go maps\<close>

text \<open>A Go map whose size or iteration the code observes is an association list with
  distinct keys: \<open>al_set\<close> is \<open>m[k] = v\<close>, \<open>al_del\<close> is \<open>delete(m, k)\<close>.\<close>

definition al_del :: "'k \<Rightarrow> ('k \<times> 'v) list \<Rightarrow> ('k \<times> 'v) list" where
  "al_del k m = filter (\<lambda>(k', _). k' \<noteq> k) m"

fun al_set :: "'k \<Rightarrow> 'v \<Rightarrow> ('k \<times> 'v) list \<Rightarrow> ('k \<times> 'v) list" where
  "al_set k v [] = [(k, v)]"
| "al_set k v ((k', v') # m) = (if k' = k then (k, v) # m else (k', v') # al_set k v m)"

abbreviation al_keys :: "('k \<times> 'v) list \<Rightarrow> 'k list" where
  "al_keys m \<equiv> map fst m"

lemma map_of_al_set [simp]: "map_of (al_set k v m) = (map_of m)(k \<mapsto> v)"
  by (induction m) auto

lemma map_of_al_del [simp]: "map_of (al_del k m) = (map_of m)(k := None)"
  by (induction m) (auto simp: al_del_def)

lemma keys_al_set [simp]: "fst ` set (al_set k v m) = insert k (fst ` set m)"
  by (simp add: dom_map_of_conv_image_fst [symmetric])

lemma keys_al_del [simp]: "fst ` set (al_del k m) = fst ` set m - {k}"
  by (simp add: dom_map_of_conv_image_fst [symmetric])

lemma distinct_al_set [simp]: "distinct (al_keys m) \<Longrightarrow> distinct (al_keys (al_set k v m))"
proof (induction m)
  case (Cons p m)
  obtain k' v' where p: "p = (k', v')" by (cases p)
  with Cons.prems have "k' \<notin> fst ` set m" "distinct (al_keys m)" by simp_all
  then have "k' \<noteq> k \<Longrightarrow> k' \<notin> fst ` set (al_set k v m)" by (simp only: keys_al_set) blast
  with Cons p show ?case by auto
qed simp

lemma distinct_al_filter [simp]: "distinct (al_keys m) \<Longrightarrow> distinct (al_keys (filter P m))"
  by (induction m) auto

lemma distinct_al_del [simp]: "distinct (al_keys m) \<Longrightarrow> distinct (al_keys (al_del k m))"
  by (simp add: al_del_def)

lemma length_al_set:
  "length (al_set k v m) = (if k \<in> fst ` set m then length m else Suc (length m))"
  by (induction m) force+

section \<open>FNV-1a (\<open>hash/fnv\<close>)\<close>

definition byte_of :: "char \<Rightarrow> 'a::len word" where
  "byte_of c = word_of_nat (of_char c)"

definition fnv32a :: "string \<Rightarrow> 32 word" where
  "fnv32a s = foldl (\<lambda>h c. xor h (byte_of c) * 16777619) 2166136261 s"

definition fnv64a :: "string \<Rightarrow> 64 word" where
  "fnv64a s = foldl (\<lambda>h c. xor h (byte_of c) * 1099511628211) 14695981039346656037 s"

end
