(* ===== verification/Models.thy ===== *)
theory Models
  imports Prelude
begin

text \<open>
  Package \<open>internal/models\<close>: the records that travel through the pipeline, field
  for field, and JSON values.  A Go pointer is an \<open>option\<close>; a nil map is \<open>None\<close>
  and a map an association list with distinct keys; \<open>time.Time\<close> is an \<open>int\<close> of
  milliseconds; \<open>int64\<close> fields are \<open>int\<close>, with wrap-around written where the code
  computes with them.  \<open>interface{}\<close> values, which only ever come from decoded JSON,
  are the type \<open>json\<close>.
\<close>

datatype json =
    JNull
  | JBool bool
  | JNum f64
  | JStr string
  | JArr "json list"
  | JObj "(string \<times> json) list"

type_synonym props = "(string \<times> json) list option"

record device_context =
  DeviceModel :: string
  OS :: string
  OSVersion :: string
  Manufacturer :: string
  ScreenSize :: string
  NetworkType :: string
  Language :: string
  Timezone :: string
  Carrier :: string
  IsTablet :: bool
  UserAgent :: string

record app_context =
  Version :: string
  Build :: string
  Platform :: string
  Environment :: string

record event =
  ev_EventID :: string
  ev_EventName :: string
  ev_EventTime :: int
  ev_Props :: props
  ev_Device :: "device_context option"
  ev_App :: "app_context option"
  ev_Revenue :: f64

record event_batch =
  eb_AppID :: string
  eb_DeviceID :: string
  eb_UserID :: string
  eb_SDKVersion :: string
  eb_SentAtMs :: int
  eb_Events :: "event list"

record enriched_event =
  ee_EventID :: string
  ee_EventName :: string
  ee_EventTime :: int
  ee_Props :: props
  ee_Device :: "device_context option"
  ee_App :: "app_context option"
  ee_Revenue :: f64
  ee_AppID :: string
  ee_UserID :: string
  ee_DeviceID :: string
  ee_SessionID :: string
  ee_ServerTime :: int
  ee_ClientOffsetMs :: int
  ee_CountryCode :: string
  ee_CountryName :: string
  ee_Region :: string
  ee_City :: string
  ee_Latitude :: f64
  ee_Longitude :: f64
  ee_Browser :: string
  ee_BrowserVersion :: string
  ee_OSFamily :: string
  ee_InstallSource :: string
  ee_CampaignID :: string
  ee_AdsetID :: string

record session_state =
  ss_SessionID :: string
  ss_AppID :: string
  ss_UserID :: string
  ss_DeviceID :: string
  ss_StartTimeMs :: int
  ss_LastEventMs :: int
  ss_EventCount :: int
  ss_Screens :: "string list"
  ss_EntryScreen :: string
  ss_UpdatedAt :: int

record session_event =
  se_SessionID :: string
  se_AppID :: string
  se_UserID :: string
  se_DeviceID :: string
  se_StartTimeMs :: int
  se_EndTimeMs :: int
  se_DurationS :: int
  se_EventCount :: int
  se_Screens :: "string list option"
  se_EntryScreen :: string
  se_ExitScreen :: string
  se_ExitReason :: string
  se_Type :: string

record funnel_definition =
  fd_FunnelID :: string
  fd_AppID :: string
  fd_Name :: string
  fd_Steps :: "string list"
  fd_WindowSeconds :: int
  fd_CreatedAt :: int

record app =
  app_ID :: string
  app_OrgID :: string
  app_Name :: string
  app_APIKey :: string
  app_RPS :: f64
  app_Burst :: int
  app_Active :: bool
  app_CreatedAt :: int

record ch_event =
  ch_AppID :: string
  ch_EventID :: string
  ch_UserID :: string
  ch_DeviceID :: string
  ch_EventName :: string
  ch_EventTime :: int
  ch_ServerTime :: int
  ch_SessionID :: string
  ch_CountryCode :: string
  ch_Platform :: string
  ch_AppVersion :: string
  ch_OSFamily :: string
  ch_Browser :: string
  ch_City :: string
  ch_Revenue :: f64
  ch_Props :: "(string \<times> string) list"
  ch_CampaignID :: string
  ch_InstallSrc :: string

text \<open>The zero row, as the composite literal \<open>models.CHEvent{...}\<close> leaves the fields it
  does not name.\<close>

definition zero_ch_event :: ch_event where
  "zero_ch_event = \<lparr>ch_AppID = [], ch_EventID = [], ch_UserID = [], ch_DeviceID = [],
     ch_EventName = [], ch_EventTime = 0, ch_ServerTime = 0, ch_SessionID = [],
     ch_CountryCode = [], ch_Platform = [], ch_AppVersion = [], ch_OSFamily = [],
     ch_Browser = [], ch_City = [], ch_Revenue = 0, ch_Props = [], ch_CampaignID = [],
     ch_InstallSrc = []\<rparr>"

record alert_rule =
  ar_ID :: string
  ar_AppID :: string
  ar_Name :: string
  ar_MetricName :: string
  ar_Condition :: string
  ar_Threshold :: f64
  ar_WindowMins :: int
  ar_Channels :: "string list option"
  ar_WebhookURL :: string
  ar_EmailTo :: "string list option"
  ar_Active :: bool
  ar_CreatedAt :: int

record campaign =
  ca_ID :: string
  ca_AppID :: string
  ca_Name :: string
  ca_TriggerType :: string
  ca_TriggerConf :: "(string \<times> string) list"
  ca_Channel :: string
  ca_ChannelConf :: "(string \<times> string) list"
  ca_Active :: bool
  ca_CreatedAt :: int

record org =
  org_ID :: string
  org_Name :: string
  org_Plan :: string
  org_CreatedAt :: int

record cohort_definition =
  co_ID :: string
  co_AppID :: string
  co_Name :: string
  co_Description :: string
  co_FilterSQL :: string
  co_UserCount :: int
  co_CreatedAt :: int

text \<open>\<open>Variants\<close> is raw JSON text; nil is \<open>None\<close>.\<close>

record ab_experiment =
  ex_ID :: string
  ex_AppID :: string
  ex_Name :: string
  ex_Description :: string
  ex_Status :: string
  ex_GoalEvent :: string
  ex_Variants :: "string option"
  ex_StartAt :: "int option"
  ex_EndAt :: "int option"
  ex_CreatedAt :: int

record campaign_stats =
  cs_CampaignID :: string
  cs_Sent :: int
  cs_Delivered :: int
  cs_Failed :: int
  cs_OpenRate :: f64
  cs_ClickRate :: f64

text \<open>Reading a missing key of a Go \<open>map[string]string\<close> gives the empty string.\<close>

definition conf_get :: "(string \<times> string) list \<Rightarrow> string \<Rightarrow> string" where
  "conf_get m k = (case map_of m k of None \<Rightarrow> [] | Some v \<Rightarrow> v)"

text \<open>Reading a property as a string: \<open>v, ok := props[k].(string)\<close>.\<close>

definition prop_string :: "props \<Rightarrow> string \<Rightarrow> string option" where
  "prop_string p k = (case p of None \<Rightarrow> None
     | Some m \<Rightarrow> (case map_of m k of Some (JStr s) \<Rightarrow> Some s | _ \<Rightarrow> None))"

end
