(* ===== verification/Wire.thy ===== *)
theory Wire
  imports Models "HOL-Library.Monad_Syntax"
begin

text \<open>
  The messages on Kafka and in Redis are the JSON encodings of the structs of
  \<open>internal/models\<close>.  This theory holds the two directions of \<open>encoding/json\<close> for
  the structs the pipeline sends, as their struct tags define them: \<open>Marshal\<close> with
  \<open>omitempty\<close>, and \<open>Unmarshal\<close> with its rules: keys are matched without regard to
  case, unknown keys are skipped, absent and null fields keep the zero value, a value of
  the wrong type is an error (\<open>None\<close>), repeated keys overwrite scalars and slices and
  merge into structs and maps.  JSON text is represented by its syntax tree, strings are
  taken to be valid UTF-8, and an integer is a number without a fractional part.
\<close>

section \<open>Unmarshal: values of a field\<close>

definition jvals :: "string \<Rightarrow> (string \<times> json) list \<Rightarrow> json list" where
  "jvals k m = map snd (filter (\<lambda>(k', _). to_lower k' = k) m)"

text \<open>\<open>null\<close> into a struct is a no-op.\<close>

definition jobj :: "json \<Rightarrow> (string \<times> json) list option" where
  "jobj j = (case j of JNull \<Rightarrow> Some [] | JObj m \<Rightarrow> Some m | _ \<Rightarrow> None)"

fun to_string :: "string \<Rightarrow> json list \<Rightarrow> string option" where
  "to_string z [] = Some z"
| "to_string z (JNull # vs) = to_string z vs"
| "to_string z (JStr s # vs) = to_string s vs"
| "to_string z (_ # vs) = None"

fun to_int :: "int \<Rightarrow> json list \<Rightarrow> int option" where
  "to_int z [] = Some z"
| "to_int z (JNull # vs) = to_int z vs"
| "to_int z (JNum q # vs) = (if of_int \<lfloor>q\<rfloor> = q \<and> in_i64 \<lfloor>q\<rfloor> then to_int \<lfloor>q\<rfloor> vs else None)"
| "to_int z (_ # vs) = None"

fun to_float :: "f64 \<Rightarrow> json list \<Rightarrow> f64 option" where
  "to_float z [] = Some z"
| "to_float z (JNull # vs) = to_float z vs"
| "to_float z (JNum q # vs) = to_float q vs"
| "to_float z (_ # vs) = None"

fun to_bool :: "bool \<Rightarrow> json list \<Rightarrow> bool option" where
  "to_bool z [] = Some z"
| "to_bool z (JNull # vs) = to_bool z vs"
| "to_bool z (JBool b # vs) = to_bool b vs"
| "to_bool z (_ # vs) = None"

text \<open>A pointer to a struct, or a map: \<open>null\<close> makes it nil, an object is decoded into
  what is already there.\<close>

fun to_ptr :: "(string \<times> json) list option \<Rightarrow> json list \<Rightarrow> (string \<times> json) list option option" where
  "to_ptr z [] = Some z"
| "to_ptr z (JNull # vs) = to_ptr None vs"
| "to_ptr z (JObj m # vs) = to_ptr (Some ((case z of None \<Rightarrow> [] | Some m0 \<Rightarrow> m0) @ m)) vs"
| "to_ptr z (_ # vs) = None"

text \<open>A struct by value: \<open>null\<close> leaves it.\<close>

fun to_struct :: "(string \<times> json) list \<Rightarrow> json list \<Rightarrow> (string \<times> json) list option" where
  "to_struct z [] = Some z"
| "to_struct z (JNull # vs) = to_struct z vs"
| "to_struct z (JObj m # vs) = to_struct (z @ m) vs"
| "to_struct z (_ # vs) = None"

fun to_slice :: "json list option \<Rightarrow> json list \<Rightarrow> json list option option" where
  "to_slice z [] = Some z"
| "to_slice z (JNull # vs) = to_slice None vs"
| "to_slice z (JArr xs # vs) = to_slice (Some xs) vs"
| "to_slice z (_ # vs) = None"

text \<open>Decoding into \<open>interface{}\<close>: every object becomes a map.\<close>

definition to_map :: "(string \<times> json) list \<Rightarrow> (string \<times> json) list" where
  "to_map m = foldl (\<lambda>acc (k, v). al_set k v acc) [] m"

fun to_iface :: "json \<Rightarrow> json" where
  "to_iface (JObj m) = JObj (to_map (map (\<lambda>(k, v). (k, to_iface v)) m))"
| "to_iface (JArr xs) = JArr (map to_iface xs)"
| "to_iface j = j"

definition to_props :: "json list \<Rightarrow> props option" where
  "to_props vs = map_option (map_option (\<lambda>m. to_map (map (\<lambda>(k, v). (k, to_iface v)) m))) (to_ptr None vs)"

definition to_strings :: "json list \<Rightarrow> string list option option" where
  "to_strings vs = (case to_slice None vs of
      None \<Rightarrow> None
    | Some None \<Rightarrow> Some None
    | Some (Some xs) \<Rightarrow> map_option Some (those (map (\<lambda>x. to_string [] [x]) xs)))"

section \<open>Marshal: fields of an object\<close>

fun obj_fields :: "(string \<times> json option) list \<Rightarrow> (string \<times> json) list" where
  "obj_fields [] = []"
| "obj_fields ((k, None) # fs) = obj_fields fs"
| "obj_fields ((k, Some v) # fs) = (k, v) # obj_fields fs"

abbreviation fstr :: "string \<Rightarrow> json option" where "fstr s \<equiv> Some (JStr s)"
abbreviation fint :: "int \<Rightarrow> json option" where "fint i \<equiv> Some (JNum (of_int i))"

text \<open>With \<open>omitempty\<close>:\<close>

definition ostr :: "string \<Rightarrow> json option" where
  "ostr s = (if s = [] then None else Some (JStr s))"

definition ofloat :: "f64 \<Rightarrow> json option" where
  "ofloat q = (if q = 0 then None else Some (JNum q))"

definition obool :: "bool \<Rightarrow> json option" where
  "obool b = (if b then Some (JBool True) else None)"

definition oprops :: "props \<Rightarrow> json option" where
  "oprops p = (case p of None \<Rightarrow> None | Some [] \<Rightarrow> None | Some m \<Rightarrow> Some (JObj m))"

definition fstrings :: "string list option \<Rightarrow> json option" where
  "fstrings ss = Some (case ss of None \<Rightarrow> JNull | Some xs \<Rightarrow> JArr (map JStr xs))"

section \<open>The structs\<close>

definition device_fields :: "device_context \<Rightarrow> (string \<times> json option) list" where
  "device_fields d =
     [(''device_model'', ostr (DeviceModel d)), (''os'', ostr (OS d)),
      (''os_version'', ostr (OSVersion d)), (''manufacturer'', ostr (Manufacturer d)),
      (''screen_size'', ostr (ScreenSize d)), (''network_type'', ostr (NetworkType d)),
      (''language'', ostr (Language d)), (''timezone'', ostr (Timezone d)),
      (''carrier'', ostr (Carrier d)), (''is_tablet'', obool (IsTablet d)),
      (''user_agent'', ostr (UserAgent d))]"

definition decode_device :: "(string \<times> json) list \<Rightarrow> device_context option" where
  "decode_device m = do {
     a \<leftarrow> to_string [] (jvals ''device_model'' m); b \<leftarrow> to_string [] (jvals ''os'' m);
     c \<leftarrow> to_string [] (jvals ''os_version'' m); d \<leftarrow> to_string [] (jvals ''manufacturer'' m);
     e \<leftarrow> to_string [] (jvals ''screen_size'' m); f \<leftarrow> to_string [] (jvals ''network_type'' m);
     g \<leftarrow> to_string [] (jvals ''language'' m); h \<leftarrow> to_string [] (jvals ''timezone'' m);
     i \<leftarrow> to_string [] (jvals ''carrier'' m); t \<leftarrow> to_bool False (jvals ''is_tablet'' m);
     u \<leftarrow> to_string [] (jvals ''user_agent'' m);
     Some \<lparr>DeviceModel = a, OS = b, OSVersion = c, Manufacturer = d, ScreenSize = e,
       NetworkType = f, Language = g, Timezone = h, Carrier = i, IsTablet = t, UserAgent = u\<rparr> }"

definition app_fields :: "app_context \<Rightarrow> (string \<times> json option) list" where
  "app_fields a =
     [(''version'', ostr (Version a)), (''build'', ostr (Build a)),
      (''platform'', ostr (Platform a)), (''environment'', ostr (Environment a))]"

definition decode_app :: "(string \<times> json) list \<Rightarrow> app_context option" where
  "decode_app m = do {
     v \<leftarrow> to_string [] (jvals ''version'' m); b \<leftarrow> to_string [] (jvals ''build'' m);
     p \<leftarrow> to_string [] (jvals ''platform'' m); e \<leftarrow> to_string [] (jvals ''environment'' m);
     Some \<lparr>Version = v, Build = b, Platform = p, Environment = e\<rparr> }"

text \<open>A pointer field: nil is omitted, and a decoded object goes through the struct's
  decoder.\<close>

definition optr :: "('a \<Rightarrow> (string \<times> json option) list) \<Rightarrow> 'a option \<Rightarrow> json option" where
  "optr fs p = map_option (\<lambda>a. JObj (obj_fields (fs a))) p"

definition decode_ptr :: "((string \<times> json) list \<Rightarrow> 'a option) \<Rightarrow> json list \<Rightarrow> 'a option option" where
  "decode_ptr dec vs = (case to_ptr None vs of
      None \<Rightarrow> None | Some None \<Rightarrow> Some None | Some (Some m) \<Rightarrow> map_option Some (dec m))"

definition event_fields :: "event \<Rightarrow> (string \<times> json option) list" where
  "event_fields e =
     [(''event_id'', fstr (ev_EventID e)), (''event_name'', fstr (ev_EventName e)),
      (''event_time'', fint (ev_EventTime e)), (''props'', oprops (ev_Props e)),
      (''device'', optr device_fields (ev_Device e)), (''app'', optr app_fields (ev_App e)),
      (''revenue'', ofloat (ev_Revenue e))]"

definition decode_event :: "(string \<times> json) list \<Rightarrow> event option" where
  "decode_event m = do {
     i \<leftarrow> to_string [] (jvals ''event_id'' m); n \<leftarrow> to_string [] (jvals ''event_name'' m);
     t \<leftarrow> to_int 0 (jvals ''event_time'' m); p \<leftarrow> to_props (jvals ''props'' m);
     d \<leftarrow> decode_ptr decode_device (jvals ''device'' m); a \<leftarrow> decode_ptr decode_app (jvals ''app'' m);
     r \<leftarrow> to_float 0 (jvals ''revenue'' m);
     Some \<lparr>ev_EventID = i, ev_EventName = n, ev_EventTime = t, ev_Props = p, ev_Device = d,
       ev_App = a, ev_Revenue = r\<rparr> }"

definition batch_fields :: "event_batch \<Rightarrow> (string \<times> json option) list" where
  "batch_fields b =
     [(''app_id'', fstr (eb_AppID b)), (''device_id'', fstr (eb_DeviceID b)),
      (''user_id'', ostr (eb_UserID b)), (''sdk_version'', fstr (eb_SDKVersion b)),
      (''sent_at_ms'', fint (eb_SentAtMs b)),
      (''events'', Some (JArr (map (\<lambda>e. JObj (obj_fields (event_fields e))) (eb_Events b))))]"

text \<open>A nil slice of events and an empty one are not told apart: the code only reads its
  length and its elements.\<close>

definition decode_batch :: "(string \<times> json) list \<Rightarrow> event_batch option" where
  "decode_batch m = do {
     a \<leftarrow> to_string [] (jvals ''app_id'' m); d \<leftarrow> to_string [] (jvals ''device_id'' m);
     u \<leftarrow> to_string [] (jvals ''user_id'' m); v \<leftarrow> to_string [] (jvals ''sdk_version'' m);
     t \<leftarrow> to_int 0 (jvals ''sent_at_ms'' m); xs \<leftarrow> to_slice None (jvals ''events'' m);
     es \<leftarrow> those (map (\<lambda>j. jobj j \<bind> decode_event) (case xs of None \<Rightarrow> [] | Some js \<Rightarrow> js));
     Some \<lparr>eb_AppID = a, eb_DeviceID = d, eb_UserID = u, eb_SDKVersion = v, eb_SentAtMs = t,
       eb_Events = es\<rparr> }"

definition enriched_fields :: "enriched_event \<Rightarrow> (string \<times> json option) list" where
  "enriched_fields e =
     [(''event_id'', fstr (ee_EventID e)), (''event_name'', fstr (ee_EventName e)),
      (''event_time'', fint (ee_EventTime e)), (''props'', oprops (ee_Props e)),
      (''device'', optr device_fields (ee_Device e)), (''app'', optr app_fields (ee_App e)),
      (''revenue'', ofloat (ee_Revenue e)), (''app_id'', fstr (ee_AppID e)),
      (''user_id'', fstr (ee_UserID e)), (''device_id'', fstr (ee_DeviceID e)),
      (''session_id'', ostr (ee_SessionID e)), (''server_time'', fint (ee_ServerTime e)),
      (''client_offset_ms'', fint (ee_ClientOffsetMs e)),
      (''country_code'', ostr (ee_CountryCode e)), (''country_name'', ostr (ee_CountryName e)),
      (''region'', ostr (ee_Region e)), (''city'', ostr (ee_City e)),
      (''latitude'', ofloat (ee_Latitude e)), (''longitude'', ofloat (ee_Longitude e)),
      (''browser'', ostr (ee_Browser e)), (''browser_version'', ostr (ee_BrowserVersion e)),
      (''os_family'', ostr (ee_OSFamily e)), (''install_source'', ostr (ee_InstallSource e)),
      (''campaign_id'', ostr (ee_CampaignID e)), (''adset_id'', ostr (ee_AdsetID e))]"

definition encode_enriched :: "enriched_event \<Rightarrow> json" where
  "encode_enriched e = JObj (obj_fields (enriched_fields e))"

definition decode_enriched :: "json \<Rightarrow> enriched_event option" where
  "decode_enriched j = do {
     m \<leftarrow> jobj j;
     i \<leftarrow> to_string [] (jvals ''event_id'' m); n \<leftarrow> to_string [] (jvals ''event_name'' m);
     t \<leftarrow> to_int 0 (jvals ''event_time'' m); p \<leftarrow> to_props (jvals ''props'' m);
     d \<leftarrow> decode_ptr decode_device (jvals ''device'' m); a \<leftarrow> decode_ptr decode_app (jvals ''app'' m);
     r \<leftarrow> to_float 0 (jvals ''revenue'' m);
     ai \<leftarrow> to_string [] (jvals ''app_id'' m); u \<leftarrow> to_string [] (jvals ''user_id'' m);
     di \<leftarrow> to_string [] (jvals ''device_id'' m); si \<leftarrow> to_string [] (jvals ''session_id'' m);
     st \<leftarrow> to_int 0 (jvals ''server_time'' m); co \<leftarrow> to_int 0 (jvals ''client_offset_ms'' m);
     cc \<leftarrow> to_string [] (jvals ''country_code'' m); cn \<leftarrow> to_string [] (jvals ''country_name'' m);
     re \<leftarrow> to_string [] (jvals ''region'' m); ci \<leftarrow> to_string [] (jvals ''city'' m);
     la \<leftarrow> to_float 0 (jvals ''latitude'' m); lo \<leftarrow> to_float 0 (jvals ''longitude'' m);
     br \<leftarrow> to_string [] (jvals ''browser'' m); bv \<leftarrow> to_string [] (jvals ''browser_version'' m);
     os \<leftarrow> to_string [] (jvals ''os_family'' m); is \<leftarrow> to_string [] (jvals ''install_source'' m);
     ca \<leftarrow> to_string [] (jvals ''campaign_id'' m); ad \<leftarrow> to_string [] (jvals ''adset_id'' m);
     Some \<lparr>ee_EventID = i, ee_EventName = n, ee_EventTime = t, ee_Props = p, ee_Device = d,
       ee_App = a, ee_Revenue = r, ee_AppID = ai, ee_UserID = u, ee_DeviceID = di,
       ee_SessionID = si, ee_ServerTime = st, ee_ClientOffsetMs = co, ee_CountryCode = cc,
       ee_CountryName = cn, ee_Region = re, ee_City = ci, ee_Latitude = la, ee_Longitude = lo,
       ee_Browser = br, ee_BrowserVersion = bv, ee_OSFamily = os, ee_InstallSource = is,
       ee_CampaignID = ca, ee_AdsetID = ad\<rparr> }"

definition session_event_fields :: "session_event \<Rightarrow> (string \<times> json option) list" where
  "session_event_fields s =
     [(''session_id'', fstr (se_SessionID s)), (''app_id'', fstr (se_AppID s)),
      (''user_id'', fstr (se_UserID s)), (''device_id'', fstr (se_DeviceID s)),
      (''start_time_ms'', fint (se_StartTimeMs s)), (''end_time_ms'', fint (se_EndTimeMs s)),
      (''duration_s'', fint (se_DurationS s)), (''event_count'', fint (se_EventCount s)),
      (''screens'', fstrings (se_Screens s)), (''entry_screen'', fstr (se_EntryScreen s)),
      (''exit_screen'', fstr (se_ExitScreen s)), (''exit_reason'', fstr (se_ExitReason s)),
      (''type'', fstr (se_Type s))]"

definition encode_session_event :: "session_event \<Rightarrow> json" where
  "encode_session_event s = JObj (obj_fields (session_event_fields s))"

definition decode_session_event :: "json \<Rightarrow> session_event option" where
  "decode_session_event j = do {
     m \<leftarrow> jobj j;
     si \<leftarrow> to_string [] (jvals ''session_id'' m); ai \<leftarrow> to_string [] (jvals ''app_id'' m);
     u \<leftarrow> to_string [] (jvals ''user_id'' m); di \<leftarrow> to_string [] (jvals ''device_id'' m);
     st \<leftarrow> to_int 0 (jvals ''start_time_ms'' m); en \<leftarrow> to_int 0 (jvals ''end_time_ms'' m);
     du \<leftarrow> to_int 0 (jvals ''duration_s'' m); ec \<leftarrow> to_int 0 (jvals ''event_count'' m);
     sc \<leftarrow> to_strings (jvals ''screens'' m); es \<leftarrow> to_string [] (jvals ''entry_screen'' m);
     xs \<leftarrow> to_string [] (jvals ''exit_screen'' m); xr \<leftarrow> to_string [] (jvals ''exit_reason'' m);
     ty \<leftarrow> to_string [] (jvals ''type'' m);
     Some \<lparr>se_SessionID = si, se_AppID = ai, se_UserID = u, se_DeviceID = di,
       se_StartTimeMs = st, se_EndTimeMs = en, se_DurationS = du, se_EventCount = ec,
       se_Screens = sc, se_EntryScreen = es, se_ExitScreen = xs, se_ExitReason = xr,
       se_Type = ty\<rparr> }"

text \<open>The session state in Redis.  Its \<open>updated_at\<close> is never written by the code; the
  text of a \<open>time.Time\<close> is represented by its milliseconds.\<close>

definition session_state_fields :: "session_state \<Rightarrow> (string \<times> json option) list" where
  "session_state_fields s =
     [(''session_id'', fstr (ss_SessionID s)), (''app_id'', fstr (ss_AppID s)),
      (''user_id'', fstr (ss_UserID s)), (''device_id'', fstr (ss_DeviceID s)),
      (''start_time_ms'', fint (ss_StartTimeMs s)), (''last_event_ms'', fint (ss_LastEventMs s)),
      (''event_count'', fint (ss_EventCount s)), (''screens'', fstrings (Some (ss_Screens s))),
      (''entry_screen'', fstr (ss_EntryScreen s)), (''updated_at'', fint (ss_UpdatedAt s))]"

definition encode_session_state :: "session_state \<Rightarrow> json option" where
  "encode_session_state s = Some (JObj (obj_fields (session_state_fields s)))"

definition decode_session_state :: "json \<Rightarrow> session_state option" where
  "decode_session_state j = do {
     m \<leftarrow> jobj j;
     si \<leftarrow> to_string [] (jvals ''session_id'' m); ai \<leftarrow> to_string [] (jvals ''app_id'' m);
     u \<leftarrow> to_string [] (jvals ''user_id'' m); di \<leftarrow> to_string [] (jvals ''device_id'' m);
     st \<leftarrow> to_int 0 (jvals ''start_time_ms'' m); le \<leftarrow> to_int 0 (jvals ''last_event_ms'' m);
     ec \<leftarrow> to_int 0 (jvals ''event_count'' m); sc \<leftarrow> to_strings (jvals ''screens'' m);
     es \<leftarrow> to_string [] (jvals ''entry_screen'' m); up \<leftarrow> to_int 0 (jvals ''updated_at'' m);
     Some \<lparr>ss_SessionID = si, ss_AppID = ai, ss_UserID = u, ss_DeviceID = di,
       ss_StartTimeMs = st, ss_LastEventMs = le, ss_EventCount = ec,
       ss_Screens = (case sc of None \<Rightarrow> [] | Some xs \<Rightarrow> xs), ss_EntryScreen = es,
       ss_UpdatedAt = up\<rparr> }"

section \<open>Decoding what was encoded\<close>

definition wf_fields :: "(string \<times> json option) list \<Rightarrow> bool" where
  "wf_fields fs \<longleftrightarrow> distinct (map fst fs) \<and> list_all (\<lambda>k. to_lower k = k) (map fst fs)"

definition vals_of :: "json option option \<Rightarrow> json list" where
  "vals_of o2 = (case o2 of Some (Some v) \<Rightarrow> [v] | _ \<Rightarrow> [])"

lemma jvals_obj_fields:
  assumes "wf_fields fs"
  shows "jvals k (obj_fields fs) = vals_of (map_of fs k)"
proof -
  have absent: "jvals k (obj_fields fs) = []"
    if "k \<notin> set (map fst fs)" "list_all (\<lambda>k. to_lower k = k) (map fst fs)" for fs
    using that by (induction fs rule: obj_fields.induct) (auto simp: jvals_def)
  show ?thesis
    using assms
  proof (induction fs)
    case (Cons p fs)
    obtain k' o' where p: "p = (k', o')" by (cases p)
    have wf: "wf_fields fs" "k' \<notin> set (map fst fs)" "to_lower k' = k'"
      using Cons.prems by (auto simp: wf_fields_def p)
    have "jvals k (obj_fields fs) = []" if "k = k'"
      using absent wf that by (simp add: wf_fields_def)
    then show ?case
      using Cons.IH [OF wf(1)] wf by (cases o') (auto simp: p jvals_def vals_of_def)
  qed (simp add: jvals_def vals_of_def)
qed

named_theorems wire_simps "decoding the encoding of one field"

lemma to_string_fields [wire_simps]:
  "to_string z (vals_of (Some (fstr s))) = Some s"
  "to_string [] (vals_of (Some (ostr s))) = Some s"
  "to_string z (vals_of None) = Some z"
  by (simp_all add: vals_of_def ostr_def)

lemma to_int_fields [wire_simps]:
  "in_i64 i \<Longrightarrow> to_int z (vals_of (Some (fint i))) = Some i"
  "to_int z (vals_of None) = Some z"
  by (simp_all add: vals_of_def)

lemma to_float_fields [wire_simps]:
  "to_float 0 (vals_of (Some (ofloat q))) = Some q"
  "to_float z (vals_of None) = Some z"
  by (simp_all add: vals_of_def ofloat_def)

lemma to_bool_fields [wire_simps]: "to_bool False (vals_of (Some (obool b))) = Some b"
  by (simp add: vals_of_def obool_def)

lemma those_Some [simp]: "those (map Some xs) = Some xs"
  by (induction xs) simp_all

lemma to_strings_fields [wire_simps]:
  "to_strings (vals_of (Some (fstrings ss))) = Some ss"
  by (simp add: vals_of_def fstrings_def to_strings_def comp_def split: option.splits)

text \<open>Values a Go \<open>interface{}\<close> can hold: every object has distinct keys.\<close>

definition wf_props :: "props \<Rightarrow> bool" where
  "wf_props p \<longleftrightarrow> (case p of None \<Rightarrow> True | Some m \<Rightarrow> m \<noteq> [] \<and> to_iface (JObj m) = JObj m)"

lemma to_props_fields [wire_simps]:
  "wf_props p \<Longrightarrow> to_props (vals_of (Some (oprops p))) = Some p"
  "to_props (vals_of None) = Some None"
  by (auto simp: vals_of_def oprops_def wf_props_def to_props_def split: option.splits list.splits)

lemma decode_ptr_fields [wire_simps]:
  "(\<And>a. dec (obj_fields (fs a)) = Some a) \<Longrightarrow> decode_ptr dec (vals_of (Some (optr fs p))) = Some p"
  "decode_ptr dec (vals_of None) = Some None"
  by (auto simp: vals_of_def optr_def decode_ptr_def split: option.splits)

lemma wf_device_fields: "wf_fields (device_fields d)"
  unfolding wf_fields_def device_fields_def by (simp add: to_lower_def to_lower_char_def)

lemma wf_app_fields: "wf_fields (app_fields a)"
  unfolding wf_fields_def app_fields_def by (simp add: to_lower_def to_lower_char_def)

lemma wf_event_fields: "wf_fields (event_fields e)"
  unfolding wf_fields_def event_fields_def by (simp add: to_lower_def to_lower_char_def)

lemma wf_batch_fields: "wf_fields (batch_fields e)"
  unfolding wf_fields_def batch_fields_def by (simp add: to_lower_def to_lower_char_def)

lemma wf_enriched_fields: "wf_fields (enriched_fields e)"
  unfolding wf_fields_def enriched_fields_def by (simp add: to_lower_def to_lower_char_def)

lemma wf_session_event_fields: "wf_fields (session_event_fields e)"
  unfolding wf_fields_def session_event_fields_def by (simp add: to_lower_def to_lower_char_def)

lemma wf_session_state_fields: "wf_fields (session_state_fields e)"
  unfolding wf_fields_def session_state_fields_def by (simp add: to_lower_def to_lower_char_def)

lemma device_roundtrip: "decode_device (obj_fields (device_fields d)) = Some d"
  unfolding decode_device_def jvals_obj_fields [OF wf_device_fields]
  by (simp add: device_fields_def wire_simps)

lemma app_roundtrip: "decode_app (obj_fields (app_fields a)) = Some a"
  unfolding decode_app_def jvals_obj_fields [OF wf_app_fields]
  by (simp add: app_fields_def wire_simps)

lemma event_roundtrip:
  "wf_props (ev_Props e) \<Longrightarrow> in_i64 (ev_EventTime e) \<Longrightarrow>
   decode_event (obj_fields (event_fields e)) = Some e"
  unfolding decode_event_def jvals_obj_fields [OF wf_event_fields]
  by (simp add: event_fields_def wire_simps device_roundtrip app_roundtrip)

lemma session_event_roundtrip:
  "in_i64 (se_StartTimeMs s) \<Longrightarrow> in_i64 (se_EndTimeMs s) \<Longrightarrow> in_i64 (se_DurationS s) \<Longrightarrow>
   in_i64 (se_EventCount s) \<Longrightarrow> decode_session_event (encode_session_event s) = Some s"
  unfolding decode_session_event_def encode_session_event_def
  by (simp add: jobj_def jvals_obj_fields [OF wf_session_event_fields])
    (simp add: session_event_fields_def wire_simps)

definition wf_session_state :: "session_state \<Rightarrow> bool" where
  "wf_session_state s \<longleftrightarrow> in_i64 (ss_StartTimeMs s) \<and> in_i64 (ss_LastEventMs s)
     \<and> in_i64 (ss_EventCount s) \<and> in_i64 (ss_UpdatedAt s)"

lemma session_state_roundtrip:
  "wf_session_state s \<Longrightarrow>
   \<exists>v. encode_session_state s = Some v \<and> decode_session_state v = Some s"
  unfolding decode_session_state_def encode_session_state_def wf_session_state_def
  by (simp add: jobj_def jvals_obj_fields [OF wf_session_state_fields])
    (simp add: session_state_fields_def wire_simps)

definition wf_enriched :: "enriched_event \<Rightarrow> bool" where
  "wf_enriched e \<longleftrightarrow> wf_props (ee_Props e) \<and> in_i64 (ee_EventTime e)
     \<and> in_i64 (ee_ServerTime e) \<and> in_i64 (ee_ClientOffsetMs e)"

lemma enriched_decodes:
  "wf_enriched e \<Longrightarrow> decode_enriched (encode_enriched e) = Some e"
  unfolding decode_enriched_def encode_enriched_def wf_enriched_def
  by (simp add: jobj_def jvals_obj_fields [OF wf_enriched_fields])
    (simp add: enriched_fields_def wire_simps device_roundtrip app_roundtrip)

lemma those_map_Some: "(\<And>x. x \<in> set xs \<Longrightarrow> f x = Some (g x)) \<Longrightarrow> those (map f xs) = Some (map g xs)"
  by (induction xs) simp_all

lemma batch_decodes:
  assumes "in_i64 (eb_SentAtMs b)" "list_all (\<lambda>e. wf_props (ev_Props e) \<and> in_i64 (ev_EventTime e)) (eb_Events b)"
  shows "decode_batch (obj_fields (batch_fields b)) = Some b"
proof -
  have "those (map (\<lambda>j. jobj j \<bind> decode_event) (map (\<lambda>e. JObj (obj_fields (event_fields e))) (eb_Events b)))
      = Some (map (\<lambda>e. e) (eb_Events b))"
    unfolding map_map
    by (rule those_map_Some) (use assms(2) in \<open>auto simp: jobj_def list_all_iff event_roundtrip\<close>)
  moreover have "to_slice None (vals_of (Some (Some (JArr xs)))) = Some (Some xs)" for xs
    by (simp add: vals_of_def)
  ultimately show ?thesis
    unfolding decode_batch_def jvals_obj_fields [OF wf_batch_fields]
    using assms(1) by (simp add: batch_fields_def wire_simps)
qed

section \<open>Properties\<close>

text \<open>C32: an enriched event survives the topic: what one service marshals, the next one
  unmarshals to the same event.\<close>

theorem enriched_roundtrip:
  assumes "wf_props (ee_Props e)" "in_i64 (ee_EventTime e)" "in_i64 (ee_ServerTime e)"
    "in_i64 (ee_ClientOffsetMs e)"
  shows "decode_enriched (encode_enriched e) = Some e"
  using assms by (simp add: enriched_decodes wf_enriched_def)

definition zero_enriched :: enriched_event where
  "zero_enriched = \<lparr>ee_EventID = [], ee_EventName = [], ee_EventTime = 0, ee_Props = None,
     ee_Device = None, ee_App = None, ee_Revenue = 0, ee_AppID = [], ee_UserID = [],
     ee_DeviceID = [], ee_SessionID = [], ee_ServerTime = 0, ee_ClientOffsetMs = 0,
     ee_CountryCode = [], ee_CountryName = [], ee_Region = [], ee_City = [], ee_Latitude = 0,
     ee_Longitude = 0, ee_Browser = [], ee_BrowserVersion = [], ee_OSFamily = [],
     ee_InstallSource = [], ee_CampaignID = [], ee_AdsetID = []\<rparr>"

theorem enriched_roundtrip_witness:
  "decode_enriched (encode_enriched (zero_enriched\<lparr>ee_EventTime := 5, ee_Props := Some [(''k'', JBool True)]\<rparr>))
     = Some (zero_enriched\<lparr>ee_EventTime := 5, ee_Props := Some [(''k'', JBool True)]\<rparr>)"
  by (rule enriched_roundtrip)
    (simp_all add: zero_enriched_def wf_props_def to_map_def in_i64_def)

text \<open>The session engine's synthetic events are also accepted by the decoder of enriched
  events: no field has a conflicting type, and the unknown ones are skipped.\<close>

lemma session_event_as_enriched:
  "decode_enriched (encode_session_event s) = Some (zero_enriched
     \<lparr>ee_AppID := se_AppID s, ee_UserID := se_UserID s, ee_DeviceID := se_DeviceID s,
      ee_SessionID := se_SessionID s\<rparr>)"
  unfolding decode_enriched_def encode_session_event_def
  by (simp add: jobj_def jvals_obj_fields [OF wf_session_event_fields])
    (simp add: session_event_fields_def wire_simps zero_enriched_def)

end
