(* ===== verification/Kafka.thy ===== *)
theory Kafka
  imports Wire "HOL-Library.Multiset"
begin

text \<open>
  Package \<open>internal/kafka\<close>: the producer and the two consume loops.  The client library
  and the brokers are not part of the repository: \<open>pr_out\<close> is the sequence of records
  handed to the client, an acknowledgement is an argument, and a poll is the list of records
  it returns.  A record's value is its JSON, \<open>None\<close> when its bytes are not JSON.  Options,
  logging and metrics are left out.
\<close>

record krecord =
  kr_topic :: string
  kr_partition :: int
  kr_offset :: nat
  kr_key :: string
  kr_value :: "json option"

section \<open>Producer\<close>

record producer =
  pr_out :: "(string \<times> string \<times> json) list"

text \<open>The value comes with its encoding, \<open>None\<close> when \<open>json.Marshal\<close> fails.  The promise
  callback only logs.\<close>

definition PublishAsync :: "string \<Rightarrow> string \<Rightarrow> json option \<Rightarrow> producer \<Rightarrow> go_error option \<times> producer" where
  "PublishAsync topic key value p =
     (case value of
        None \<Rightarrow> (Some (Errorf ''marshalling record''), p)
      | Some data \<Rightarrow> (None, p\<lparr>pr_out := pr_out p @ [(topic, key, data)]\<rparr>))"

definition PublishSync ::
  "go_error option \<Rightarrow> string \<Rightarrow> string \<Rightarrow> json option \<Rightarrow> producer \<Rightarrow> go_error option \<times> producer" where
  "PublishSync ack topic key value p =
     (case value of
        None \<Rightarrow> (Some (Errorf ''marshalling record''), p)
      | Some data \<Rightarrow> (case ack of None \<Rightarrow> None | Some _ \<Rightarrow> Some (Errorf ''kafka sync produce''),
          p\<lparr>pr_out := pr_out p @ [(topic, key, data)]\<rparr>))"

record batch_record =
  br_Key :: string
  br_Value :: "json option"

definition PublishBatch ::
  "go_error option list \<Rightarrow> string \<Rightarrow> batch_record list \<Rightarrow> producer \<Rightarrow> go_error option \<times> producer" where
  "PublishBatch acks topic records p =
     (if list_ex (\<lambda>r. br_Value r = None) records then (Some (Errorf ''marshalling record''), p)
      else (if list_ex (\<lambda>a. a \<noteq> None) acks then Some (Errorf ''batch produce'') else None,
            p\<lparr>pr_out := pr_out p @ map (\<lambda>r. (topic, br_Key r, the (br_Value r))) records\<rparr>))"

datatype acks = AllISRAcks | LeaderAck

definition ackFromString :: "string \<Rightarrow> acks" where
  "ackFromString s =
     (if s = ''all'' \<or> s = ''-1'' then AllISRAcks
      else if s = ''leader'' \<or> s = ''1'' then LeaderAck else LeaderAck)"

datatype codec = Snappy | Lz4 | Zstd | Gzip

definition compressionFromString :: "string \<Rightarrow> codec" where
  "compressionFromString s =
     (if s = ''snappy'' then Snappy else if s = ''lz4'' then Lz4 else if s = ''zstd'' then Zstd
      else if s = ''gzip'' then Gzip else Snappy)"

section \<open>ConsumeLoop\<close>

text \<open>A handler works on a state \<open>'s\<close>.  The consumer keeps what it has polled of a
  partition and what its committed offset covers; two counters are its metrics.\<close>

type_synonym 's handler = "string \<Rightarrow> json option \<Rightarrow> 's \<Rightarrow> go_error option \<times> 's"

record consumer =
  cn_polled :: "krecord list"
  cn_committed :: "krecord list"
  cn_processed :: nat
  cn_errors :: nat

fun each_record :: "'s handler \<Rightarrow> krecord list \<Rightarrow> consumer \<Rightarrow> 's \<Rightarrow> consumer \<times> 's" where
  "each_record h [] c s = (c, s)"
| "each_record h (r # rs) c s =
     (case h (kr_key r) (kr_value r) s of
        (Some _, s') \<Rightarrow> each_record h rs (c\<lparr>cn_errors := cn_errors c + 1\<rparr>) s'
      | (None, s') \<Rightarrow> each_record h rs (c\<lparr>cn_processed := cn_processed c + 1\<rparr>) s')"

text \<open>One turn of the loop; \<open>commit_ok\<close> says whether the commit gets through.  It moves
  the offset behind everything polled, earlier polls whose commit failed included.\<close>

definition consume_turn :: "'s handler \<Rightarrow> bool \<Rightarrow> krecord list \<Rightarrow> consumer \<Rightarrow> 's \<Rightarrow> consumer \<times> 's" where
  "consume_turn h commit_ok fetches c s =
     (let (c', s') = each_record h fetches (c\<lparr>cn_polled := cn_polled c @ fetches\<rparr>) s
      in (if commit_ok then c'\<lparr>cn_committed := cn_polled c'\<rparr> else c', s'))"

text \<open>The loop over its first polls.\<close>

fun ConsumeLoop :: "'s handler \<Rightarrow> (bool \<times> krecord list) list \<Rightarrow> consumer \<Rightarrow> 's \<Rightarrow> consumer \<times> 's" where
  "ConsumeLoop h [] c s = (c, s)"
| "ConsumeLoop h ((ok, fetches) # polls) c s =
     (let (c', s') = consume_turn h ok fetches c s in ConsumeLoop h polls c' s')"

text \<open>The handler's state after a sequence of records.\<close>

fun run_records :: "'s handler \<Rightarrow> krecord list \<Rightarrow> 's \<Rightarrow> 's" where
  "run_records h [] s = s"
| "run_records h (r # rs) s = run_records h rs (snd (h (kr_key r) (kr_value r) s))"

lemma each_record_eq:
  "snd (each_record h rs c s) = run_records h rs s"
  "cn_polled (fst (each_record h rs c s)) = cn_polled c"
  "cn_committed (fst (each_record h rs c s)) = cn_committed c"
  "cn_processed (fst (each_record h rs c s)) + cn_errors (fst (each_record h rs c s))
     = cn_processed c + cn_errors c + length rs"
  by (induction rs arbitrary: c s) (auto split: prod.splits option.splits)

lemma run_records_append: "run_records h (xs @ ys) s = run_records h ys (run_records h xs s)"
  by (induction xs arbitrary: s) simp_all

lemma ConsumeLoop_records: "snd (ConsumeLoop h polls c s) = run_records h (concat (map snd polls)) s"
proof (induction polls arbitrary: c s)
  case (Cons p polls)
  then show ?case by (cases p) (simp add: consume_turn_def run_records_append each_record_eq split_def Let_def)
qed simp

lemma consume_turn_eq:
  "snd (consume_turn h ok fetches c s) = run_records h fetches s"
  "cn_polled (fst (consume_turn h ok fetches c s)) = cn_polled c @ fetches"
  "cn_committed (fst (consume_turn h ok fetches c s)) = (if ok then cn_polled c @ fetches else cn_committed c)"
  "cn_processed (fst (consume_turn h ok fetches c s)) + cn_errors (fst (consume_turn h ok fetches c s))
     = cn_processed c + cn_errors c + length fetches"
  using each_record_eq [of h fetches "c\<lparr>cn_polled := cn_polled c @ fetches\<rparr>" s]
  by (auto simp: consume_turn_def Let_def split_def)

lemma ConsumeLoop_polled: "cn_polled (fst (ConsumeLoop h polls c s)) = cn_polled c @ concat (map snd polls)"
proof (induction polls arbitrary: c s)
  case (Cons p polls)
  then show ?case by (cases p) (simp add: split_def Let_def consume_turn_eq)
qed simp

lemma ConsumeLoop_counts:
  "cn_processed (fst (ConsumeLoop h polls c s)) + cn_errors (fst (ConsumeLoop h polls c s))
     = cn_processed c + cn_errors c + length (concat (map snd polls))"
proof (induction polls arbitrary: c s)
  case (Cons p polls)
  then show ?case by (cases p) (simp add: split_def Let_def consume_turn_eq)
qed simp

lemma ConsumeLoop_last:
  "ConsumeLoop h (polls @ [(ok, fetches)]) c s =
     consume_turn h ok fetches (fst (ConsumeLoop h polls c s)) (snd (ConsumeLoop h polls c s))"
proof (induction polls arbitrary: c s)
  case (Cons p polls)
  then show ?case by (cases p) (simp add: split_def Let_def)
qed (simp add: split_def Let_def)

section \<open>ConcurrentConsumeLoop\<close>

text \<open>The loop puts what it polls on one channel and commits; any of the workers takes the
  next record, and finishes it later.  Every commit gets through; one that fails is made up for
  by the next.\<close>

record conc =
  cc_queue :: "krecord list"
  cc_workers :: "krecord option list"
  cc_finished :: "krecord list"
  cc_committed :: "krecord list"

datatype conc_step = Poll "krecord list" | Take nat | Finish nat

definition conc_start :: "nat \<Rightarrow> conc" where
  "conc_start workers = \<lparr>cc_queue = [], cc_workers = replicate workers None, cc_finished = [], cc_committed = []\<rparr>"

inductive conc_trans :: "conc \<Rightarrow> conc_step \<Rightarrow> conc \<Rightarrow> bool" where
  poll: "conc_trans c (Poll rs) (c\<lparr>cc_queue := cc_queue c @ rs, cc_committed := cc_committed c @ rs\<rparr>)"
| take: "i < length (cc_workers c) \<Longrightarrow> cc_workers c ! i = None \<Longrightarrow> cc_queue c = r # rs \<Longrightarrow>
     conc_trans c (Take i) (c\<lparr>cc_queue := rs, cc_workers := (cc_workers c)[i := Some r]\<rparr>)"
| finish: "i < length (cc_workers c) \<Longrightarrow> cc_workers c ! i = Some r \<Longrightarrow>
     conc_trans c (Finish i) (c\<lparr>cc_workers := (cc_workers c)[i := None], cc_finished := cc_finished c @ [r]\<rparr>)"

inductive conc_run :: "conc \<Rightarrow> conc_step list \<Rightarrow> conc \<Rightarrow> bool" where
  stop: "conc_run c [] c"
| step: "conc_trans c l c' \<Longrightarrow> conc_run c' ls c'' \<Longrightarrow> conc_run c (l # ls) c''"

inductive_cases conc_pollE: "conc_trans c (Poll rs) c'"
inductive_cases conc_takeE: "conc_trans c (Take i) c'"
inductive_cases conc_finishE: "conc_trans c (Finish i) c'"

definition in_flight :: "conc \<Rightarrow> krecord list" where
  "in_flight c = concat (map (\<lambda>w. case w of None \<Rightarrow> [] | Some r \<Rightarrow> [r]) (cc_workers c))"

lemma mset_slots_update:
  "i < length ws \<Longrightarrow>
   mset (concat (map (\<lambda>w. case w of None \<Rightarrow> [] | Some r \<Rightarrow> [r]) (ws[i := w])))
     + mset (case ws ! i of None \<Rightarrow> [] | Some r \<Rightarrow> [r])
   = mset (concat (map (\<lambda>w. case w of None \<Rightarrow> [] | Some r \<Rightarrow> [r]) ws))
     + mset (case w of None \<Rightarrow> [] | Some r \<Rightarrow> [r])"
proof (induction ws arbitrary: i)
  case (Cons v ws)
  show ?case
  proof (cases i)
    case 0
    then show ?thesis by (simp add: ac_simps)
  next
    case (Suc k)
    with Cons show ?thesis by (simp add: add.assoc)
  qed
qed simp

text \<open>No record is lost or duplicated while the process lives.\<close>

lemma conc_trans_conserves:
  "conc_trans c l c' \<Longrightarrow>
   mset (cc_committed c) = mset (cc_finished c) + mset (in_flight c) + mset (cc_queue c) \<Longrightarrow>
   mset (cc_committed c') = mset (cc_finished c') + mset (in_flight c') + mset (cc_queue c')"
proof (induction rule: conc_trans.induct)
  case (poll c rs)
  then show ?case by (simp add: in_flight_def)
next
  case (take i c r rs)
  from mset_slots_update [OF take(1), of "Some r"] take(2-) show ?case
    by (simp add: in_flight_def ac_simps)
next
  case (finish i c r)
  from mset_slots_update [OF finish(1), of None] finish(2-) show ?case
    by (simp add: in_flight_def ac_simps)
qed

lemma conc_run_conserves:
  "conc_run c ls c' \<Longrightarrow>
   mset (cc_committed c) = mset (cc_finished c) + mset (in_flight c) + mset (cc_queue c) \<Longrightarrow>
   mset (cc_committed c') = mset (cc_finished c') + mset (in_flight c') + mset (cc_queue c')"
  by (induction rule: conc_run.induct) (auto dest: conc_trans_conserves)

section \<open>Properties\<close>

text \<open>\<open>ConsumeLoop\<close> hands every polled record to the handler once, in order.  A
  commit that gets through covers everything polled so far, the records whose handler failed,
  which are counted as errors, and the polls whose own commit failed.\<close>

theorem consume_in_order:
  "snd (ConsumeLoop h polls c s) = run_records h (concat (map snd polls)) s
   \<and> cn_polled (fst (ConsumeLoop h polls c s)) = cn_polled c @ concat (map snd polls)
   \<and> cn_committed (fst (ConsumeLoop h (polls @ [(True, fetches)]) c s)) = cn_polled c @ concat (map snd polls) @ fetches
   \<and> cn_committed (fst (ConsumeLoop h (polls @ [(False, fetches)]) c s)) = cn_committed (fst (ConsumeLoop h polls c s))
   \<and> cn_processed (fst (ConsumeLoop h polls c s)) + cn_errors (fst (ConsumeLoop h polls c s))
      = cn_processed c + cn_errors c + length (concat (map snd polls))"
  by (simp add: ConsumeLoop_last consume_turn_eq ConsumeLoop_records ConsumeLoop_polled ConsumeLoop_counts)

text \<open>The concurrent loop does lose the order of a partition, although it is
  documented to keep it: with two workers two records of one partition can finish in the
  opposite order, and they are committed before either is handled; no record is lost or
  handled twice as long as the process lives.\<close>

theorem concurrent_reorders:
  "(\<exists>ls c. conc_run (conc_start 2) (Poll [r1, r2] # ls) c
      \<and> cc_finished c = [r2, r1] \<and> cc_queue c = [] \<and> in_flight c = [])
   \<and> (\<exists>c. conc_run (conc_start 2) [Poll [r1, r2]] c \<and> cc_committed c = [r1, r2] \<and> cc_finished c = [])
   \<and> (\<forall>ls c. conc_run (conc_start 2) ls c \<longrightarrow>
        mset (cc_committed c) = mset (cc_finished c) + mset (in_flight c) + mset (cc_queue c))"
proof -
  define c0 where "c0 = conc_start 2"
  define c1 where "c1 = c0\<lparr>cc_queue := [r1, r2], cc_committed := [r1, r2]\<rparr>"
  define c2 where "c2 = c1\<lparr>cc_queue := [r2], cc_workers := [Some r1, None]\<rparr>"
  define c3 where "c3 = c2\<lparr>cc_queue := [], cc_workers := [Some r1, Some r2]\<rparr>"
  define c4 where "c4 = c3\<lparr>cc_workers := [Some r1, None], cc_finished := [r2]\<rparr>"
  define c5 where "c5 = c4\<lparr>cc_workers := [None, None], cc_finished := [r2, r1]\<rparr>"
  have w0: "cc_workers c0 = [None, None]" "cc_queue c0 = []" "cc_finished c0 = []" "cc_committed c0 = []"
    by (simp_all add: c0_def conc_start_def numeral_2_eq_2)
  have "conc_trans c0 (Poll [r1, r2]) c1"
    using conc_trans.poll [of c0 "[r1, r2]"] w0 by (simp add: c1_def)
  moreover have "conc_trans c1 (Take 0) c2"
    using conc_trans.take [of 0 c1 r1 "[r2]"] w0 by (simp add: c1_def c2_def)
  moreover have "conc_trans c2 (Take 1) c3"
    using conc_trans.take [of 1 c2 r2 "[]"] by (simp add: c2_def c3_def)
  moreover have "conc_trans c3 (Finish 1) c4"
    using conc_trans.finish [of 1 c3 r2] w0 by (simp add: c1_def c2_def c3_def c4_def)
  moreover have "conc_trans c4 (Finish 0) c5"
    using conc_trans.finish [of 0 c4 r1] by (simp add: c4_def c5_def)
  ultimately have "conc_run c0 [Poll [r1, r2], Take 0, Take 1, Finish 1, Finish 0] c5"
    "conc_run c0 [Poll [r1, r2]] c1"
    by (blast intro: conc_run.intros)+
  moreover have "cc_finished c5 = [r2, r1]" "cc_queue c5 = []" "in_flight c5 = []"
    "cc_committed c1 = [r1, r2]" "cc_finished c1 = []"
    by (simp_all add: c5_def c4_def c3_def in_flight_def c1_def w0)
  moreover have "mset (cc_committed c0) = mset (cc_finished c0) + mset (in_flight c0) + mset (cc_queue c0)"
    by (simp add: w0 in_flight_def)
  ultimately show ?thesis
    unfolding c0_def using conc_run_conserves by blast
qed

theorem concurrent_reorders_witness:
  "\<exists>ls c. conc_run (conc_start 2) (Poll [r\<lparr>kr_offset := 0\<rparr>, r\<lparr>kr_offset := 1\<rparr>] # ls) c
     \<and> map kr_offset (cc_finished c) = [1, 0]"
  using concurrent_reorders [of "r\<lparr>kr_offset := 0\<rparr>" "r\<lparr>kr_offset := 1\<rparr>"] by fastforce

end
