(* ===== verification/Enricher.thy ===== *)
theory Enricher
  imports Wire
begin

text \<open>
  Packages \<open>internal/geo\<close> and \<open>internal/enricher\<close>: client address extraction, GeoIP
  location, user-agent classification, enrichment of a raw batch and the flat ClickHouse
  row.  The MaxMind reader is a parameter (a function from addresses to records); the
  grammar of IPv6 literals and the \<open>%g\<close> formatting of floats are parameters too.
\<close>

section \<open>Addresses\<close>

datatype ip = IPv4 "nat list" | IPv6 "nat list"

fun split_char :: "char \<Rightarrow> string \<Rightarrow> string list" where
  "split_char d [] = [[]]"
| "split_char d (c # s) =
     (if c = d then [] # split_char d s
      else (case split_char d s of [] \<Rightarrow> [[c]] | w # ws \<Rightarrow> (c # w) # ws))"

text \<open>One decimal field of a dotted address: at most 255, no leading zero.\<close>

definition octet :: "string \<Rightarrow> nat option" where
  "octet w = (if w = [] \<or> (length w > 1 \<and> hd w = CHR ''0'') then None
     else (case read_nat 0 w of Some n \<Rightarrow> if n \<le> 255 then Some n else None | None \<Rightarrow> None))"

definition ParseIP :: "(string \<Rightarrow> nat list option) \<Rightarrow> string \<Rightarrow> ip option" where
  "ParseIP v6 s =
     (if CHR '':'' \<in> set s then map_option IPv6 (v6 s)
      else (let ws = split_char (CHR ''.'') s in
            if length ws = 4 then map_option IPv4 (those (map octet ws)) else None))"

definition IsPrivate :: "ip \<Rightarrow> bool" where
  "IsPrivate a = (case a of
      IPv4 b \<Rightarrow> b ! 0 = 10 \<or> (b ! 0 = 172 \<and> b ! 1 div 16 = 1) \<or> (b ! 0 = 192 \<and> b ! 1 = 168)
    | IPv6 b \<Rightarrow> b ! 0 div 2 = 126)"

text \<open>\<open>net.SplitHostPort\<close>: the host, or an error.\<close>

definition SplitHostPort :: "string \<Rightarrow> string option" where
  "SplitHostPort hp =
     (case rev (split_char (CHR '':'') hp) of
        port # h # hs \<Rightarrow>
          if hp ! 0 = CHR ''['' then
            (let host = takeWhile (\<lambda>c. c \<noteq> CHR '']'') (tl hp); rest = drop (length host + 1) hp in
             if rest = CHR '']'' # CHR '':'' # port \<and> CHR ''['' \<notin> set (tl hp) \<and> CHR '']'' \<notin> set (tl rest)
             then Some host else None)
          else if hs = [] \<and> CHR ''['' \<notin> set hp \<and> CHR '']'' \<notin> set hp then Some h
          else None
      | _ \<Rightarrow> None)"

definition is_sep :: "char \<Rightarrow> bool" where
  "is_sep c \<longleftrightarrow> c = CHR '','' \<or> c = CHR '' ''"

text \<open>The index loop of \<open>splitIPs\<close>: \<open>i\<close> runs over the string, \<open>start\<close> is where the
  current field began.\<close>

function splitIPs_loop :: "string \<Rightarrow> nat \<Rightarrow> nat \<Rightarrow> string list \<Rightarrow> string list" where
  "splitIPs_loop s start i ips =
     (if i < length s then
        (if is_sep (s ! i) then
           splitIPs_loop s (i + 1) (i + 1) (if i > start then ips @ [take (i - start) (drop start s)] else ips)
         else splitIPs_loop s start (i + 1) ips)
      else if start < length s then ips @ [drop start s] else ips)"
  by pat_completeness auto
termination by (relation "measure (\<lambda>(s, start, i, ips). length s - i)") auto

declare splitIPs_loop.simps [simp del]

definition splitIPs :: "string \<Rightarrow> string list" where
  "splitIPs s = splitIPs_loop s 0 0 []"

definition ExtractIP :: "(string \<Rightarrow> nat list option) \<Rightarrow> string \<Rightarrow> string \<Rightarrow> string" where
  "ExtractIP v6 xForwardedFor remoteAddr =
     (case (if xForwardedFor \<noteq> []
            then List.find (\<lambda>w. case ParseIP v6 w of Some a \<Rightarrow> \<not> IsPrivate a | None \<Rightarrow> False) (splitIPs xForwardedFor)
            else None) of
        Some w \<Rightarrow> w
      | None \<Rightarrow> (case SplitHostPort remoteAddr of Some host \<Rightarrow> host | None \<Rightarrow> remoteAddr))"

section \<open>Location\<close>

record location =
  lc_CountryCode :: string
  lc_CountryName :: string
  lc_Region :: string
  lc_City :: string
  lc_Latitude :: f64
  lc_Longitude :: f64
  lc_Timezone :: string
  lc_ISP :: string

definition zero_location :: location where
  "zero_location = \<lparr>lc_CountryCode = [], lc_CountryName = [], lc_Region = [], lc_City = [],
     lc_Latitude = 0, lc_Longitude = 0, lc_Timezone = [], lc_ISP = []\<rparr>"

text \<open>The fields of a MaxMind city record the code reads.\<close>

record city_record =
  cr_IsoCode :: string
  cr_CountryNames :: "(string \<times> string) list"
  cr_CityNames :: "(string \<times> string) list"
  cr_Latitude :: f64
  cr_Longitude :: f64
  cr_TimeZone :: string
  cr_Subdivisions :: "(string \<times> string) list list"

type_synonym geo_db = "ip \<Rightarrow> go_error + city_record"

definition geo_Lookup :: "(string \<Rightarrow> nat list option) \<Rightarrow> geo_db option \<Rightarrow> string \<Rightarrow> location" where
  "geo_Lookup v6 db s = (case db of
      None \<Rightarrow> zero_location
    | Some City \<Rightarrow> (case ParseIP v6 s of
        None \<Rightarrow> zero_location
      | Some a \<Rightarrow> (case City a of
          Inl _ \<Rightarrow> zero_location
        | Inr r \<Rightarrow> zero_location\<lparr>lc_CountryCode := cr_IsoCode r,
            lc_CountryName := conf_get (cr_CountryNames r) ''en'',
            lc_City := conf_get (cr_CityNames r) ''en'',
            lc_Latitude := cr_Latitude r, lc_Longitude := cr_Longitude r,
            lc_Timezone := cr_TimeZone r,
            lc_Region := (case cr_Subdivisions r of [] \<Rightarrow> [] | d # _ \<Rightarrow> conf_get d ''en'')\<rparr>)))"

section \<open>Enrichment\<close>

record ingest_message =
  im_Batch :: event_batch
  im_ClientIP :: string
  im_ServerTS :: int

definition parseUA :: "event_batch \<Rightarrow> string \<times> string \<times> string" where
  "parseUA batch = (case eb_Events batch of
      [] \<Rightarrow> ([], [], [])
    | e # _ \<Rightarrow> (case ev_Device e of
        None \<Rightarrow> ([], [], [])
      | Some d \<Rightarrow>
          if UserAgent d = [] then ([], [], [])
          else (let ua = to_lower (UserAgent d) in
            (if str_contains ua ''chrome'' then ''Chrome''
             else if str_contains ua ''firefox'' then ''Firefox''
             else if str_contains ua ''safari'' then ''Safari''
             else if str_contains ua ''edge'' then ''Edge''
             else ''Other'',
             [],
             if str_contains ua ''android'' then ''Android''
             else if str_contains ua ''iphone'' \<or> str_contains ua ''ipad'' then ''iOS''
             else if str_contains ua ''windows'' then ''Windows''
             else if str_contains ua ''mac'' then ''macOS''
             else if str_contains ua ''linux'' then ''Linux''
             else []))))"

definition prop_or_empty :: "props \<Rightarrow> string \<Rightarrow> string" where
  "prop_or_empty p k = (case prop_string p k of Some v \<Rightarrow> v | None \<Rightarrow> [])"

definition enrich_event ::
  "event_batch \<Rightarrow> int \<Rightarrow> location \<Rightarrow> string \<times> string \<times> string \<Rightarrow> event \<Rightarrow> enriched_event" where
  "enrich_event batch serverTS loc ua evt =
     (case ua of (browser, browserVersion, osFamily) \<Rightarrow>
       \<lparr>ee_EventID = ev_EventID evt, ee_EventName = ev_EventName evt,
        ee_EventTime = ev_EventTime evt, ee_Props = ev_Props evt, ee_Device = ev_Device evt,
        ee_App = ev_App evt, ee_Revenue = ev_Revenue evt, ee_AppID = eb_AppID batch,
        ee_UserID = eb_UserID batch, ee_DeviceID = eb_DeviceID batch, ee_SessionID = [],
        ee_ServerTime = serverTS, ee_ClientOffsetMs = i64 (serverTS - ev_EventTime evt),
        ee_CountryCode = lc_CountryCode loc, ee_CountryName = lc_CountryName loc,
        ee_Region = lc_Region loc, ee_City = lc_City loc, ee_Latitude = lc_Latitude loc,
        ee_Longitude = lc_Longitude loc, ee_Browser = browser,
        ee_BrowserVersion = browserVersion, ee_OSFamily = osFamily,
        ee_InstallSource = prop_or_empty (ev_Props evt) ''install_source'',
        ee_CampaignID = prop_or_empty (ev_Props evt) ''campaign_id'',
        ee_AdsetID = prop_or_empty (ev_Props evt) ''adset_id''\<rparr>)"

text \<open>\<open>geo\<close> is the resolver, nil (\<open>None\<close>) or with its database.\<close>

definition Enrich ::
  "(string \<Rightarrow> nat list option) \<Rightarrow> geo_db option option \<Rightarrow> ingest_message \<Rightarrow> enriched_event list" where
  "Enrich v6 geo msg =
     (let batch = im_Batch msg;
          loc = (case geo of None \<Rightarrow> zero_location | Some db \<Rightarrow> geo_Lookup v6 db (im_ClientIP msg));
          ua = parseUA batch
      in map (enrich_event batch (im_ServerTS msg) loc ua) (eb_Events batch))"

section \<open>The ClickHouse row\<close>

definition normalizePlatform :: "string \<Rightarrow> string" where
  "normalizePlatform p =
     (let q = to_lower (trim_space p) in
      if q = ''android'' then ''android''
      else if q = ''ios'' \<or> q = ''iphone'' \<or> q = ''ipad'' then ''ios''
      else if q = ''web'' \<or> q = ''browser'' then ''web''
      else if q = ''react_native'' \<or> q = ''reactnative'' then ''react_native''
      else if q = ''flutter'' then ''flutter''
      else if q = ''server'' \<or> q = ''backend'' then ''server''
      else ''unknown'')"

text \<open>\<open>fmt.Sprintf("%v")\<close>: maps are printed with their keys sorted.\<close>

fun lex_le :: "string \<Rightarrow> string \<Rightarrow> bool" where
  "lex_le [] _ = True"
| "lex_le (_ # _) [] = False"
| "lex_le (c # s) (d # t) = ((of_char c :: nat) < of_char d \<or> (c = d \<and> lex_le s t))"

fun insert_key :: "string \<times> string \<Rightarrow> (string \<times> string) list \<Rightarrow> (string \<times> string) list" where
  "insert_key p [] = [p]"
| "insert_key p (q # qs) = (if lex_le (fst p) (fst q) then p # q # qs else q # insert_key p qs)"

fun fmt_v :: "(f64 \<Rightarrow> string) \<Rightarrow> json \<Rightarrow> string" where
  "fmt_v g JNull = ''<nil>''"
| "fmt_v g (JBool b) = (if b then ''true'' else ''false'')"
| "fmt_v g (JNum q) = g q"
| "fmt_v g (JStr s) = s"
| "fmt_v g (JArr xs) = ''['' @ str_join '' '' (map (fmt_v g) xs) @ '']''"
| "fmt_v g (JObj m) = ''map['' @ str_join '' ''
     (map (\<lambda>(k, v). k @ '':'' @ v) (foldr insert_key (map (\<lambda>(k, v). (k, fmt_v g v)) m) [])) @ '']''"

definition flattenValue :: "(f64 \<Rightarrow> string) \<Rightarrow> json \<Rightarrow> string" where
  "flattenValue g v = (case v of
      JStr s \<Rightarrow> s
    | JNum q \<Rightarrow> g q
    | JBool b \<Rightarrow> if b then ''true'' else ''false''
    | JNull \<Rightarrow> []
    | _ \<Rightarrow> fmt_v g v)"

definition ToCHEvent :: "(f64 \<Rightarrow> string) \<Rightarrow> enriched_event \<Rightarrow> ch_event" where
  "ToCHEvent g e =
     \<lparr>ch_AppID = ee_AppID e, ch_EventID = ee_EventID e, ch_UserID = ee_UserID e,
      ch_DeviceID = ee_DeviceID e, ch_EventName = ee_EventName e, ch_EventTime = ee_EventTime e,
      ch_ServerTime = ee_ServerTime e, ch_SessionID = ee_SessionID e,
      ch_CountryCode = ee_CountryCode e,
      ch_Platform = (case ee_App e of None \<Rightarrow> ''unknown'' | Some a \<Rightarrow> normalizePlatform (Platform a)),
      ch_AppVersion = (case ee_App e of None \<Rightarrow> [] | Some a \<Rightarrow> Version a),
      ch_OSFamily = ee_OSFamily e, ch_Browser = ee_Browser e, ch_City = ee_City e,
      ch_Revenue = ee_Revenue e,
      ch_Props = (case ee_Props e of None \<Rightarrow> [] | Some m \<Rightarrow> map (\<lambda>(k, v). (k, flattenValue g v)) m),
      ch_CampaignID = ee_CampaignID e, ch_InstallSrc = ee_InstallSource e\<rparr>"

section \<open>Properties\<close>

text \<open>The non-empty fields between separators.\<close>

fun words_of :: "string \<Rightarrow> string \<Rightarrow> string list" where
  "words_of w [] = (if w = [] then [] else [w])"
| "words_of w (c # s) =
     (if is_sep c then (if w = [] then words_of [] s else w # words_of [] s) else words_of (w @ [c]) s)"

lemma splitIPs_loop_words:
  "start \<le> i \<Longrightarrow> i \<le> length s \<Longrightarrow>
   splitIPs_loop s start i ips = ips @ words_of (take (i - start) (drop start s)) (drop i s)"
proof (induction s start i ips rule: splitIPs_loop.induct)
  case (1 s start i ips)
  show ?case
  proof (cases "i < length s")
    case True
    then have d: "drop i s = s ! i # drop (Suc i) s" by (simp add: Cons_nth_drop_Suc)
    have t: "take (Suc i - start) (drop start s) = take (i - start) (drop start s) @ [s ! i]"
      using True "1.prems" by (simp add: Suc_diff_le take_Suc_conv_app_nth)
    have e: "take (i - start) (drop start s) = [] \<longleftrightarrow> \<not> start < i"
      using True "1.prems" by auto
    show ?thesis
      using True "1.prems" "1.IH"
      by (subst splitIPs_loop.simps) (auto simp: d t e)
  next
    case False
    then have "i = length s" using "1.prems" by simp
    then show ?thesis using "1.prems" by (subst splitIPs_loop.simps) auto
  qed
qed

text \<open>The index loop of \<open>splitIPs\<close> computes the non-empty fields of the header, and
  the client address is the first of them that is a public address, else the host of the
  connection.\<close>

theorem ExtractIP_first_public:
  "splitIPs s = words_of [] s \<and>
   ExtractIP v6 s remote =
     (case filter (\<lambda>w. case ParseIP v6 w of Some a \<Rightarrow> \<not> IsPrivate a | None \<Rightarrow> False) (words_of [] s) of
        w # _ \<Rightarrow> w
      | [] \<Rightarrow> (case SplitHostPort remote of Some host \<Rightarrow> host | None \<Rightarrow> remote))"
proof -
  have words: "splitIPs s = words_of [] s"
    using splitIPs_loop_words [of 0 0 s "[]"] by (simp add: splitIPs_def)
  have find: "List.find P xs = (case filter P xs of [] \<Rightarrow> None | x # _ \<Rightarrow> Some x)" for P and xs :: "string list"
    by (induction xs) auto
  show ?thesis
    using words by (cases "s = []") (auto simp: ExtractIP_def find split: list.splits)
qed

text \<open>The browser test looks for \<open>chrome\<close> first, so no user agent of Edge, all of
  which name Chrome as well, is ever classified as Edge.\<close>

theorem parseUA_edge_is_chrome:
  assumes "eb_Events batch = e # es" "ev_Device e = Some d"
    "str_contains (to_lower (UserAgent d)) ''chrome''"
  shows "fst (parseUA batch) = ''Chrome''"
proof -
  have "UserAgent d \<noteq> []" using assms(3) by (auto simp: to_lower_def)
  with assms show ?thesis by (simp add: parseUA_def Let_def)
qed

definition edge_device :: device_context where
  "edge_device = \<lparr>DeviceModel = [], OS = [], OSVersion = [], Manufacturer = [], ScreenSize = [],
     NetworkType = [], Language = [], Timezone = [], Carrier = [], IsTablet = False,
     UserAgent = ''Mozilla/5.0 (Windows NT 10.0) Chrome/42.0 Safari/537.36 Edge/12.246''\<rparr>"

definition plain_event :: event where
  "plain_event = \<lparr>ev_EventID = ''e'', ev_EventName = ''n'', ev_EventTime = 1, ev_Props = None,
     ev_Device = None, ev_App = None, ev_Revenue = 0\<rparr>"

definition batch_of :: "event list \<Rightarrow> event_batch" where
  "batch_of es = \<lparr>eb_AppID = ''a'', eb_DeviceID = ''d'', eb_UserID = [], eb_SDKVersion = [],
     eb_SentAtMs = 0, eb_Events = es\<rparr>"

theorem parseUA_edge_is_chrome_witness:
  "fst (parseUA (batch_of [plain_event\<lparr>ev_Device := Some edge_device\<rparr>])) = ''Chrome''"
proof (rule parseUA_edge_is_chrome)
  show "eb_Events (batch_of [plain_event\<lparr>ev_Device := Some edge_device\<rparr>])
     = plain_event\<lparr>ev_Device := Some edge_device\<rparr> # []" by (simp add: batch_of_def)
  show "ev_Device (plain_event\<lparr>ev_Device := Some edge_device\<rparr>) = Some edge_device" by simp
  show "str_contains (to_lower (UserAgent edge_device)) ''chrome''" by code_simp
qed

lemma normalizePlatform_values:
  "normalizePlatform p \<in> {''android'', ''ios'', ''web'', ''react_native'', ''flutter'', ''server'', ''unknown''}"
  unfolding normalizePlatform_def Let_def by simp

lemma normalizePlatform_idem: "normalizePlatform (normalizePlatform p) = normalizePlatform p"
proof -
  have "\<forall>q \<in> set [''android'', ''ios'', ''web'', ''react_native'', ''flutter'', ''server'', ''unknown''].
      normalizePlatform q = q"
    by code_simp
  then show ?thesis using normalizePlatform_values [of p] by auto
qed

lemma enrich_event_wf:
  "wf_props (ev_Props evt) \<Longrightarrow> in_i64 (ev_EventTime evt) \<Longrightarrow> in_i64 serverTS \<Longrightarrow>
   wf_enriched (enrich_event batch serverTS loc ua evt)"
  by (cases ua) (simp add: wf_enriched_def enrich_event_def)

text \<open>Enrichment keeps every event of the batch, in order, with its own fields, and
  the clock correction it records is exact: offset plus client time is the server time,
  modulo the width of the integers.\<close>

theorem Enrich_keeps:
  "map (\<lambda>e. (ee_EventID e, ee_EventName e, ee_EventTime e, ee_Props e, ee_Revenue e)) (Enrich v6 geo msg)
     = map (\<lambda>e. (ev_EventID e, ev_EventName e, ev_EventTime e, ev_Props e, ev_Revenue e)) (eb_Events (im_Batch msg))
   \<and> list_all (\<lambda>e. ee_AppID e = eb_AppID (im_Batch msg) \<and> ee_DeviceID e = eb_DeviceID (im_Batch msg)
        \<and> ee_ServerTime e = im_ServerTS msg
        \<and> (ee_ClientOffsetMs e + ee_EventTime e) mod 2 ^ 64 = im_ServerTS msg mod 2 ^ 64)
     (Enrich v6 geo msg)"
proof -
  have "(i64 (a - b) + b) mod 2 ^ 64 = a mod 2 ^ 64" for a b
    by (metis i64_mod mod_add_left_eq diff_add_cancel)
  then show ?thesis
    by (auto simp: Enrich_def Let_def list_all_iff enrich_event_def split: prod.splits)
qed

end
