(* ===== verification/Redis.thy ===== *)
theory Redis
  imports Prelude
begin

text \<open>
  Package \<open>internal/redis\<close>.  The Redis server behind go-redis is not part of the
  repository: the operations the code uses are the fields of a record \<open>redis\<close> that the
  definitions take as an argument (state \<open>'s\<close>, stored values \<open>'v\<close>, clock in
  nanoseconds), and what the code relies on is stated as the predicates \<open>redis_kv\<close> and
  \<open>redis_zset\<close>.  The methods of the client are thin wrappers.  The token-bucket Lua
  script is program text of the package and is modelled as the function it computes on its
  two keys.
\<close>

record ('s, 'v) redis =
  raw_Get :: "'s \<Rightarrow> int \<Rightarrow> string \<Rightarrow> go_error + 'v"
  raw_Set :: "'s \<Rightarrow> int \<Rightarrow> string \<Rightarrow> 'v \<Rightarrow> int \<Rightarrow> go_error option \<times> 's"
  raw_Del :: "'s \<Rightarrow> int \<Rightarrow> string \<Rightarrow> go_error option \<times> 's"
  raw_Exists :: "'s \<Rightarrow> int \<Rightarrow> string \<Rightarrow> go_error + nat"
  raw_Expire :: "'s \<Rightarrow> int \<Rightarrow> string \<Rightarrow> int \<Rightarrow> go_error option \<times> 's"
  raw_ZAdd :: "'s \<Rightarrow> int \<Rightarrow> string \<Rightarrow> f64 \<Rightarrow> string \<Rightarrow> go_error option \<times> 's"
  raw_ZRangeByScore :: "'s \<Rightarrow> int \<Rightarrow> string \<Rightarrow> f64 \<Rightarrow> f64 \<Rightarrow> nat option \<Rightarrow> go_error + string list"
  raw_ZRemRangeByScore :: "'s \<Rightarrow> int \<Rightarrow> string \<Rightarrow> f64 option \<Rightarrow> f64 \<Rightarrow> (go_error + nat) \<times> 's"
  raw_SAddExpire :: "'s \<Rightarrow> int \<Rightarrow> string \<Rightarrow> string \<Rightarrow> int \<Rightarrow> (go_error + nat) \<times> 's"

section \<open>Client methods\<close>

definition redis_Get :: "('s, 'v) redis \<Rightarrow> 's \<Rightarrow> int \<Rightarrow> string \<Rightarrow> go_error + 'v" where
  "redis_Get R s now key = raw_Get R s now key"

definition redis_Set :: "('s, 'v) redis \<Rightarrow> 's \<Rightarrow> int \<Rightarrow> string \<Rightarrow> 'v \<Rightarrow> int \<Rightarrow> go_error option \<times> 's" where
  "redis_Set R s now key v ttl = raw_Set R s now key v ttl"

text \<open>\<open>SetJSON\<close> and \<open>GetJSON\<close> marshal a struct to JSON and back; \<open>enc\<close> and \<open>dec\<close>
  are that struct's encoding, each of which can fail.\<close>

definition redis_SetJSON ::
  "('s, 'v) redis \<Rightarrow> ('a \<Rightarrow> 'v option) \<Rightarrow> 's \<Rightarrow> int \<Rightarrow> string \<Rightarrow> 'a \<Rightarrow> int \<Rightarrow> go_error option \<times> 's" where
  "redis_SetJSON R enc s now key a ttl =
     (case enc a of None \<Rightarrow> (Some (Errorf ''json''), s)
      | Some v \<Rightarrow> raw_Set R s now key v ttl)"

definition redis_GetJSON ::
  "('s, 'v) redis \<Rightarrow> ('v \<Rightarrow> 'a option) \<Rightarrow> 's \<Rightarrow> int \<Rightarrow> string \<Rightarrow> go_error + 'a" where
  "redis_GetJSON R dec s now key =
     (case raw_Get R s now key of
        Inl e \<Rightarrow> Inl e
      | Inr v \<Rightarrow> (case dec v of None \<Rightarrow> Inl (Errorf ''json'') | Some a \<Rightarrow> Inr a))"

definition redis_Del :: "('s, 'v) redis \<Rightarrow> 's \<Rightarrow> int \<Rightarrow> string \<Rightarrow> go_error option \<times> 's" where
  "redis_Del R s now key = raw_Del R s now key"

text \<open>\<open>n > 0, err\<close>: on an error \<open>n\<close> is 0.\<close>

definition redis_Exists :: "('s, 'v) redis \<Rightarrow> 's \<Rightarrow> int \<Rightarrow> string \<Rightarrow> bool \<times> go_error option" where
  "redis_Exists R s now key =
     (case raw_Exists R s now key of Inl e \<Rightarrow> (False, Some e) | Inr n \<Rightarrow> (n > 0, None))"

definition redis_Expire :: "('s, 'v) redis \<Rightarrow> 's \<Rightarrow> int \<Rightarrow> string \<Rightarrow> int \<Rightarrow> go_error option \<times> 's" where
  "redis_Expire R s now key ttl = raw_Expire R s now key ttl"

definition redis_ZAdd :: "('s, 'v) redis \<Rightarrow> 's \<Rightarrow> int \<Rightarrow> string \<Rightarrow> f64 \<Rightarrow> string \<Rightarrow> go_error option \<times> 's" where
  "redis_ZAdd R s now key score member = raw_ZAdd R s now key score member"

definition redis_ZRangeByScore ::
  "('s, 'v) redis \<Rightarrow> 's \<Rightarrow> int \<Rightarrow> string \<Rightarrow> f64 \<Rightarrow> f64 \<Rightarrow> nat option \<Rightarrow> go_error + string list" where
  "redis_ZRangeByScore R s now key lo hi count = raw_ZRangeByScore R s now key lo hi count"

definition redis_ZRemRangeByScore ::
  "('s, 'v) redis \<Rightarrow> 's \<Rightarrow> int \<Rightarrow> string \<Rightarrow> f64 option \<Rightarrow> f64 \<Rightarrow> (go_error + nat) \<times> 's" where
  "redis_ZRemRangeByScore R s now key lo hi = raw_ZRemRangeByScore R s now key lo hi"

text \<open>The \<open>SADD\<close> + \<open>EXPIRE\<close> pipeline.\<close>

definition redis_SetAdd ::
  "('s, 'v) redis \<Rightarrow> 's \<Rightarrow> int \<Rightarrow> string \<Rightarrow> string \<Rightarrow> int \<Rightarrow> (go_error + bool) \<times> 's" where
  "redis_SetAdd R s now key member ttl =
     (case raw_SAddExpire R s now key member ttl of
        (Inl e, s') \<Rightarrow> (Inl e, s')
      | (Inr n, s') \<Rightarrow> (Inr (n = 1), s'))"

definition redis_IsNotFound :: "go_error \<Rightarrow> bool" where
  "redis_IsNotFound e \<longleftrightarrow> e = ErrNotFound"

section \<open>What the code relies on\<close>

text \<open>\<open>SET k v EX ttl\<close> makes \<open>k\<close> readable as \<open>v\<close> until \<open>ttl\<close> has passed and leaves
  the other keys alone; \<open>EXISTS\<close> agrees with \<open>GET\<close>.\<close>

definition redis_kv :: "('s, 'v) redis \<Rightarrow> bool" where
  "redis_kv R \<longleftrightarrow>
     (\<forall>s now k v ttl s'. raw_Set R s now k v ttl = (None, s') \<longrightarrow>
        (\<forall>t j. now \<le> t \<longrightarrow> raw_Get R s' t j =
           (if j = k then (if t < now + ttl then Inr v else Inl ErrNotFound) else raw_Get R s t j)))
   \<and> (\<forall>s t k. raw_Exists R s t k = (case raw_Get R s t k of
        Inr _ \<Rightarrow> Inr 1 | Inl e \<Rightarrow> if e = ErrNotFound then Inr 0 else Inl e))"

lemma redis_kv_get:
  "redis_kv R \<Longrightarrow> raw_Set R s now k v ttl = (None, s') \<Longrightarrow> now \<le> t \<Longrightarrow>
   raw_Get R s' t j = (if j = k then (if t < now + ttl then Inr v else Inl ErrNotFound) else raw_Get R s t j)"
  unfolding redis_kv_def by blast

text \<open>A member just added to a sorted set is found by a range that includes its score.\<close>

definition redis_zset :: "('s, 'v) redis \<Rightarrow> bool" where
  "redis_zset R \<longleftrightarrow>
     (\<forall>s now k sc m s1 lo hi ttl. raw_ZAdd R s now k sc m = (None, s1) \<longrightarrow> lo \<le> sc \<longrightarrow> sc \<le> hi \<longrightarrow>
        (\<exists>ms. raw_ZRangeByScore R (snd (raw_Expire R s1 now k ttl)) now k lo hi None = Inr ms \<and> m \<in> set ms)
      \<and> (\<exists>ms. raw_ZRangeByScore R (snd (raw_Expire R s1 now k ttl)) now k lo hi (Some 1) = Inr ms \<and> ms \<noteq> []))"

text \<open>An in-memory server, to show that these requirements can be met: keys with their
  expiry, and sorted sets as score lists.\<close>

record 'v mem =
  mem_kv :: "string \<Rightarrow> ('v \<times> int) option"
  mem_z :: "string \<Rightarrow> (string \<times> f64) list"
  mem_sets :: "string \<Rightarrow> string set"

definition mem_get :: "'v mem \<Rightarrow> int \<Rightarrow> string \<Rightarrow> go_error + 'v" where
  "mem_get s t k = (case mem_kv s k of
      None \<Rightarrow> Inl ErrNotFound | Some (v, e) \<Rightarrow> if t < e then Inr v else Inl ErrNotFound)"

definition mem_zrange :: "'v mem \<Rightarrow> string \<Rightarrow> f64 \<Rightarrow> f64 \<Rightarrow> string list" where
  "mem_zrange s k lo hi = map fst (filter (\<lambda>(m, sc). lo \<le> sc \<and> sc \<le> hi) (mem_z s k))"

definition mem_redis :: "('v mem, 'v) redis" where
  "mem_redis = \<lparr>
     raw_Get = mem_get,
     raw_Set = (\<lambda>s t k v ttl. (None, s\<lparr>mem_kv := (mem_kv s)(k := Some (v, t + ttl))\<rparr>)),
     raw_Del = (\<lambda>s t k. (None, s\<lparr>mem_kv := (mem_kv s)(k := None), mem_z := (mem_z s)(k := [])\<rparr>)),
     raw_Exists = (\<lambda>s t k. case mem_get s t k of Inr _ \<Rightarrow> Inr 1 | Inl _ \<Rightarrow> Inr 0),
     raw_Expire = (\<lambda>s t k ttl. (None, s)),
     raw_ZAdd = (\<lambda>s t k sc m. (None, s\<lparr>mem_z := (mem_z s)(k := al_set m sc (mem_z s k))\<rparr>)),
     raw_ZRangeByScore = (\<lambda>s t k lo hi cnt. Inr (case cnt of None \<Rightarrow> mem_zrange s k lo hi
         | Some n \<Rightarrow> take n (mem_zrange s k lo hi))),
     raw_ZRemRangeByScore = (\<lambda>s t k lo hi.
        let gone = (\<lambda>(m, sc). (case lo of None \<Rightarrow> True | Some l \<Rightarrow> l \<le> sc) \<and> sc \<le> hi) in
        (Inr (length (filter gone (mem_z s k))),
         s\<lparr>mem_z := (mem_z s)(k := filter (\<lambda>p. \<not> gone p) (mem_z s k))\<rparr>)),
     raw_SAddExpire = (\<lambda>s t k m ttl.
        (Inr (if m \<in> mem_sets s k then 0 else 1),
         s\<lparr>mem_sets := (mem_sets s)(k := insert m (mem_sets s k))\<rparr>))\<rparr>"

definition mem_empty :: "'v mem" where
  "mem_empty = \<lparr>mem_kv = (\<lambda>_. None), mem_z = (\<lambda>_. []), mem_sets = (\<lambda>_. {})\<rparr>"

lemma mem_redis_kv: "redis_kv (mem_redis :: ('v mem, 'v) redis)"
  by (auto simp: redis_kv_def mem_redis_def mem_get_def split: option.splits sum.splits)

lemma al_set_mem: "(k, v) \<in> set (al_set k v m)"
  by (induction m) auto

lemma mem_redis_zset: "redis_zset (mem_redis :: ('v mem, 'v) redis)"
proof -
  have in_range: "m \<in> set (map fst (filter (\<lambda>(m, sc). lo \<le> sc \<and> sc \<le> hi) (al_set m sc zs)))"
    if "lo \<le> sc" "sc \<le> hi" for m sc lo hi and zs :: "(string \<times> rat) list"
    using that al_set_mem [of m sc zs] by force
  have nonempty: "take 1 xs \<noteq> []" if "m \<in> set xs" for m :: string and xs
    using that by (cases xs) auto
  show ?thesis
    unfolding redis_zset_def mem_redis_def mem_zrange_def
    using in_range nonempty [OF in_range] by (fastforce simp: fun_upd_def)
qed

section \<open>The token-bucket script\<close>

text \<open>The script reads and writes the keys \<open>key\<close> and \<open>key:ts\<close>, always together and with
  the same expiry; \<open>bk_expires\<close> is when they vanish.  Times are seconds.  \<open>SET ... EX\<close>
  rejects an expiry that is not a positive integer, which makes the script fail:
  \<open>None\<close>.\<close>

record bucket =
  bk_tokens :: f64
  bk_ts :: f64
  bk_expires :: f64

definition rateLimitScript ::
  "f64 \<Rightarrow> f64 \<Rightarrow> f64 \<Rightarrow> f64 \<Rightarrow> bucket option \<Rightarrow> ((bool \<times> int) \<times> bucket) option" where
  "rateLimitScript rate burst now requested stored =
     (let live = (case stored of None \<Rightarrow> None | Some b \<Rightarrow> if now < bk_expires b then Some b else None);
          ttl = \<lfloor>burst / rate * 2\<rfloor>;
          last_tokens = (case live of None \<Rightarrow> burst | Some b \<Rightarrow> bk_tokens b);
          last_refreshed = (case live of None \<Rightarrow> now | Some b \<Rightarrow> bk_ts b);
          delta = max 0 (now - last_refreshed);
          filled_tokens = min burst (last_tokens + delta * rate);
          allowed = (filled_tokens \<ge> requested)
      in if rate = 0 \<or> ttl \<le> 0 then None
         else Some ((allowed, \<lfloor>filled_tokens\<rfloor>),
            \<lparr>bk_tokens = (if allowed then filled_tokens - requested else filled_tokens),
             bk_ts = now, bk_expires = now + of_int ttl\<rparr>))"

text \<open>\<open>AllowRate\<close>: \<open>reachable\<close> says whether \<open>EVAL\<close> gets through.  Any failure, of the
  connection or of the script, is answered with \<open>true, nil\<close>.\<close>

definition AllowRate :: "bool \<Rightarrow> f64 \<Rightarrow> int \<Rightarrow> f64 \<Rightarrow> bucket option \<Rightarrow> (bool \<times> go_error option) \<times> bucket option" where
  "AllowRate reachable rps burst now stored =
     (case (if reachable then rateLimitScript rps (of_int burst) now 1 stored else None) of
        None \<Rightarrow> ((True, None), stored)
      | Some ((allowed, _), b) \<Rightarrow> ((allowed, None), Some b))"

end
