(* ===== verification/Session.thy ===== *)
theory Session
  imports Redis Wire
begin

text \<open>
  Package \<open>internal/session\<close>: the session engine.  Its state is one JSON document per
  application and device in Redis.  Event times are milliseconds, durations and the Redis
  clock nanoseconds; the differences, the product with \<open>time.Millisecond\<close> and the
  counter are \<open>int64\<close> operations.  The metrics are left out.
\<close>

definition SessionTimeout :: int where
  "SessionTimeout = 30 * 60 * 1000000000"

definition Millisecond :: int where
  "Millisecond = 1000000"

definition sessionKeyPrefix :: string where
  "sessionKeyPrefix = ''session:state:''"

record engine =
  en_timeout :: int

definition NewEngine :: engine where
  "NewEngine = \<lparr>en_timeout = SessionTimeout\<rparr>"

definition session_key :: "enriched_event \<Rightarrow> string" where
  "session_key event = sessionKeyPrefix @ ee_AppID event @ '':'' @ ee_DeviceID event"

definition open_session :: "enriched_event \<Rightarrow> session_state" where
  "open_session event =
     \<lparr>ss_SessionID = ee_AppID event @ ''-'' @ ee_DeviceID event @ ''-'' @ itoa (ee_ServerTime event),
      ss_AppID = ee_AppID event, ss_UserID = ee_UserID event, ss_DeviceID = ee_DeviceID event,
      ss_StartTimeMs = ee_ServerTime event, ss_LastEventMs = ee_ServerTime event,
      ss_EventCount = 0, ss_Screens = [], ss_EntryScreen = [], ss_UpdatedAt = 0\<rparr>"

definition buildSessionEndEvent :: "session_state \<Rightarrow> int \<Rightarrow> session_event" where
  "buildSessionEndEvent state endTimeMs =
     \<lparr>se_SessionID = ss_SessionID state, se_AppID = ss_AppID state, se_UserID = ss_UserID state,
      se_DeviceID = ss_DeviceID state, se_StartTimeMs = ss_StartTimeMs state,
      se_EndTimeMs = endTimeMs,
      se_DurationS = go_quot (i64 (endTimeMs - ss_StartTimeMs state)) 1000,
      se_EventCount = ss_EventCount state, se_Screens = Some (ss_Screens state),
      se_EntryScreen = ss_EntryScreen state,
      se_ExitScreen = (if ss_Screens state = [] then [] else last (ss_Screens state)),
      se_ExitReason = ''timeout'', se_Type = ''session_end''\<rparr>"

definition session_start_event :: "session_state \<Rightarrow> session_event" where
  "session_start_event state =
     \<lparr>se_SessionID = ss_SessionID state, se_AppID = ss_AppID state, se_UserID = ss_UserID state,
      se_DeviceID = ss_DeviceID state, se_StartTimeMs = ss_StartTimeMs state, se_EndTimeMs = 0,
      se_DurationS = 0, se_EventCount = 0, se_Screens = None, se_EntryScreen = [],
      se_ExitScreen = [], se_ExitReason = [], se_Type = ''session_start''\<rparr>"

text \<open>``Update session state'' and ``Track screen views''.\<close>

definition track_screen :: "enriched_event \<Rightarrow> session_state \<Rightarrow> session_state" where
  "track_screen event state =
     (if ee_EventName event = ''screen_view'' \<or> ee_EventName event = ''page_view'' then
        (case prop_string (ee_Props event) ''screen_name'' of
           Some screenName \<Rightarrow>
             if screenName = [] then state
             else state\<lparr>ss_Screens := ss_Screens state @ [screenName],
                  ss_EntryScreen := (if ss_EntryScreen state = [] then screenName
                                     else ss_EntryScreen state)\<rparr>
         | None \<Rightarrow> state)
      else state)"

definition touch_session :: "enriched_event \<Rightarrow> session_state \<Rightarrow> session_state" where
  "touch_session event state =
     track_screen event (state\<lparr>ss_LastEventMs := ee_ServerTime event,
       ss_EventCount := i64 (ss_EventCount state + 1),
       ss_UserID := (if ss_UserID state = [] \<and> ee_UserID event \<noteq> [] then ee_UserID event
                     else ss_UserID state)\<rparr>)"

definition inactiveDuration :: "session_state \<Rightarrow> int \<Rightarrow> int" where
  "inactiveDuration state now = i64 (i64 (now - ss_LastEventMs state) * Millisecond)"

text \<open>The state of the current session after the checks for a new and an expired one,
  and the synthetic events.\<close>

definition session_open :: "engine \<Rightarrow> enriched_event \<Rightarrow> session_state option \<Rightarrow> session_state \<times> session_event list" where
  "session_open e event loaded =
     (let now = ee_ServerTime event; fresh = open_session event in
      case loaded of
        None \<Rightarrow> (fresh, [session_start_event fresh])
      | Some state \<Rightarrow>
          if inactiveDuration state now > en_timeout e then
            (fresh, [buildSessionEndEvent state (i64 (now - 1)), session_start_event fresh])
          else (state, []))"

definition loadSession ::
  "('s, json) redis \<Rightarrow> 's \<Rightarrow> int \<Rightarrow> string \<Rightarrow> session_state option \<times> bool \<times> go_error option" where
  "loadSession R s clock key =
     (case redis_GetJSON R decode_session_state s clock key of
        Inl err \<Rightarrow> if redis_IsNotFound err then (None, True, None) else (None, True, None)
      | Inr state \<Rightarrow> (Some state, False, None))"

definition saveSession ::
  "('s, json) redis \<Rightarrow> 's \<Rightarrow> int \<Rightarrow> string \<Rightarrow> session_state \<Rightarrow> int \<Rightarrow> go_error option \<times> 's" where
  "saveSession R s clock key state ttl =
     (case encode_session_state state of
        None \<Rightarrow> (Some (Errorf ''json''), s)
      | Some data \<Rightarrow> redis_Set R s clock key data ttl)"

type_synonym session_result = "enriched_event \<times> session_event list \<times> go_error option"

definition session_Process ::
  "('s, json) redis \<Rightarrow> engine \<Rightarrow> int \<Rightarrow> enriched_event \<Rightarrow> 's \<Rightarrow> session_result \<times> 's" where
  "session_Process R e clock event s =
     (let key = session_key event in
      case loadSession R s clock key of
        (_, _, Some err) \<Rightarrow> ((event, [], Some (Errorf ''load session'')), s)
      | (loaded, _, None) \<Rightarrow>
          (let (state, sessionEvts) = session_open e event loaded;
               state' = touch_session event state;
               (_, s') = saveSession R s clock key state' (en_timeout e + 5 * 60 * 1000000000)
           in ((event\<lparr>ee_SessionID := ss_SessionID state'\<rparr>, sessionEvts, None), s')))"

text \<open>A stream of events, each with the Redis clock at which it is processed.\<close>

fun session_stream ::
  "('s, json) redis \<Rightarrow> engine \<Rightarrow> (int \<times> enriched_event) list \<Rightarrow> 's \<Rightarrow> session_result list \<times> 's" where
  "session_stream R e [] s = ([], s)"
| "session_stream R e ((clock, event) # es) s =
     (let (r, s1) = session_Process R e clock event s; (rs, s2) = session_stream R e es s1
      in (r # rs, s2))"

section \<open>One step over the stored state\<close>

text \<open>Server times the arithmetic holds: up to the year 2248.\<close>

definition valid_ms :: "int \<Rightarrow> bool" where
  "valid_ms t \<longleftrightarrow> 0 \<le> t \<and> t < 2 ^ 43"

definition redis_up :: "('s, 'v) redis \<Rightarrow> bool" where
  "redis_up R \<longleftrightarrow> (\<forall>s t k v ttl. fst (raw_Set R s t k v ttl) = None)"

text \<open>A session as the engine stores it, at most \<open>n\<close> events old.\<close>

definition wf_session :: "int \<Rightarrow> session_state \<Rightarrow> bool" where
  "wf_session n st \<longleftrightarrow> valid_ms (ss_StartTimeMs st) \<and> valid_ms (ss_LastEventMs st)
     \<and> ss_StartTimeMs st \<le> ss_LastEventMs st \<and> 0 \<le> ss_EventCount st \<and> ss_EventCount st \<le> n
     \<and> ss_UpdatedAt st = 0 \<and> ss_EntryScreen st = (case ss_Screens st of [] \<Rightarrow> [] | x # _ \<Rightarrow> x)
     \<and> list_all (\<lambda>x. x \<noteq> []) (ss_Screens st)"

text \<open>\<open>key\<close> holds \<open>st\<close> until \<open>expiry\<close>.\<close>

definition holds_until :: "('s, json) redis \<Rightarrow> 's \<Rightarrow> int \<Rightarrow> string \<Rightarrow> session_state \<Rightarrow> int \<Rightarrow> bool" where
  "holds_until R s from key st expiry \<longleftrightarrow>
     (\<forall>t \<ge> from. loadSession R s t key =
        (if t < expiry then (Some st, False, None) else (None, True, None)))"

lemma in_i64_small: "- (2 ^ 43) \<le> x \<Longrightarrow> x \<le> 2 ^ 43 \<Longrightarrow> in_i64 x"
  by (simp add: in_i64_def)

lemma wf_session_wf_state: "wf_session n st \<Longrightarrow> n < 2 ^ 43 \<Longrightarrow> wf_session_state st"
  by (auto simp: wf_session_def wf_session_state_def valid_ms_def intro!: in_i64_small)

lemma inactive_exact:
  assumes "wf_session n st" "valid_ms now"
  shows "inactiveDuration st now = (now - ss_LastEventMs st) * 1000000"
proof -
  have "in_i64 (now - ss_LastEventMs st)" "in_i64 ((now - ss_LastEventMs st) * 1000000)"
    using assms by (simp_all add: wf_session_def valid_ms_def in_i64_def)
  then show ?thesis by (simp add: inactiveDuration_def Millisecond_def)
qed

lemma touch_wf:
  assumes "wf_session n st" "valid_ms (ee_ServerTime ev)" "ss_StartTimeMs st \<le> ee_ServerTime ev" "n < 2 ^ 43"
  shows "wf_session (n + 1) (touch_session ev st)"
    "ss_EventCount (touch_session ev st) = ss_EventCount st + 1"
proof -
  have "i64 (ss_EventCount st + 1) = ss_EventCount st + 1"
    using assms by (intro i64_id in_i64_small) (simp_all add: wf_session_def)
  then show "wf_session (n + 1) (touch_session ev st)"
    "ss_EventCount (touch_session ev st) = ss_EventCount st + 1"
    using assms
    by (auto simp: wf_session_def touch_session_def track_screen_def valid_ms_def
        split: option.splits list.splits)
qed

lemma touch_simps [simp]:
  "ss_SessionID (touch_session ev st) = ss_SessionID st"
  "ss_StartTimeMs (touch_session ev st) = ss_StartTimeMs st"
  "ss_LastEventMs (touch_session ev st) = ee_ServerTime ev"
  by (simp_all add: touch_session_def track_screen_def split: option.splits)

lemma open_wf: "valid_ms (ee_ServerTime ev) \<Longrightarrow> wf_session 0 (open_session ev)"
  by (simp add: wf_session_def open_session_def)

lemma save_holds:
  assumes "redis_kv R" "redis_up R" "wf_session_state st"
  shows "holds_until R (snd (saveSession R s clock key st ttl)) clock key st (clock + ttl)"
proof -
  obtain v where v: "encode_session_state st = Some v" "decode_session_state v = Some st"
    using session_state_roundtrip [OF assms(3)] by blast
  obtain s' where s': "raw_Set R s clock key v ttl = (None, s')"
    using assms(2) by (metis prod.collapse redis_up_def)
  then have "raw_Get R s' t key = (if t < clock + ttl then Inr v else Inl ErrNotFound)" if "clock \<le> t" for t
    using assms(1) that unfolding redis_kv_def by metis
  then show ?thesis
    using v s' by (simp add: holds_until_def saveSession_def redis_Set_def loadSession_def
        redis_GetJSON_def)
qed

abbreviation session_ttl :: "engine \<Rightarrow> int" where
  "session_ttl e \<equiv> en_timeout e + 5 * 60 * 1000000000"

lemma Process_eq:
  assumes "loadSession R s clock (session_key event) = (loaded, isNew, None)"
  shows "session_Process R e clock event s =
    ((event\<lparr>ee_SessionID := ss_SessionID (fst (session_open e event loaded))\<rparr>,
      snd (session_open e event loaded), None),
     snd (saveSession R s clock (session_key event)
        (touch_session event (fst (session_open e event loaded))) (session_ttl e)))"
  using assms by (simp add: session_Process_def Let_def split_def)

lemma loadSession_no_error: "\<exists>loaded b. loadSession R s clock key = (loaded, b, None)"
  by (auto simp: loadSession_def split: sum.splits)

text \<open>The engine leaves the sessions of other keys alone.\<close>

lemma Process_other_key:
  assumes "redis_kv R" "redis_up R" "key \<noteq> session_key event" "holds_until R s from key st expiry" "from \<le> clock"
  shows "holds_until R (snd (session_Process R e clock event s)) clock key st expiry"
proof -
  obtain loaded b where load: "loadSession R s clock (session_key event) = (loaded, b, None)"
    using loadSession_no_error [of R s clock "session_key event"] by blast
  have "loadSession R (snd (saveSession R s clock (session_key event) st' ttl)) t key = loadSession R s t key"
    if "clock \<le> t" for st' ttl t
  proof -
    obtain v where v: "encode_session_state st' = Some v" by (simp add: encode_session_state_def)
    obtain s' where s': "raw_Set R s clock (session_key event) v ttl = (None, s')"
      using assms(2) by (metis prod.collapse redis_up_def)
    then have "raw_Get R s' t key = raw_Get R s t key"
      using assms(1,3) that unfolding redis_kv_def by metis
    then show ?thesis
      using v s' by (simp add: saveSession_def redis_Set_def loadSession_def redis_GetJSON_def)
  qed
  then show ?thesis
    using assms(4,5) by (auto simp: holds_until_def Process_eq [OF load])
qed

section \<open>Properties\<close>

lemma Process_step:
  fixes e :: engine
  assumes "redis_kv R" "redis_up R" "n + 1 < 2 ^ 43"
    and "loadSession R s clock (session_key ev) = (loaded, isNew, None)"
    and "case loaded of None \<Rightarrow> True | Some st \<Rightarrow> wf_session n st \<and> ss_LastEventMs st \<le> ee_ServerTime ev"
    and "valid_ms (ee_ServerTime ev)" "0 \<le> n"
  defines "st' \<equiv> touch_session ev (fst (session_open e ev loaded))"
  shows "wf_session (n + 1) st'"
    "holds_until R (snd (session_Process R e clock ev s)) clock (session_key ev) st' (clock + session_ttl e)"
proof -
  have fresh: "wf_session n (open_session ev)"
    using open_wf [OF assms(6)] assms(7) by (auto simp: wf_session_def)
  have "wf_session n (fst (session_open e ev loaded))
      \<and> ss_StartTimeMs (fst (session_open e ev loaded)) \<le> ee_ServerTime ev"
    using fresh assms(5)
    by (auto simp: session_open_def Let_def open_session_def wf_session_def split: option.splits)
  then show wf: "wf_session (n + 1) st'"
    using touch_wf(1) assms(3,6) by (simp add: st'_def)
  show "holds_until R (snd (session_Process R e clock ev s)) clock (session_key ev) st' (clock + session_ttl e)"
    using save_holds [OF assms(1,2) wf_session_wf_state [OF wf assms(3)]]
    by (simp add: Process_eq [OF assms(4)] st'_def)
qed

lemma session_open_continue:
  assumes "wf_session n st" "valid_ms (ee_ServerTime ev)"
    "ee_ServerTime ev - ss_LastEventMs st \<le> 1800000"
  shows "session_open NewEngine ev (Some st) = (st, [])"
  using assms(3) inactive_exact [OF assms(1,2)]
  by (simp add: session_open_def NewEngine_def SessionTimeout_def)

lemma session_open_expired:
  assumes "wf_session n st" "valid_ms (ee_ServerTime ev)"
    "1800000 < ee_ServerTime ev - ss_LastEventMs st"
  shows "session_open NewEngine ev (Some st) =
    (open_session ev, [buildSessionEndEvent st (ee_ServerTime ev - 1), session_start_event (open_session ev)])"
proof -
  have "i64 (ee_ServerTime ev - 1) = ee_ServerTime ev - 1"
    using assms(2) by (intro i64_id in_i64_small) (simp_all add: valid_ms_def)
  then show ?thesis
    using assms(3) inactive_exact [OF assms(1,2)]
    by (simp add: session_open_def NewEngine_def SessionTimeout_def Let_def)
qed

text \<open>Events of one device, in order, each within the timeout of the one before; the clock
  Redis runs on advances with them.\<close>

fun steady :: "int \<Rightarrow> int \<Rightarrow> string \<Rightarrow> (int \<times> enriched_event) list \<Rightarrow> bool" where
  "steady clock t key [] = True"
| "steady clock t key ((clock', ev) # es) =
     (session_key ev = key \<and> valid_ms (ee_ServerTime ev) \<and> t \<le> ee_ServerTime ev
      \<and> ee_ServerTime ev - t \<le> 1800000 \<and> clock \<le> clock' \<and> clock' - clock < 2100000000000
      \<and> steady clock' (ee_ServerTime ev) key es)"

lemma steady_continues:
  assumes kv: "redis_kv R" and up: "redis_up R"
  shows "steady clock (ss_LastEventMs st) key es \<Longrightarrow> wf_session n st \<Longrightarrow> 0 \<le> n \<Longrightarrow>
     n + int (length es) < 2 ^ 43 \<Longrightarrow>
     holds_until R s clock key st (clock + session_ttl NewEngine) \<Longrightarrow>
     map (\<lambda>(ev, evts, err). (ee_SessionID ev, evts, err)) (fst (session_stream R NewEngine es s))
       = map (\<lambda>_. (ss_SessionID st, [], None)) es
   \<and> (\<exists>st' clock'. ss_SessionID st' = ss_SessionID st
        \<and> ss_EventCount st' = ss_EventCount st + int (length es)
        \<and> holds_until R (snd (session_stream R NewEngine es s)) clock' key st' (clock' + session_ttl NewEngine))"
proof (induction es arbitrary: clock st n s)
  case Nil
  then show ?case by auto
next
  case (Cons p es)
  obtain clock' ev where p: "p = (clock', ev)" by (cases p)
  note prems = Cons.prems [unfolded p, simplified]
  have load: "loadSession R s clock' (session_key ev) = (Some st, False, None)"
    using Cons.prems(5) prems(1) by (simp add: holds_until_def NewEngine_def SessionTimeout_def)
  have cont: "session_open NewEngine ev (Some st) = (st, [])"
    using session_open_continue [OF Cons.prems(2)] prems(1) by simp
  define s1 where "s1 = snd (session_Process R NewEngine clock' ev s)"
  define st1 where "st1 = touch_session ev st"
  have step: "wf_session (n + 1) st1"
    "holds_until R s1 clock' key st1 (clock' + session_ttl NewEngine)"
    using Process_step [OF kv up _ load, of n NewEngine] Cons.prems prems(1)
    by (simp_all add: cont s1_def st1_def p)
  have count: "ss_EventCount st1 = ss_EventCount st + 1"
    using touch_wf(2) [OF Cons.prems(2)] Cons.prems prems(1)
    by (simp add: st1_def wf_session_def p)
  have "steady clock' (ss_LastEventMs st1) key es" using prems(1) by (simp add: st1_def)
  from Cons.IH [OF this step(1) _ _ step(2)] Cons.prems(3,4)
  have IH: "map (\<lambda>(ev, evts, err). (ee_SessionID ev, evts, err)) (fst (session_stream R NewEngine es s1))
       = map (\<lambda>_. (ss_SessionID st1, [], None)) es
   \<and> (\<exists>st' clock'. ss_SessionID st' = ss_SessionID st1
        \<and> ss_EventCount st' = ss_EventCount st1 + int (length es)
        \<and> holds_until R (snd (session_stream R NewEngine es s1)) clock' key st' (clock' + session_ttl NewEngine))"
    by simp
  have head: "fst (session_Process R NewEngine clock' ev s) = (ev\<lparr>ee_SessionID := ss_SessionID st\<rparr>, [], None)"
    by (simp add: Process_eq [OF load] cont)
  have unroll: "fst (session_stream R NewEngine (p # es) s)
      = (ev\<lparr>ee_SessionID := ss_SessionID st\<rparr>, [], None) # fst (session_stream R NewEngine es s1)"
    "snd (session_stream R NewEngine (p # es) s) = snd (session_stream R NewEngine es s1)"
    using head by (simp_all add: p s1_def split_def Let_def)
  show ?case
    unfolding unroll using IH count
    by (simp add: st1_def algebra_simps)
qed

text \<open>C8: a device's events that follow each other within thirty minutes form one
  session: they all get the id of the first one, the only synthetic event is the one
  \<open>session_start\<close>, and the stored session counts them all.\<close>

theorem session_one:
  assumes "redis_kv R" "redis_up R" "valid_ms (ee_ServerTime ev)" "length es < 2 ^ 42"
    "loadSession R s clock (session_key ev) = (None, True, None)"
    "steady clock (ee_ServerTime ev) (session_key ev) es"
  shows "map (\<lambda>(ev, evts, err). (ee_SessionID ev, evts, err)) (fst (session_stream R NewEngine ((clock, ev) # es) s))
     = (ss_SessionID (open_session ev), [session_start_event (open_session ev)], None)
       # map (\<lambda>_. (ss_SessionID (open_session ev), [], None)) es
   \<and> (\<exists>st clock'. ss_SessionID st = ss_SessionID (open_session ev)
        \<and> ss_EventCount st = 1 + int (length es)
        \<and> holds_until R (snd (session_stream R NewEngine ((clock, ev) # es) s)) clock' (session_key ev) st
             (clock' + session_ttl NewEngine))"
proof -
  define st where "st = touch_session ev (open_session ev)"
  define s1 where "s1 = snd (session_Process R NewEngine clock ev s)"
  have op: "session_open NewEngine ev None = (open_session ev, [session_start_event (open_session ev)])"
    by (simp add: session_open_def Let_def)
  have step: "wf_session 1 st"
    "holds_until R s1 clock (session_key ev) st (clock + session_ttl NewEngine)"
    using Process_step [OF assms(1,2) _ assms(5), of 0 NewEngine] assms(3)
    by (simp_all add: op st_def s1_def)
  have count: "ss_EventCount st = 1"
    using touch_wf(2) [OF open_wf [OF assms(3)] assms(3)] by (simp add: st_def open_session_def)
  have "steady clock (ss_LastEventMs st) (session_key ev) es" using assms(6) by (simp add: st_def)
  moreover have "1 + int (length es) < 2 ^ 43" using assms(4) by (simp add: nat_less_real_le)
  ultimately have tail:
    "map (\<lambda>(ev, evts, err). (ee_SessionID ev, evts, err)) (fst (session_stream R NewEngine es s1))
       = map (\<lambda>_. (ss_SessionID st, [], None)) es
   \<and> (\<exists>st' clock'. ss_SessionID st' = ss_SessionID st
        \<and> ss_EventCount st' = ss_EventCount st + int (length es)
        \<and> holds_until R (snd (session_stream R NewEngine es s1)) clock' (session_key ev) st' (clock' + session_ttl NewEngine))"
    using steady_continues [OF assms(1,2) _ step(1) _ _ step(2)] by simp
  have head: "fst (session_Process R NewEngine clock ev s) =
      (ev\<lparr>ee_SessionID := ss_SessionID (open_session ev)\<rparr>, [session_start_event (open_session ev)], None)"
    by (simp add: Process_eq [OF assms(5)] op)
  have unroll: "fst (session_stream R NewEngine ((clock, ev) # es) s)
      = (ev\<lparr>ee_SessionID := ss_SessionID (open_session ev)\<rparr>, [session_start_event (open_session ev)], None)
        # fst (session_stream R NewEngine es s1)"
    "snd (session_stream R NewEngine ((clock, ev) # es) s) = snd (session_stream R NewEngine es s1)"
    using head by (simp_all add: s1_def split_def Let_def)
  show ?thesis
    unfolding unroll using tail count by (simp add: st_def)
qed

theorem session_one_witness:
  "map (\<lambda>(ev, evts, err). (ee_SessionID ev, evts, err)) (fst (session_stream mem_redis NewEngine
      [(0, zero_enriched\<lparr>ee_ServerTime := 7\<rparr>), (1000, zero_enriched\<lparr>ee_ServerTime := 1800007\<rparr>)] mem_empty))
   = [(''--7'', [session_start_event (open_session (zero_enriched\<lparr>ee_ServerTime := 7\<rparr>))], None),
      (''--7'', [], None)]"
proof -
  define ev where "ev = zero_enriched\<lparr>ee_ServerTime := 7\<rparr>"
  define es where "es = [(1000 :: int, zero_enriched\<lparr>ee_ServerTime := 1800007\<rparr>)]"
  have seven: "itoa 7 = ''7''" by code_simp
  have up: "redis_up (mem_redis :: (json mem, json) redis)"
    by (simp add: redis_up_def mem_redis_def)
  have "loadSession mem_redis mem_empty 0 (session_key ev) = (None, True, None)"
    by (simp add: loadSession_def redis_GetJSON_def mem_redis_def mem_get_def mem_empty_def)
  moreover have "steady 0 (ee_ServerTime ev) (session_key ev) es"
    by (simp add: ev_def es_def session_key_def zero_enriched_def valid_ms_def)
  ultimately show ?thesis
    using session_one [OF mem_redis_kv up, of ev es mem_empty 0]
    unfolding ev_def [symmetric] es_def
    by (simp add: valid_ms_def) (simp add: ev_def zero_enriched_def open_session_def seven)
qed

text \<open>The timeout: while Redis still holds a device's session, an event within
  thirty minutes of the last one continues it and an event after a longer gap closes it,
  with its duration in seconds and its number of events, and opens a new one, in that
  order.\<close>

theorem session_gap:
  assumes "redis_kv R" "redis_up R" "wf_session n st" "n < 2 ^ 42" "valid_ms (ee_ServerTime ev)"
    "ss_LastEventMs st \<le> ee_ServerTime ev"
    "holds_until R s from (session_key ev) st expiry" "from \<le> clock" "clock < expiry"
  defines "gap \<equiv> ee_ServerTime ev - ss_LastEventMs st"
  shows "(case fst (session_Process R NewEngine clock ev s) of (ev', evts, err) \<Rightarrow>
     if gap \<le> 1800000 then ee_SessionID ev' = ss_SessionID st \<and> evts = [] \<and> err = None
     else ee_SessionID ev' = ss_SessionID (open_session ev) \<and> err = None
       \<and> map (\<lambda>x. (se_Type x, se_SessionID x, se_DurationS x, se_EventCount x)) evts =
          [(''session_end'', ss_SessionID st, (ee_ServerTime ev - 1 - ss_StartTimeMs st) div 1000, ss_EventCount st),
           (''session_start'', ss_SessionID (open_session ev), 0, 0)])"
proof -
  have load: "loadSession R s clock (session_key ev) = (Some st, False, None)"
    using assms(7-9) by (simp add: holds_until_def)
  show ?thesis
  proof (cases "gap \<le> 1800000")
    case True
    then show ?thesis
      using session_open_continue [OF assms(3,5)] by (simp add: gap_def Process_eq [OF load])
  next
    case False
    then have ev: "1800000 < ee_ServerTime ev - ss_LastEventMs st" by (simp add: gap_def)
    have pos: "0 \<le> ee_ServerTime ev - 1 - ss_StartTimeMs st" "in_i64 (ee_ServerTime ev - 1 - ss_StartTimeMs st)"
      using ev assms(3,5) by (auto simp: wf_session_def valid_ms_def in_i64_def)
    from False pos show ?thesis
      by (simp add: Process_eq [OF load] session_open_expired [OF assms(3,5) ev]
          buildSessionEndEvent_def session_start_event_def)
  qed
qed

lemma mem_redis_up: "redis_up (mem_redis :: ('v mem, 'v) redis)"
  by (simp add: redis_up_def mem_redis_def)

theorem session_gap_witness:
  "map se_Type (fst (snd (fst (session_Process mem_redis NewEngine 1
     (zero_enriched\<lparr>ee_ServerTime := 1800008\<rparr>)
     (snd (saveSession mem_redis mem_empty 0 ''session:state::''
        (open_session (zero_enriched\<lparr>ee_ServerTime := 7\<rparr>)) 5))))))
   = [''session_end'', ''session_start'']"
proof -
  define st where "st = open_session (zero_enriched\<lparr>ee_ServerTime := 7\<rparr>)"
  define ev where "ev = zero_enriched\<lparr>ee_ServerTime := 1800008\<rparr>"
  have key: "session_key ev = ''session:state::''"
    by (simp add: ev_def session_key_def zero_enriched_def sessionKeyPrefix_def)
  have wf: "wf_session 0 st" unfolding st_def by (rule open_wf) (simp add: valid_ms_def)
  then have hold: "holds_until mem_redis (snd (saveSession mem_redis mem_empty 0 ''session:state::'' st 5)) 0
      (session_key ev) st 5"
    using save_holds [OF mem_redis_kv mem_redis_up wf_session_wf_state [OF wf], of mem_empty 0 "''session:state::''" 5]
    by (simp add: key)
  show ?thesis
    using session_gap [OF mem_redis_kv mem_redis_up wf _ _ _ hold, of 1]
    unfolding st_def [symmetric] ev_def [symmetric]
    by (auto simp: valid_ms_def st_def ev_def open_session_def split: prod.splits)
qed

text \<open>A session whose device stays silent for the thirty-five minutes the state lives
  in Redis is never closed: the next event finds no state, opens a new session and emits no
  \<open>session_end\<close> for the old one.\<close>

theorem session_end_lost:
  assumes "holds_until R s from (session_key ev) st expiry" "from \<le> clock" "expiry \<le> clock"
  shows "fst (snd (fst (session_Process R NewEngine clock ev s))) = [session_start_event (open_session ev)]"
proof -
  have load: "loadSession R s clock (session_key ev) = (None, True, None)"
    using assms by (simp add: holds_until_def)
  show ?thesis by (simp add: Process_eq [OF load] session_open_def Let_def)
qed

theorem session_end_lost_witness:
  "fst (snd (fst (session_Process mem_redis NewEngine 2100000000000
     (zero_enriched\<lparr>ee_ServerTime := 2100007\<rparr>)
     (snd (saveSession mem_redis mem_empty 0 ''session:state::''
        (open_session (zero_enriched\<lparr>ee_ServerTime := 7\<rparr>)) (session_ttl NewEngine))))))
   = [session_start_event (open_session (zero_enriched\<lparr>ee_ServerTime := 2100007\<rparr>))]"
proof -
  define st where "st = open_session (zero_enriched\<lparr>ee_ServerTime := 7\<rparr>)"
  have wf: "wf_session 0 st" unfolding st_def by (rule open_wf) (simp add: valid_ms_def)
  have key: "session_key (zero_enriched\<lparr>ee_ServerTime := 2100007\<rparr>) = ''session:state::''"
    by (simp add: session_key_def zero_enriched_def sessionKeyPrefix_def)
  show ?thesis
    unfolding st_def [symmetric]
    using save_holds [OF mem_redis_kv mem_redis_up wf_session_wf_state [OF wf], of mem_empty 0
        "''session:state::''" "session_ttl NewEngine"]
    by (intro session_end_lost [of mem_redis _ 0 _ st "session_ttl NewEngine"])
      (simp_all add: key NewEngine_def SessionTimeout_def)
qed

end
