(* ===== verification/Funnel.thy ===== *)
theory Funnel
  imports Redis Models
begin

text \<open>
  Package \<open>internal/funnel\<close>: per-user funnel tracking over a Redis sorted set whose
  members are step numbers and whose scores are the times (milliseconds) of the steps.
  Scores are numbers here, so \<open>FormatFloat\<close> and the server's parsing cancel out.
  Logging and metrics are left out.
\<close>

definition funnelKeyPrefix :: string where
  "funnelKeyPrefix = ''funnel:state:''"

definition stateEvictTTL :: int where
  "stateEvictTTL = 8 * 24 * 3600 * 1000000000"

record conversion_event =
  cv_FunnelID :: string
  cv_AppID :: string
  cv_UserID :: string
  cv_StepsComplete :: nat
  cv_TotalSteps :: nat
  cv_Converted :: bool
  cv_DurationMs :: int
  cv_ConvertedAt :: int

record processor =
  fp_funnels :: "funnel_definition list"

definition NewProcessor :: "funnel_definition list \<Rightarrow> processor" where
  "NewProcessor funnels = \<lparr>fp_funnels = funnels\<rparr>"

definition UpdateFunnels :: "funnel_definition list \<Rightarrow> processor \<Rightarrow> processor" where
  "UpdateFunnels funnels p = p\<lparr>fp_funnels := funnels\<rparr>"

text \<open>The first step the event name matches.\<close>

fun find_step :: "nat \<Rightarrow> string list \<Rightarrow> string \<Rightarrow> nat option" where
  "find_step i [] name = None"
| "find_step i (step # steps) name = (if step = name then Some i else find_step (Suc i) steps name)"

definition funnel_key :: "funnel_definition \<Rightarrow> enriched_event \<Rightarrow> string" where
  "funnel_key funnel event = funnelKeyPrefix @ fd_AppID funnel @ '':'' @ fd_FunnelID funnel @ '':'' @ ee_UserID event"

text \<open>\<open>strconv.ParseFloat\<close> on a member; the members are decimal step numbers.\<close>

definition ParseFloat :: "string \<Rightarrow> f64" where
  "ParseFloat s = (case atoi s of Some i \<Rightarrow> of_int i | None \<Rightarrow> 0)"

text \<open>The loop over the steps: \<open>None\<close> is the early return, otherwise the time of the
  first step.\<close>

fun check_steps ::
  "('s, 'v) redis \<Rightarrow> 's \<Rightarrow> int \<Rightarrow> string \<Rightarrow> f64 \<Rightarrow> f64 \<Rightarrow> nat \<Rightarrow> nat \<Rightarrow> f64 \<Rightarrow> f64 option" where
  "check_steps R s clock key windowMin windowMax i 0 firstStepTs = Some firstStepTs"
| "check_steps R s clock key windowMin windowMax i (Suc rest) firstStepTs =
     (case redis_ZRangeByScore R s clock key windowMin windowMax (Some 1) of
        Inl _ \<Rightarrow> None
      | Inr [] \<Rightarrow> None
      | Inr (_ # _) \<Rightarrow>
          check_steps R s clock key windowMin windowMax (Suc i) rest
            (if i = 0 then
               (case redis_ZRangeByScore R s clock key windowMin windowMax None of
                  Inr (m # _) \<Rightarrow> ParseFloat m
                | _ \<Rightarrow> firstStepTs)
             else firstStepTs))"

definition conversion :: "enriched_event \<Rightarrow> funnel_definition \<Rightarrow> f64 \<Rightarrow> conversion_event" where
  "conversion event funnel firstStepTs =
     (let durationMs = i64 (ee_ServerTime event - \<lfloor>firstStepTs\<rfloor>)
      in \<lparr>cv_FunnelID = fd_FunnelID funnel, cv_AppID = ee_AppID event, cv_UserID = ee_UserID event,
          cv_StepsComplete = length (fd_Steps funnel), cv_TotalSteps = length (fd_Steps funnel),
          cv_Converted = True, cv_DurationMs = (if durationMs < 0 then 0 else durationMs),
          cv_ConvertedAt = ee_ServerTime event\<rparr>)"

definition processForFunnel ::
  "('s, 'v) redis \<Rightarrow> int \<Rightarrow> enriched_event \<Rightarrow> funnel_definition \<Rightarrow> 's \<Rightarrow>
   (go_error + conversion_event option) \<times> 's" where
  "processForFunnel R clock event funnel s =
     (case find_step 0 (fd_Steps funnel) (ee_EventName event) of
        None \<Rightarrow> (Inr None, s)
      | Some stepIdx \<Rightarrow>
          (let key = funnel_key funnel event; score = of_int (ee_ServerTime event) in
           case redis_ZAdd R s clock key score (itoa (int stepIdx)) of
             (Some err, s1) \<Rightarrow> (Inl (Errorf ''zadd''), s1)
           | (None, s1) \<Rightarrow>
               (let (_, s2) = redis_Expire R s1 clock key stateEvictTTL in
                if int stepIdx < int (length (fd_Steps funnel)) - 1 then (Inr None, s2)
                else
                  (let windowMs = i64 (fd_WindowSeconds funnel * 1000) in
                   case check_steps R s2 clock key (score - of_int windowMs) score 0
                          (length (fd_Steps funnel)) 0 of
                     None \<Rightarrow> (Inr None, s2)
                   | Some firstStepTs \<Rightarrow>
                       (let (_, s3) = redis_Del R s2 clock key
                        in (Inr (Some (conversion event funnel firstStepTs)), s3))))))"

fun process_funnels ::
  "('s, 'v) redis \<Rightarrow> int \<Rightarrow> enriched_event \<Rightarrow> funnel_definition list \<Rightarrow> 's \<Rightarrow> conversion_event list \<times> 's" where
  "process_funnels R clock event [] s = ([], s)"
| "process_funnels R clock event (funnel # fs) s =
     (if fd_AppID funnel \<noteq> ee_AppID event then process_funnels R clock event fs s
      else (case processForFunnel R clock event funnel s of
              (Inr (Some conv), s1) \<Rightarrow>
                (let (convs, s2) = process_funnels R clock event fs s1 in (conv # convs, s2))
            | (_, s1) \<Rightarrow> process_funnels R clock event fs s1))"

definition funnel_Process ::
  "('s, 'v) redis \<Rightarrow> int \<Rightarrow> enriched_event \<Rightarrow> processor \<Rightarrow> 's \<Rightarrow> conversion_event list \<times> 's" where
  "funnel_Process R clock event p s =
     (if ee_UserID event = [] then ([], s) else process_funnels R clock event (fp_funnels p) s)"

definition PruneExpiredSteps ::
  "('s, 'v) redis \<Rightarrow> int \<Rightarrow> string \<Rightarrow> int \<Rightarrow> int \<Rightarrow> 's \<Rightarrow> go_error option \<times> 's" where
  "PruneExpiredSteps R clock key windowMs nowMs s =
     (case redis_ZRemRangeByScore R s clock key None (of_int (i64 (nowMs - windowMs))) of
        (Inl err, s') \<Rightarrow> (Some err, s')
      | (Inr _, s') \<Rightarrow> (None, s'))"

section \<open>When an event converts\<close>

definition last_step_only :: "funnel_definition \<Rightarrow> enriched_event \<Rightarrow> bool" where
  "last_step_only funnel event \<longleftrightarrow>
     fd_Steps funnel \<noteq> [] \<and> last (fd_Steps funnel) = ee_EventName event
     \<and> ee_EventName event \<notin> set (butlast (fd_Steps funnel))"

lemma find_step_last:
  "(case find_step i steps name of None \<Rightarrow> False | Some k \<Rightarrow> i + length steps - 1 \<le> k) \<longleftrightarrow>
   steps \<noteq> [] \<and> last steps = name \<and> name \<notin> set (butlast steps)"
proof (induction steps arbitrary: i)
  case (Cons step steps)
  show ?case
    using Cons.IH [of "Suc i"]
    by (cases "find_step (Suc i) steps name"; cases "steps = []") auto
qed simp

lemma find_step_range: "find_step i steps name = Some k \<Longrightarrow> i \<le> k \<and> k < i + length steps"
proof (induction steps arbitrary: i)
  case (Cons step steps)
  then show ?case using Cons.IH [of "Suc i"] by (fastforce split: if_splits)
qed simp

lemma check_steps_found:
  assumes "raw_ZRangeByScore R s clock key lo hi (Some 1) = Inr ms" "ms \<noteq> []"
  shows "\<exists>t. check_steps R s clock key lo hi i n ts = Some t"
  using assms
  by (induction n arbitrary: i ts) (auto simp: redis_ZRangeByScore_def neq_Nil_conv)

definition zadd_up :: "('s, 'v) redis \<Rightarrow> bool" where
  "zadd_up R \<longleftrightarrow> (\<forall>s t k sc m. fst (raw_ZAdd R s t k sc m) = None)"

definition wf_funnel :: "funnel_definition \<Rightarrow> bool" where
  "wf_funnel f \<longleftrightarrow> 0 \<le> fd_WindowSeconds f \<and> fd_WindowSeconds f < 2 ^ 50"

lemma processForFunnel_converts:
  assumes "redis_zset R" "zadd_up R" "wf_funnel funnel"
  shows "case fst (processForFunnel R clock event funnel s) of
      Inl err \<Rightarrow> False
    | Inr None \<Rightarrow> \<not> last_step_only funnel event
    | Inr (Some conv) \<Rightarrow> last_step_only funnel event \<and> cv_FunnelID conv = fd_FunnelID funnel
        \<and> cv_StepsComplete conv = length (fd_Steps funnel)"
proof (cases "find_step 0 (fd_Steps funnel) (ee_EventName event)")
  case None
  then show ?thesis
    using find_step_last [of 0 "fd_Steps funnel" "ee_EventName event"]
    by (simp add: processForFunnel_def last_step_only_def)
next
  case (Some k)
  note k = Some
  define key where "key = funnel_key funnel event"
  define score :: f64 where "score = of_int (ee_ServerTime event)"
  define windowMs where "windowMs = i64 (fd_WindowSeconds funnel * 1000)"
  obtain s1 where s1: "raw_ZAdd R s clock key score (itoa (int k)) = (None, s1)"
    using assms(2) by (metis prod.collapse zadd_up_def)
  define s2 where "s2 = snd (raw_Expire R s1 clock key stateEvictTTL)"
  have "0 \<le> windowMs"
    using assms(3) by (simp add: windowMs_def wf_funnel_def in_i64_def)
  then have "score - of_int windowMs \<le> score" by simp
  then obtain ms where "raw_ZRangeByScore R s2 clock key (score - of_int windowMs) score (Some 1) = Inr ms" "ms \<noteq> []"
    using assms(1) s1 unfolding redis_zset_def s2_def by (metis order_refl)
  then obtain t where t: "check_steps R s2 clock key (score - of_int windowMs) score 0
      (length (fd_Steps funnel)) 0 = Some t"
    using check_steps_found [of R s2 clock key "score - of_int windowMs" score ms 0 "length (fd_Steps funnel)" 0]
    by blast
  have pos: "0 < length (fd_Steps funnel)" "k < length (fd_Steps funnel)"
    using find_step_range [OF k] by auto
  show ?thesis
    using k s1 t pos find_step_last [of 0 "fd_Steps funnel" "ee_EventName event"]
    by (auto simp: processForFunnel_def redis_ZAdd_def redis_Expire_def redis_Del_def Let_def
        split_def key_def [symmetric] score_def [symmetric] windowMs_def [symmetric]
        s2_def [symmetric] last_step_only_def conversion_def)
qed

lemma process_funnels_converts:
  assumes "redis_zset R" "zadd_up R"
  shows "list_all wf_funnel fs \<Longrightarrow>
    map cv_FunnelID (fst (process_funnels R clock event fs s)) =
    map fd_FunnelID (filter (\<lambda>f. fd_AppID f = ee_AppID event \<and> last_step_only f event) fs)"
proof (induction fs arbitrary: s)
  case (Cons f fs)
  have "wf_funnel f" using Cons.prems by simp
  note conv = processForFunnel_converts [OF assms this, of event clock s]
  show ?case
  proof (cases "processForFunnel R clock event f s")
    case (Pair r s1)
    show ?thesis
      using Cons.IH Cons.prems conv Pair
      by (cases r) (auto simp: Let_def split_def split: option.splits)
  qed
qed simp

section \<open>Properties\<close>

text \<open>Which events convert: the loop that is to check every earlier step asks Redis
  for any member in the window and finds the step just added, so an event converts a user
  exactly in the application's funnels whose last step it names and no earlier step does,
  whether or not the user ever performed an earlier step.\<close>

theorem funnel_converts_iff:
  assumes "redis_zset R" "zadd_up R" "list_all wf_funnel funnels" "ee_UserID event \<noteq> []"
  shows "map cv_FunnelID (fst (funnel_Process R clock event (NewProcessor funnels) s)) =
    map fd_FunnelID (filter (\<lambda>f. fd_AppID f = ee_AppID event \<and> last_step_only f event) funnels)"
  using process_funnels_converts [OF assms(1-3)] assms(4)
  by (simp add: funnel_Process_def NewProcessor_def)

definition buy_funnel :: funnel_definition where
  "buy_funnel = \<lparr>fd_FunnelID = ''f'', fd_AppID = ''a'', fd_Name = ''buy'',
     fd_Steps = [''view'', ''cart'', ''pay''], fd_WindowSeconds = 60, fd_CreatedAt = 0\<rparr>"

definition user_event :: "string \<Rightarrow> enriched_event" where
  "user_event name = \<lparr>ee_EventID = [], ee_EventName = name, ee_EventTime = 0, ee_Props = None,
     ee_Device = None, ee_App = None, ee_Revenue = 0, ee_AppID = ''a'', ee_UserID = ''u'',
     ee_DeviceID = [], ee_SessionID = [], ee_ServerTime = 5, ee_ClientOffsetMs = 0,
     ee_CountryCode = [], ee_CountryName = [], ee_Region = [], ee_City = [], ee_Latitude = 0,
     ee_Longitude = 0, ee_Browser = [], ee_BrowserVersion = [], ee_OSFamily = [],
     ee_InstallSource = [], ee_CampaignID = [], ee_AdsetID = []\<rparr>"

lemma mem_redis_zadd_up: "zadd_up (mem_redis :: ('v mem, 'v) redis)"
  by (simp add: zadd_up_def mem_redis_def)

theorem funnel_converts_iff_witness:
  "map cv_FunnelID (fst (funnel_Process (mem_redis :: (nat mem, nat) redis) 0 (user_event ''pay'')
     (NewProcessor [buy_funnel]) mem_empty)) = [''f'']"
  using funnel_converts_iff [OF mem_redis_zset mem_redis_zadd_up, of "[buy_funnel]" "user_event ''pay''" 0
      "mem_empty :: nat mem"]
  by (simp add: buy_funnel_def user_event_def wf_funnel_def last_step_only_def)

end
