(* ===== verification/Writer.thy ===== *)
theory Writer
  imports Models
begin

text \<open>
  Package \<open>internal/clickhouse\<close>: the write-behind batch writer, the sharded writer and
  the connection pool.  The driver is not part of the repository: the outcome of the
  \<open>n\<close>-th flush is the parameter \<open>cl n\<close>.  A channel is the list of its buffered elements
  with a closed flag; sending on, or closing, a closed channel panics (\<open>None\<close>).

  The background goroutine is a set of steps, one per branch of its \<open>select\<close>.  Each call
  and each step is atomic here: its channel operations commute with those of the other
  side, apart from the momentary value of \<open>pending\<close> between a send and its counter
  update.  \<open>w_flushed\<close> records the batches handed to ClickHouse, in order, with their
  success; no operation reads it.
\<close>

section \<open>The writer\<close>

text \<open>The outcome of a bulk insert: the batch cannot be prepared, row \<open>i\<close> cannot be
  appended, the batch cannot be sent, or it is inserted.\<close>

datatype insert_outcome = PrepareFails | AppendFails nat | SendFails | Inserted

record writer =
  w_ch :: "ch_event list"
  w_closed :: bool
  w_done :: bool
  w_ticking :: bool
  w_bufSize :: nat
  w_pending :: int
  w_dropped :: int
  w_buf :: "ch_event list"
  w_flushed :: "(ch_event list \<times> bool) list"

definition NewWriter :: "nat \<Rightarrow> writer" where
  "NewWriter bufSize = \<lparr>w_ch = [], w_closed = False, w_done = False, w_ticking = True,
     w_bufSize = bufSize, w_pending = 0, w_dropped = 0, w_buf = [], w_flushed = []\<rparr>"

text \<open>\<open>int(float64(bufSize) * 0.8)\<close>; the product is exact enough for the floor to be that
  of \<open>4/5\<close> of any buffer that fits in memory.\<close>

definition softLimit :: "writer \<Rightarrow> nat" where
  "softLimit w = 4 * w_bufSize w div 5"

fun write_events :: "ch_event list \<Rightarrow> writer \<Rightarrow> writer" where
  "write_events [] w = w"
| "write_events (e # es) w =
     (if length (w_ch w) < w_bufSize w then
        write_events es (w\<lparr>w_ch := w_ch w @ [e], w_pending := w_pending w + 1\<rparr>)
      else write_events es (w\<lparr>w_dropped := w_dropped w + 1\<rparr>))"

definition writer_Write :: "ch_event list \<Rightarrow> writer \<Rightarrow> (go_error option \<times> writer) option" where
  "writer_Write events w =
     (if w_closed w \<and> events \<noteq> [] then None
      else Some (if w_pending w \<ge> int (softLimit w) then Some ErrBackpressure else None,
                 write_events events w))"

definition DroppedTotal :: "writer \<Rightarrow> int" where "DroppedTotal w = w_dropped w"

definition PendingCount :: "writer \<Rightarrow> int" where "PendingCount w = w_pending w"

fun append_rows :: "nat \<Rightarrow> insert_outcome \<Rightarrow> ch_event list \<Rightarrow> go_error option" where
  "append_rows i oc [] = None"
| "append_rows i oc (e # es) =
     (if oc = AppendFails i then Some (Errorf ''batch append'') else append_rows (Suc i) oc es)"

definition insertBatch :: "insert_outcome \<Rightarrow> ch_event list \<Rightarrow> go_error option" where
  "insertBatch oc events =
     (if oc = PrepareFails then Some (Errorf ''prepare batch'')
      else (case append_rows 0 oc events of
              Some e \<Rightarrow> Some e
            | None \<Rightarrow> if oc = SendFails then Some (Errorf ''send'') else None))"

definition doFlush :: "(nat \<Rightarrow> insert_outcome) \<Rightarrow> ch_event list \<Rightarrow> writer \<Rightarrow> writer" where
  "doFlush cl batch w =
     w\<lparr>w_flushed := w_flushed w @ [(batch, insertBatch (cl (length (w_flushed w))) batch = None)]\<rparr>"

text \<open>The \<open>drain\<close> loop.\<close>

fun drain :: "nat \<Rightarrow> writer \<Rightarrow> writer" where
  "drain 0 w = w"
| "drain (Suc fuel) w =
     (if length (w_buf w) < w_bufSize w then
        (case w_ch w of
           [] \<Rightarrow> w
         | e # es \<Rightarrow> drain fuel (w\<lparr>w_ch := es, w_pending := w_pending w - 1, w_buf := w_buf w @ [e]\<rparr>))
      else w)"

definition flush_if :: "(nat \<Rightarrow> insert_outcome) \<Rightarrow> bool \<Rightarrow> writer \<Rightarrow> writer" where
  "flush_if cl full w = (if full then (doFlush cl (w_buf w) w)\<lparr>w_buf := []\<rparr> else w)"

text \<open>\<open>case e, ok := <-w.ch\<close> with an event, which takes at most \<open>len(ch)\<close> turns of the
  drain loop.\<close>

definition loop_recv :: "(nat \<Rightarrow> insert_outcome) \<Rightarrow> writer \<Rightarrow> writer" where
  "loop_recv cl w =
     (case w_ch w of
        [] \<Rightarrow> w
      | e # es \<Rightarrow>
          (let w1 = w\<lparr>w_ch := es, w_pending := w_pending w - 1, w_buf := w_buf w @ [e]\<rparr>;
               w2 = drain (length es) w1
           in flush_if cl (length (w_buf w2) \<ge> w_bufSize w2) w2))"

text \<open>The channel is closed and empty.\<close>

definition loop_exit :: "(nat \<Rightarrow> insert_outcome) \<Rightarrow> writer \<Rightarrow> writer" where
  "loop_exit cl w =
     (if w_buf w \<noteq> [] then (doFlush cl (w_buf w) w)\<lparr>w_buf := []\<rparr> else w)\<lparr>w_done := True\<rparr>"

definition loop_tick :: "(nat \<Rightarrow> insert_outcome) \<Rightarrow> writer \<Rightarrow> writer" where
  "loop_tick cl w = flush_if cl (w_buf w \<noteq> []) w"

lemma drain_fields [simp]:
  "w_closed (drain n w) = w_closed w" "w_done (drain n w) = w_done w"
  "w_ticking (drain n w) = w_ticking w" "w_bufSize (drain n w) = w_bufSize w"
  "w_dropped (drain n w) = w_dropped w" "w_flushed (drain n w) = w_flushed w"
  by (induction n w rule: drain.induct) (auto split: list.splits)

lemma drain_keeps:
  "w_buf (drain n w) @ w_ch (drain n w) = w_buf w @ w_ch w"
  "length (w_ch (drain n w)) \<le> length (w_ch w)"
  "w_pending (drain n w) - int (length (w_ch (drain n w))) = w_pending w - int (length (w_ch w))"
  "length (w_buf w) \<le> max 1 (w_bufSize w) \<Longrightarrow> length (w_buf (drain n w)) \<le> max 1 (w_bufSize w)"
  by (induction n w rule: drain.induct) (auto split: list.splits)

lemma drain_nonempty: "w_buf w \<noteq> [] \<Longrightarrow> w_buf (drain n w) \<noteq> []"
  by (induction n w rule: drain.induct) (auto split: list.splits)

text \<open>The channel after \<open>close\<close>: the goroutine receives until it is empty.\<close>

function run_closed :: "(nat \<Rightarrow> insert_outcome) \<Rightarrow> writer \<Rightarrow> writer" where
  "run_closed cl w = (if w_ch w = [] then loop_exit cl w else run_closed cl (loop_recv cl w))"
  by pat_completeness auto
termination
proof (relation "measure (\<lambda>(cl, w). length (w_ch w))")
  fix cl :: "nat \<Rightarrow> insert_outcome" and w :: writer
  assume "w_ch w \<noteq> []"
  then obtain e es where w: "w_ch w = e # es" by (cases "w_ch w") auto
  have "length (w_ch (drain (length es)
      (w\<lparr>w_ch := es, w_pending := w_pending w - 1, w_buf := w_buf w @ [e]\<rparr>))) \<le> length es"
    using drain_keeps(2) [of "length es" "w\<lparr>w_ch := es, w_pending := w_pending w - 1, w_buf := w_buf w @ [e]\<rparr>"]
    by simp
  then show "((cl, loop_recv cl w), cl, w) \<in> measure (\<lambda>(cl, w). length (w_ch w))"
    by (simp add: w loop_recv_def Let_def flush_if_def doFlush_def)
qed simp

declare run_closed.simps [simp del]

definition writer_Stop :: "(nat \<Rightarrow> insert_outcome) \<Rightarrow> writer \<Rightarrow> writer option" where
  "writer_Stop cl w =
     (if w_closed w then None
      else Some (run_closed cl (w\<lparr>w_ticking := False, w_closed := True\<rparr>)))"

section \<open>Reachable states\<close>

text \<open>The states a writer can be in, with the events offered to \<open>Write\<close> and those it
  accepted, in order.\<close>

definition accepted_now :: "ch_event list \<Rightarrow> writer \<Rightarrow> ch_event list" where
  "accepted_now events w = take (w_bufSize w - length (w_ch w)) events"

inductive writer_reach :: "(nat \<Rightarrow> insert_outcome) \<Rightarrow> nat \<Rightarrow> ch_event list \<Rightarrow> ch_event list \<Rightarrow> writer \<Rightarrow> bool"
  for cl :: "nat \<Rightarrow> insert_outcome" and bufSize :: nat where
  start: "writer_reach cl bufSize [] [] (NewWriter bufSize)"
| write_step: "writer_reach cl bufSize off acc w \<Longrightarrow> writer_Write events w = Some (err, w') \<Longrightarrow>
     writer_reach cl bufSize (off @ events) (acc @ accepted_now events w) w'"
| recv_step: "writer_reach cl bufSize off acc w \<Longrightarrow> \<not> w_done w \<Longrightarrow> w_ch w \<noteq> [] \<Longrightarrow>
     writer_reach cl bufSize off acc (loop_recv cl w)"
| tick_step: "writer_reach cl bufSize off acc w \<Longrightarrow> \<not> w_done w \<Longrightarrow> w_ticking w \<Longrightarrow>
     writer_reach cl bufSize off acc (loop_tick cl w)"
| stop_step: "writer_reach cl bufSize off acc w \<Longrightarrow> writer_Stop cl w = Some w' \<Longrightarrow>
     writer_reach cl bufSize off acc w'"

definition flushed_events :: "writer \<Rightarrow> ch_event list" where
  "flushed_events w = concat (map fst (w_flushed w))"

lemma write_events_result:
  "length (w_ch w) \<le> w_bufSize w \<Longrightarrow>
   write_events es w = w\<lparr>w_ch := w_ch w @ accepted_now es w,
     w_pending := w_pending w + int (length (accepted_now es w)),
     w_dropped := w_dropped w + (int (length es) - int (length (accepted_now es w)))\<rparr>"
proof (induction es w rule: write_events.induct)
  case (2 e es w)
  show ?case
  proof (cases "length (w_ch w) < w_bufSize w")
    case True
    then have "w_bufSize w - length (w_ch w) = Suc (w_bufSize w - Suc (length (w_ch w)))" by simp
    with 2 True show ?thesis by (simp add: accepted_now_def)
  qed (use 2 in \<open>simp add: accepted_now_def\<close>)
qed (simp add: accepted_now_def)

lemma flush_if_fields [simp]:
  "w_ch (flush_if cl b w) = w_ch w" "w_closed (flush_if cl b w) = w_closed w"
  "w_done (flush_if cl b w) = w_done w" "w_bufSize (flush_if cl b w) = w_bufSize w"
  "w_pending (flush_if cl b w) = w_pending w" "w_dropped (flush_if cl b w) = w_dropped w"
  "w_ticking (flush_if cl b w) = w_ticking w"
  by (simp_all add: flush_if_def doFlush_def)

lemma flush_if_keeps:
  "flushed_events (flush_if cl b w) @ w_buf (flush_if cl b w) = flushed_events w @ w_buf w"
  by (simp add: flush_if_def doFlush_def flushed_events_def)

definition batch_ok :: "nat \<Rightarrow> ch_event list \<Rightarrow> bool" where
  "batch_ok n b \<longleftrightarrow> b \<noteq> [] \<and> length b \<le> max 1 n"

lemma flush_if_inv:
  assumes "list_all (\<lambda>p. batch_ok n (fst p)) (w_flushed w)"
    "b \<Longrightarrow> batch_ok n (w_buf w)"
  shows "list_all (\<lambda>p. batch_ok n (fst p)) (w_flushed (flush_if cl b w))"
  using assms by (simp add: flush_if_def doFlush_def)

text \<open>The part of the invariant that holds while the goroutine works on a closed channel.\<close>

definition loop_inv :: "nat \<Rightarrow> ch_event list \<Rightarrow> writer \<Rightarrow> bool" where
  "loop_inv bufSize acc w \<longleftrightarrow>
     w_bufSize w = bufSize \<and> flushed_events w @ w_buf w @ w_ch w = acc
   \<and> w_pending w = int (length (w_ch w)) \<and> length (w_ch w) \<le> bufSize
   \<and> length (w_buf w) \<le> bufSize
   \<and> list_all (\<lambda>p. batch_ok bufSize (fst p)) (w_flushed w)"

lemma loop_recv_inv:
  assumes inv: "loop_inv bufSize acc w" and ne: "w_ch w \<noteq> []"
    and small: "w_buf w = [] \<or> length (w_buf w) < bufSize"
  shows "loop_inv bufSize acc (loop_recv cl w)"
    "w_buf (loop_recv cl w) = [] \<or> length (w_buf (loop_recv cl w)) < bufSize"
    "w_closed (loop_recv cl w) = w_closed w" "w_done (loop_recv cl w) = w_done w"
    "w_dropped (loop_recv cl w) = w_dropped w"
proof -
  obtain e es where w: "w_ch w = e # es" using ne by (cases "w_ch w") auto
  define w1 where "w1 = w\<lparr>w_ch := es, w_pending := w_pending w - 1, w_buf := w_buf w @ [e]\<rparr>"
  define w2 where "w2 = drain (length es) w1"
  have r: "loop_recv cl w = flush_if cl (length (w_buf w2) \<ge> w_bufSize w2) w2"
    by (simp add: loop_recv_def w w1_def w2_def Let_def)
  have size: "w_bufSize w2 = bufSize" using inv by (simp add: w2_def w1_def loop_inv_def)
  have buf1: "length (w_buf w1) \<le> max 1 (w_bufSize w1)"
    using small inv by (auto simp: w1_def loop_inv_def)
  have buf2: "length (w_buf w2) \<le> max 1 bufSize"
    using drain_keeps(4) [OF buf1, of "length es"] inv by (simp add: w2_def w1_def loop_inv_def)
  have "w_buf w1 \<noteq> []" by (simp add: w1_def)
  then have ne2: "w_buf w2 \<noteq> []"
    unfolding w2_def by (rule drain_nonempty)
  have cat: "w_buf w2 @ w_ch w2 = w_buf w @ w_ch w" "length (w_ch w2) \<le> length es"
    "w_pending w2 = int (length (w_ch w2))"
    using drain_keeps(1-3) [of "length es" w1] inv
    by (simp_all add: w2_def w1_def w loop_inv_def)
  have flushed2: "w_flushed w2 = w_flushed w" by (simp add: w2_def w1_def)
  have "flushed_events (loop_recv cl w) @ w_buf (loop_recv cl w) @ w_ch (loop_recv cl w)
      = (flushed_events w2 @ w_buf w2) @ w_ch w2"
    using flush_if_keeps [of cl "length (w_buf w2) \<ge> w_bufSize w2" w2] by (simp add: r)
  also have "\<dots> = acc" using cat(1) inv by (simp add: flushed_events_def flushed2 loop_inv_def)
  finally have acc: "flushed_events (loop_recv cl w) @ w_buf (loop_recv cl w) @ w_ch (loop_recv cl w) = acc" .
  have flushed: "list_all (\<lambda>p. batch_ok bufSize (fst p)) (w_flushed (loop_recv cl w))"
    unfolding r using inv ne2 buf2
    by (intro flush_if_inv) (simp_all add: loop_inv_def flushed2 batch_ok_def)
  have bound: "w_buf (loop_recv cl w) = [] \<or> length (w_buf (loop_recv cl w)) < bufSize"
    using size by (auto simp: r flush_if_def)
  then have "length (w_buf (loop_recv cl w)) \<le> bufSize" by auto
  with acc flushed size cat(2,3) inv show "loop_inv bufSize acc (loop_recv cl w)"
    unfolding loop_inv_def by (auto simp: r w)
  show "w_buf (loop_recv cl w) = [] \<or> length (w_buf (loop_recv cl w)) < bufSize" by (rule bound)
qed (auto simp: loop_recv_def Let_def split: list.splits)

lemma loop_exit_inv:
  assumes "loop_inv bufSize acc w" "w_ch w = []"
  shows "loop_inv bufSize acc (loop_exit cl w)" "w_ch (loop_exit cl w) = []"
    "w_buf (loop_exit cl w) = []" "w_done (loop_exit cl w)" "w_closed (loop_exit cl w) = w_closed w"
    "w_dropped (loop_exit cl w) = w_dropped w"
proof -
  have "batch_ok bufSize (w_buf w)" if "w_buf w \<noteq> []"
    using assms that by (simp add: loop_inv_def batch_ok_def le_max_iff_disj)
  then show "loop_inv bufSize acc (loop_exit cl w)"
    using assms by (cases "w_buf w = []") (simp_all add: loop_exit_def loop_inv_def doFlush_def flushed_events_def)
qed (use assms in \<open>simp_all add: loop_exit_def doFlush_def\<close>)

lemma run_closed_inv:
  "loop_inv bufSize acc w \<Longrightarrow> w_buf w = [] \<or> length (w_buf w) < bufSize \<Longrightarrow> w_closed w \<Longrightarrow>
   loop_inv bufSize acc (run_closed cl w) \<and> w_ch (run_closed cl w) = [] \<and> w_buf (run_closed cl w) = []
   \<and> w_done (run_closed cl w) \<and> w_closed (run_closed cl w)
   \<and> w_dropped (run_closed cl w) = w_dropped w"
proof (induction cl w rule: run_closed.induct)
  case (1 cl w)
  show ?case
  proof (cases "w_ch w = []")
    case True
    then have "run_closed cl w = loop_exit cl w" by (subst run_closed.simps) simp
    then show ?thesis
      using loop_exit_inv [OF "1.prems"(1) True, of cl] "1.prems"(3) by simp
  next
    case False
    note step = loop_recv_inv [OF "1.prems"(1) False "1.prems"(2), of cl]
    have "run_closed cl w = run_closed cl (loop_recv cl w)"
      using False by (subst run_closed.simps) simp
    then show ?thesis
      using "1.IH" [OF False step(1,2)] step(3-5) "1.prems"(3) by simp
  qed
qed

definition writer_ok :: "nat \<Rightarrow> ch_event list \<Rightarrow> ch_event list \<Rightarrow> writer \<Rightarrow> bool" where
  "writer_ok bufSize off acc w \<longleftrightarrow> loop_inv bufSize acc w
   \<and> (w_buf w = [] \<or> length (w_buf w) < bufSize)
   \<and> int (length off) = int (length acc) + w_dropped w \<and> 0 \<le> w_dropped w
   \<and> (w_done w \<longrightarrow> w_ch w = [] \<and> w_buf w = []) \<and> (w_closed w \<longleftrightarrow> w_done w)"

lemma stop_ok:
  assumes "writer_ok bufSize off acc w" "writer_Stop cl w = Some w'"
  shows "writer_ok bufSize off acc w' \<and> w_done w' \<and> flushed_events w' = acc"
proof -
  define w1 where "w1 = w\<lparr>w_ticking := False, w_closed := True\<rparr>"
  have w': "w' = run_closed cl w1" using assms(2) by (simp add: writer_Stop_def w1_def split: if_splits)
  have "loop_inv bufSize acc w1" "w_buf w1 = [] \<or> length (w_buf w1) < bufSize" "w_closed w1"
    using assms(1) by (simp_all add: writer_ok_def w1_def loop_inv_def flushed_events_def)
  note run = run_closed_inv [OF this, of cl, folded w']
  have "w_dropped w1 = w_dropped w" by (simp add: w1_def)
  with run assms(1) have ok: "writer_ok bufSize off acc w'" "w_done w'" "w_ch w' = []" "w_buf w' = []"
    by (simp_all add: writer_ok_def)
  then have "flushed_events w' = acc" by (simp add: writer_ok_def loop_inv_def)
  with ok show ?thesis by simp
qed

lemma writer_reach_ok: "writer_reach cl bufSize off acc w \<Longrightarrow> writer_ok bufSize off acc w"
proof (induction rule: writer_reach.induct)
  case start
  show ?case by (simp add: writer_ok_def loop_inv_def NewWriter_def flushed_events_def)
next
  case (write_step off acc w events err w')
  have len: "length (w_ch w) \<le> w_bufSize w" using write_step.IH by (simp add: writer_ok_def loop_inv_def)
  have w': "w' = write_events events w" "events = [] \<or> \<not> w_closed w"
    using write_step.hyps(2) by (auto simp: writer_Write_def split: if_splits)
  have "length (accepted_now events w) \<le> w_bufSize w - length (w_ch w)"
    "length (accepted_now events w) \<le> length events" "events = [] \<Longrightarrow> accepted_now events w = []"
    by (simp_all add: accepted_now_def)
  then show ?case
    using write_step.IH len w'(2)
    unfolding w'(1) write_events_result [OF len]
    by (auto simp: writer_ok_def loop_inv_def flushed_events_def)
next
  case (recv_step off acc w)
  then have "loop_inv bufSize acc w" "w_buf w = [] \<or> length (w_buf w) < bufSize"
    by (simp_all add: writer_ok_def)
  from loop_recv_inv [OF this(1) recv_step.hyps(3) this(2), of cl] recv_step show ?case
    by (auto simp: writer_ok_def)
next
  case (tick_step off acc w)
  have cat: "flushed_events (loop_tick cl w) @ w_buf (loop_tick cl w) = flushed_events w @ w_buf w"
    unfolding loop_tick_def by (rule flush_if_keeps)
  have "list_all (\<lambda>p. batch_ok bufSize (fst p)) (w_flushed (loop_tick cl w))"
    unfolding loop_tick_def using tick_step.IH
    by (intro flush_if_inv) (auto simp: writer_ok_def loop_inv_def batch_ok_def)
  moreover have "flushed_events (loop_tick cl w) @ w_buf (loop_tick cl w) @ w_ch (loop_tick cl w) = acc"
    using cat tick_step.IH by (simp add: loop_tick_def writer_ok_def loop_inv_def flip: append_assoc)
  moreover have "w_buf (loop_tick cl w) = []" by (simp add: loop_tick_def flush_if_def)
  ultimately show ?case
    using tick_step.IH tick_step.hyps(2)
    by (simp add: writer_ok_def loop_inv_def loop_tick_def)
next
  case (stop_step off acc w w')
  then show ?case using stop_ok by blast
qed

section \<open>Properties of the writer\<close>

text \<open>C7: the writer neither loses, repeats nor reorders an event it accepted: in every
  reachable state the accepted events are the flushed batches, then the buffer, then the
  channel; what was offered is accepted or counted as dropped; \<open>PendingCount\<close> is the
  number of events in the channel, which never exceeds its capacity; and every batch is
  non-empty and at most a buffer long.\<close>

theorem writer_conserves:
  assumes "writer_reach cl bufSize off acc w"
  shows "acc = flushed_events w @ w_buf w @ w_ch w
    \<and> int (length off) = int (length acc) + DroppedTotal w \<and> 0 \<le> DroppedTotal w
    \<and> PendingCount w = int (length (w_ch w)) \<and> length (w_ch w) \<le> bufSize
    \<and> list_all (\<lambda>(b, _). b \<noteq> [] \<and> length b \<le> max 1 bufSize) (w_flushed w)"
  using writer_reach_ok [OF assms]
  by (simp add: writer_ok_def loop_inv_def DroppedTotal_def PendingCount_def batch_ok_def case_prod_unfold)

definition row :: "string \<Rightarrow> ch_event" where
  "row i = zero_ch_event\<lparr>ch_EventID := i\<rparr>"

definition demo_writer :: writer where
  "demo_writer = write_events [row ''1'', row ''2'', row ''3''] (NewWriter 2)"

lemma demo_writer_reach:
  "writer_reach cl 2 [row ''1'', row ''2'', row ''3''] [row ''1'', row ''2''] demo_writer"
proof -
  have "writer_Write [row ''1'', row ''2'', row ''3''] (NewWriter 2) = Some (None, demo_writer)"
    by (simp add: writer_Write_def demo_writer_def NewWriter_def softLimit_def)
  from writer_reach.write_step [OF writer_reach.start this] show ?thesis
    by (simp add: accepted_now_def NewWriter_def)
qed

theorem writer_conserves_witness:
  "DroppedTotal demo_writer = 1 \<and> PendingCount demo_writer = 2 \<and> length (w_ch demo_writer) \<le> 2"
  using writer_conserves [OF demo_writer_reach [of "\<lambda>_. Inserted"]]
  by (simp add: demo_writer_def NewWriter_def DroppedTotal_def PendingCount_def)

text \<open>C13: stopping a running writer always ends, and by then every event it ever accepted
  has been handed to ClickHouse, in the order of acceptance.\<close>

theorem writer_stop_flushes:
  assumes "writer_reach cl bufSize off acc w" "\<not> w_done w"
  shows "\<exists>w'. writer_Stop cl w = Some w' \<and> w_done w' \<and> w_ch w' = [] \<and> w_buf w' = []
    \<and> flushed_events w' = acc"
proof -
  note ok = writer_reach_ok [OF assms(1)]
  then have "\<not> w_closed w" using assms(2) by (simp add: writer_ok_def)
  then obtain w' where w': "writer_Stop cl w = Some w'" by (simp add: writer_Stop_def)
  note stop = stop_ok [OF ok w']
  then have "w_ch w' = []" "w_buf w' = []" by (simp_all add: writer_ok_def)
  with w' stop show ?thesis by blast
qed

theorem writer_stop_flushes_witness:
  "\<exists>w'. writer_Stop (\<lambda>_. Inserted) demo_writer = Some w' \<and> w_done w'
     \<and> flushed_events w' = [row ''1'', row ''2'']"
  using writer_stop_flushes [OF demo_writer_reach [of "\<lambda>_. Inserted"]]
  by (auto simp: demo_writer_def NewWriter_def)

text \<open>Backpressure: a call of \<open>Write\<close> takes exactly as many events as the channel
  has room for, drops and counts the rest, never blocks, and reports
  \<open>ErrBackpressure\<close> exactly when the channel was at four fifths of its capacity
  before the call.\<close>

theorem writer_backpressure:
  assumes "writer_reach cl bufSize off acc w" "\<not> w_done w"
  shows "\<exists>w'. writer_Write events w =
      Some (if 4 * bufSize div 5 \<le> length (w_ch w) then Some ErrBackpressure else None, w')
    \<and> w_ch w' = w_ch w @ take (bufSize - length (w_ch w)) events
    \<and> DroppedTotal w' = DroppedTotal w + int (length events - (bufSize - length (w_ch w)))
    \<and> w_flushed w' = w_flushed w"
proof -
  have inv: "loop_inv bufSize acc w" "\<not> w_closed w"
    using writer_reach_ok [OF assms(1)] assms(2) by (simp_all add: writer_ok_def)
  then have len: "length (w_ch w) \<le> w_bufSize w" and size: "w_bufSize w = bufSize"
    and pend: "w_pending w = int (length (w_ch w))"
    by (simp_all add: loop_inv_def)
  have count: "int (length events) - int (length (accepted_now events w))
      = int (length events - (bufSize - length (w_ch w)))"
    by (simp add: accepted_now_def size min_def of_nat_diff)
  show ?thesis
    using inv(2) pend
    by (simp add: writer_Write_def write_events_result [OF len] softLimit_def size DroppedTotal_def count)
      (simp add: accepted_now_def size)
qed

theorem writer_backpressure_witness:
  "\<exists>w'. writer_Write [row ''4''] demo_writer = Some (Some ErrBackpressure, w') \<and> DroppedTotal w' = 2"
  using writer_backpressure [OF demo_writer_reach [of "\<lambda>_. Inserted"], of "[row ''4'']"]
  by (auto simp: demo_writer_def NewWriter_def DroppedTotal_def)

text \<open>The \<open>ch-writer\<close> binary defers \<open>Stop\<close> and also calls it.\<close>

lemma stop_closes: "writer_Stop cl w = Some w' \<Longrightarrow> w_closed w'"
proof -
  assume "writer_Stop cl w = Some w'"
  then have w': "w' = run_closed cl (w\<lparr>w_ticking := False, w_closed := True\<rparr>)"
    by (simp add: writer_Stop_def split: if_splits)
  have "w_closed (loop_recv cl v) = w_closed v" for v
    by (simp add: loop_recv_def Let_def split: list.splits)
  then have "w_closed (run_closed cl v) = w_closed v" for v
    by (induction cl v rule: run_closed.induct)
      (subst run_closed.simps, simp add: loop_exit_def doFlush_def)
  then show "w_closed w'" by (simp add: w')
qed

text \<open>A second \<open>Stop\<close> closes a closed channel and panics; \<open>ch-writer\<close>, which calls
  \<open>Stop\<close> in its shutdown path and again by \<open>defer\<close>, always ends that way.\<close>

theorem writer_second_stop_panics:
  assumes "writer_Stop cl w = Some w'"
  shows "writer_Stop cl w' = None \<and> (events \<noteq> [] \<longrightarrow> writer_Write events w' = None)"
  using stop_closes [OF assms] by (simp add: writer_Stop_def writer_Write_def)

theorem writer_second_stop_panics_witness:
  "writer_Stop (\<lambda>_. Inserted) (the (writer_Stop (\<lambda>_. Inserted) (NewWriter 2))) = None"
proof -
  have "writer_Stop (\<lambda>_. Inserted) (NewWriter 2) = Some (the (writer_Stop (\<lambda>_. Inserted) (NewWriter 2)))"
    by (simp add: writer_Stop_def NewWriter_def)
  from writer_second_stop_panics [OF this] show ?thesis by blast
qed

section \<open>The connection pool\<close>

text \<open>Clients are values of a type \<open>'c\<close>; \<open>connect\<close> opens one.  The read counter is an
  \<open>atomic.Uint64\<close>.\<close>

record 'c pool =
  pl_shards :: "'c list"
  pl_readers :: "'c list"
  pl_rrRead :: "64 word"

record ch_config =
  cc_Hosts :: "string list"
  cc_ShardHosts :: "string list"
  cc_ReadHosts :: "string list"

text \<open>The loop over the shard hosts: an error comes with the shards opened so far, which
  are closed.\<close>

fun open_shards :: "(string \<Rightarrow> go_error + 'c) \<Rightarrow> 'c list \<Rightarrow> string list \<Rightarrow> (go_error \<times> 'c list) + 'c list" where
  "open_shards connect shards [] = Inr shards"
| "open_shards connect shards (host # hosts) =
     (case connect host of
        Inl err \<Rightarrow> Inl (Errorf (''clickhouse shard '' @ host), shards)
      | Inr c \<Rightarrow> open_shards connect (shards @ [c]) hosts)"

fun open_readers :: "(string \<Rightarrow> go_error + 'c) \<Rightarrow> string list \<Rightarrow> 'c list" where
  "open_readers connect [] = []"
| "open_readers connect (host # hosts) =
     (case connect host of
        Inl _ \<Rightarrow> open_readers connect hosts
      | Inr c \<Rightarrow> c # open_readers connect hosts)"

text \<open>An empty \<open>Hosts\<close> without shard hosts makes \<open>cfg.Hosts[0]\<close> panic (\<open>None\<close>).\<close>

definition NewPool :: "(string \<Rightarrow> go_error + 'c) \<Rightarrow> ch_config \<Rightarrow> ((go_error \<times> 'c list) + 'c pool) option" where
  "NewPool connect cfg =
     (if cc_ShardHosts cfg = [] \<and> cc_Hosts cfg = [] then None
      else (let hosts = (if cc_ShardHosts cfg = [] then [hd (cc_Hosts cfg)] else cc_ShardHosts cfg) in
        Some (case open_shards connect [] hosts of
            Inl e \<Rightarrow> Inl e
          | Inr shards \<Rightarrow> Inr \<lparr>pl_shards = shards, pl_readers = open_readers connect (cc_ReadHosts cfg),
              pl_rrRead = 0\<rparr>)))"

text \<open>\<open>fnv64a(app_id) % n\<close>.\<close>

definition shard_index :: "nat \<Rightarrow> string \<Rightarrow> nat" where
  "shard_index n appID = unat (fnv64a appID mod of_nat n)"

definition ShardFor :: "'c pool \<Rightarrow> string \<Rightarrow> 'c" where
  "ShardFor p appID =
     (if length (pl_shards p) = 1 then pl_shards p ! 0
      else pl_shards p ! shard_index (length (pl_shards p)) appID)"

definition ReadConn :: "'c pool \<Rightarrow> 'c \<times> 'c pool" where
  "ReadConn p =
     (if pl_readers p = [] then (pl_shards p ! 0, p)
      else (let n = pl_rrRead p + 1 in
        (pl_readers p ! unat (n mod of_nat (length (pl_readers p))), p\<lparr>pl_rrRead := n\<rparr>)))"

section \<open>The sharded writer\<close>

type_synonym sharded = "writer list"

definition NewShardedWriter :: "'c pool \<Rightarrow> nat \<Rightarrow> sharded" where
  "NewShardedWriter p bufSizePerShard = map (\<lambda>_. NewWriter bufSizePerShard) (pl_shards p)"

text \<open>The buckets are a Go map, visited in no fixed order; the writers are independent and
  the only error is \<open>ErrBackpressure\<close>, so the order cannot be seen and the model takes the
  order of the indices.\<close>

fun write_buckets :: "nat \<Rightarrow> nat \<Rightarrow> ch_event list \<Rightarrow> sharded \<Rightarrow> (go_error option \<times> sharded) option" where
  "write_buckets n i events [] = Some (None, [])"
| "write_buckets n i events (w # ws) =
     (let batch = filter (\<lambda>e. shard_index n (ch_AppID e) = i) events in
      case (if batch = [] then Some (None, w) else writer_Write batch w) of
        None \<Rightarrow> None
      | Some (err, w') \<Rightarrow>
          (case write_buckets n (Suc i) events ws of
             None \<Rightarrow> None
           | Some (err', ws') \<Rightarrow> Some (if err = None then err' else err, w' # ws')))"

definition sharded_Write :: "ch_event list \<Rightarrow> sharded \<Rightarrow> (go_error option \<times> sharded) option" where
  "sharded_Write events sw =
     (if length sw = 1 then map_option (\<lambda>(err, w). (err, [w])) (writer_Write events (sw ! 0))
      else write_buckets (length sw) 0 events sw)"

definition sharded_DroppedTotal :: "sharded \<Rightarrow> int" where
  "sharded_DroppedTotal sw = sum_list (map DroppedTotal sw)"

fun sharded_Stop :: "(nat \<Rightarrow> insert_outcome) \<Rightarrow> sharded \<Rightarrow> sharded option" where
  "sharded_Stop cl [] = Some []"
| "sharded_Stop cl (w # ws) =
     (case writer_Stop cl w of
        None \<Rightarrow> None
      | Some w' \<Rightarrow> map_option (\<lambda>ws'. w' # ws') (sharded_Stop cl ws))"

lemma shard_index_less: "0 < n \<Longrightarrow> n < 2 ^ 64 \<Longrightarrow> shard_index n a < n"
proof -
  assume "0 < n" "n < 2 ^ 64"
  then have "unat (of_nat n :: 64 word) = n" by (simp add: unsigned_of_nat take_bit_nat_eq_self)
  with \<open>0 < n\<close> show ?thesis by (simp add: shard_index_def unat_mod)
qed

lemma Write_room:
  assumes "\<not> w_closed w" "length (w_ch w) + length es \<le> w_bufSize w"
  shows "\<exists>err w'. writer_Write es w = Some (err, w') \<and> w_ch w' = w_ch w @ es"
proof -
  have "length (w_ch w) \<le> w_bufSize w" using assms(2) by simp
  from write_events_result [OF this, of es] assms show ?thesis
    by (simp add: writer_Write_def accepted_now_def)
qed

lemma write_buckets_routes:
  "list_all (\<lambda>w. \<not> w_closed w \<and> length (w_ch w) + length events \<le> w_bufSize w) ws \<Longrightarrow>
   \<exists>err ws'. write_buckets n i events ws = Some (err, ws') \<and> length ws' = length ws
     \<and> (\<forall>j < length ws. w_ch (ws' ! j) = w_ch (ws ! j) @ filter (\<lambda>e. shard_index n (ch_AppID e) = i + j) events)"
proof (induction ws arbitrary: i)
  case (Cons w ws)
  define batch where "batch = filter (\<lambda>e. shard_index n (ch_AppID e) = i) events"
  have "length batch \<le> length events" by (simp add: batch_def)
  then have room: "\<not> w_closed w" "length (w_ch w) + length batch \<le> w_bufSize w"
    using Cons.prems by simp_all
  obtain err w' where w': "(if batch = [] then Some (None, w) else writer_Write batch w) = Some (err, w')"
    "w_ch w' = w_ch w @ batch"
    using Write_room [OF room] by (cases "batch = []") auto
  obtain err' ws' where ws': "write_buckets n (Suc i) events ws = Some (err', ws')" "length ws' = length ws"
    "\<forall>j < length ws. w_ch (ws' ! j) = w_ch (ws ! j) @ filter (\<lambda>e. shard_index n (ch_AppID e) = Suc i + j) events"
    using Cons.IH [of "Suc i"] Cons.prems by auto
  have "w_ch ((w' # ws') ! j) = w_ch ((w # ws) ! j) @ filter (\<lambda>e. shard_index n (ch_AppID e) = i + j) events"
    if "j < length (w # ws)" for j
    using that w'(2) ws'(3) by (cases j) (auto simp: batch_def)
  then show ?case
    using w'(1) ws'(1,2) by (simp add: Let_def batch_def [symmetric])
qed simp

text \<open>With room in the channels, a sharded write appends every application's events,
  in order, to the channel of one shard, the one \<open>ShardFor\<close> names for reads, and to no
  other.\<close>

theorem sharded_routes_by_app:
  assumes "sw \<noteq> []" "length sw < 2 ^ 64" "length (pl_shards p) = length sw"
    "list_all (\<lambda>w. \<not> w_closed w \<and> length (w_ch w) + length events \<le> w_bufSize w) sw"
  shows "\<exists>err sw' i. sharded_Write events sw = Some (err, sw') \<and> i < length sw
     \<and> ShardFor p a = pl_shards p ! i
     \<and> (\<forall>j < length sw. filter (\<lambda>e. ch_AppID e = a) (w_ch (sw' ! j)) =
          filter (\<lambda>e. ch_AppID e = a) (w_ch (sw ! j))
            @ (if j = i then filter (\<lambda>e. ch_AppID e = a) events else []))"
proof (cases "length sw = 1")
  case True
  then obtain w where sw: "sw = [w]" by (auto simp: length_Suc_conv)
  obtain err w' where "writer_Write events w = Some (err, w')" "w_ch w' = w_ch w @ events"
    using Write_room [of w events] assms(4) sw by auto
  then show ?thesis
    using sw assms(3) by (intro exI [of _ err] exI [of _ "[w']"] exI [of _ 0])
      (simp add: sharded_Write_def ShardFor_def)
next
  case False
  define i where "i = shard_index (length sw) a"
  have i: "i < length sw" using shard_index_less assms(1,2) by (simp add: i_def)
  obtain err sw' where sw': "write_buckets (length sw) 0 events sw = Some (err, sw')"
    "\<forall>j < length sw. w_ch (sw' ! j) = w_ch (sw ! j) @ filter (\<lambda>e. shard_index (length sw) (ch_AppID e) = 0 + j) events"
    using write_buckets_routes [OF assms(4), of "length sw" 0] by blast
  have "filter (\<lambda>e. ch_AppID e = a) (filter (\<lambda>e. shard_index (length sw) (ch_AppID e) = j) events)
      = (if j = i then filter (\<lambda>e. ch_AppID e = a) events else [])" for j
    by (auto simp: i_def filter_empty_conv intro!: filter_cong)
  then show ?thesis
    using False i sw' assms(3)
    by (intro exI [of _ err] exI [of _ sw'] exI [of _ i]) (simp add: sharded_Write_def ShardFor_def i_def)
qed

theorem sharded_routes_by_app_witness:
  "\<exists>err sw'. sharded_Write [row ''1''] [NewWriter 5, NewWriter 5] = Some (err, sw')"
  using sharded_routes_by_app [of "[NewWriter 5, NewWriter 5]"
      "\<lparr>pl_shards = [True, False], pl_readers = [], pl_rrRead = 0\<rparr>" "[row ''1'']" "[]"]
  by (auto simp: NewWriter_def)

text \<open>Consecutive reads go round the replicas.\<close>

lemma ReadConn_round_robin:
  assumes "pl_readers p \<noteq> []" "unat (pl_rrRead p) + 1 < 2 ^ 64" "length (pl_readers p) < 2 ^ 64"
  shows "fst (ReadConn p) = pl_readers p ! ((unat (pl_rrRead p) + 1) mod length (pl_readers p))"
    "unat (pl_rrRead (snd (ReadConn p))) = unat (pl_rrRead p) + 1"
proof -
  have n: "unat (pl_rrRead p + 1) = unat (pl_rrRead p) + 1"
    using assms(2) by (subst unat_word_ariths) simp
  have l: "unat (of_nat (length (pl_readers p)) :: 64 word) = length (pl_readers p)"
    using assms(3) by (simp add: unsigned_of_nat take_bit_nat_eq_self)
  show "fst (ReadConn p) = pl_readers p ! ((unat (pl_rrRead p) + 1) mod length (pl_readers p))"
    "unat (pl_rrRead (snd (ReadConn p))) = unat (pl_rrRead p) + 1"
    using assms(1) n l by (simp_all add: ReadConn_def Let_def unat_mod)
qed

end
