(* ===== verification/Pipeline.thy ===== *)
theory Pipeline
  imports Kafka Enricher Session Funnel Writer
begin

text \<open>
  The stream services \<open>cmd/enricher\<close>, \<open>cmd/session\<close>, \<open>cmd/funnel\<close> and \<open>cmd/chwriter\<close>:
  the message handlers their \<open>main\<close> functions pass to the consume loops.  Each decodes its
  record, calls its engine and publishes with \<open>PublishAsync\<close>; topic names come from the
  configuration, the Redis clock is an argument.
\<close>

record topics =
  tp_raw :: string
  tp_enriched :: string
  tp_session :: string
  tp_agg :: string

definition demo_topics :: topics where
  "demo_topics = \<lparr>tp_raw = ''raw-events'', tp_enriched = ''enriched-events'', tp_session = ''session-events'',
     tp_agg = ''agg-results''\<rparr>"

section \<open>The raw message\<close>

text \<open>The gateway's \<open>map[string]any\<close>; \<open>client_ip\<close> is absent for single events.\<close>

definition ingest_fields :: "event_batch \<Rightarrow> string option \<Rightarrow> int \<Rightarrow> (string \<times> json option) list" where
  "ingest_fields batch clientIP serverTS =
     [(''batch'', Some (JObj (obj_fields (batch_fields batch)))),
      (''client_ip'', map_option JStr clientIP), (''server_ts'', fint serverTS)]"

definition encode_ingest :: "event_batch \<Rightarrow> string option \<Rightarrow> int \<Rightarrow> json option" where
  "encode_ingest batch clientIP serverTS = Some (JObj (obj_fields (ingest_fields batch clientIP serverTS)))"

definition decode_ingest :: "json \<Rightarrow> ingest_message option" where
  "decode_ingest j = do {
     m \<leftarrow> jobj j; bm \<leftarrow> to_struct [] (jvals ''batch'' m); b \<leftarrow> decode_batch bm;
     ip \<leftarrow> to_string [] (jvals ''client_ip'' m); ts \<leftarrow> to_int 0 (jvals ''server_ts'' m);
     Some \<lparr>im_Batch = b, im_ClientIP = ip, im_ServerTS = ts\<rparr> }"

definition wf_batch :: "event_batch \<Rightarrow> bool" where
  "wf_batch b \<longleftrightarrow> in_i64 (eb_SentAtMs b)
     \<and> list_all (\<lambda>e. wf_props (ev_Props e) \<and> in_i64 (ev_EventTime e)) (eb_Events b)"

lemma ingest_roundtrip:
  assumes "wf_batch b" "in_i64 ts"
  shows "\<exists>v. encode_ingest b ip ts = Some v \<and> decode_ingest v =
     Some \<lparr>im_Batch = b, im_ClientIP = (case ip of None \<Rightarrow> [] | Some s \<Rightarrow> s), im_ServerTS = ts\<rparr>"
proof -
  have wf: "wf_fields (ingest_fields b ip ts)"
    by (simp add: ingest_fields_def wf_fields_def to_lower_def to_lower_char_def)
  have "decode_batch (obj_fields (batch_fields b)) = Some b"
    using batch_decodes assms(1) by (simp add: wf_batch_def)
  moreover have "to_struct [] (vals_of (Some (Some (JObj m)))) = Some m" for m
    by (simp add: vals_of_def)
  moreover have "to_string [] (vals_of (Some (map_option JStr ip))) = Some (case ip of None \<Rightarrow> [] | Some s \<Rightarrow> s)"
    by (simp add: vals_of_def split: option.splits)
  ultimately show ?thesis
    using assms(2) unfolding encode_ingest_def decode_ingest_def
    by (simp add: jobj_def jvals_obj_fields [OF wf]) (simp add: ingest_fields_def wire_simps)
qed

section \<open>The enricher\<close>

fun publish_all :: "string \<Rightarrow> (string \<times> json option) list \<Rightarrow> producer \<Rightarrow> producer" where
  "publish_all topic [] p = p"
| "publish_all topic ((key, v) # vs) p = publish_all topic vs (snd (PublishAsync topic key v p))"

definition device_key :: "enriched_event \<Rightarrow> string" where
  "device_key e = ee_AppID e @ '':'' @ ee_DeviceID e"

definition enricher_handle ::
  "(string \<Rightarrow> nat list option) \<Rightarrow> geo_db option option \<Rightarrow> topics \<Rightarrow> producer handler" where
  "enricher_handle v6 geo tp key value p =
     (case value \<bind> decode_ingest of
        None \<Rightarrow> (None, p)
      | Some msg \<Rightarrow>
          (None, publish_all (tp_enriched tp)
             (map (\<lambda>e. (device_key e, Some (encode_enriched e))) (Enrich v6 geo msg)) p))"

section \<open>The session engine\<close>

definition session_handle ::
  "('s, json) redis \<Rightarrow> topics \<Rightarrow> int \<Rightarrow> ('s \<times> producer) handler" where
  "session_handle R tp clock key value sp =
     (case value \<bind> decode_enriched of
        None \<Rightarrow> (None, sp)
      | Some event \<Rightarrow>
          (case session_Process R NewEngine clock event (fst sp) of
             ((updated, sessionEvts, Some _), s') \<Rightarrow> (None, (s', snd sp))
           | ((updated, sessionEvts, None), s') \<Rightarrow>
               (None, (s', publish_all (tp_session tp)
                  ((device_key updated, Some (encode_enriched updated))
                   # map (\<lambda>se. (device_key updated, Some (encode_session_event se))) sessionEvts) (snd sp)))))"

section \<open>The funnel processor\<close>

definition encode_conversion :: "conversion_event \<Rightarrow> json" where
  "encode_conversion c = JObj (obj_fields
     [(''funnel_id'', fstr (cv_FunnelID c)), (''app_id'', fstr (cv_AppID c)), (''user_id'', fstr (cv_UserID c)),
      (''steps_complete'', fint (int (cv_StepsComplete c))), (''total_steps'', fint (int (cv_TotalSteps c))),
      (''converted'', Some (JBool (cv_Converted c))), (''duration_ms'', fint (cv_DurationMs c)),
      (''converted_at'', fint (cv_ConvertedAt c))])"

definition funnel_handle ::
  "('s, json) redis \<Rightarrow> topics \<Rightarrow> int \<Rightarrow> processor \<Rightarrow> ('s \<times> producer) handler" where
  "funnel_handle R tp clock proc key value sp =
     (case value \<bind> decode_enriched of
        None \<Rightarrow> (None, sp)
      | Some event \<Rightarrow>
          (case funnel_Process R clock event proc (fst sp) of
             (conversions, s') \<Rightarrow>
               (None, (s', publish_all (tp_agg tp)
                  (map (\<lambda>c. (cv_AppID c @ '':'' @ cv_UserID c, Some (encode_conversion c))) conversions) (snd sp)))))"

text \<open>No definitions are read from Postgres, and a reload discards what it built.\<close>

definition loadProcessor :: processor where
  "loadProcessor = NewProcessor []"

definition reload_tick :: "processor \<Rightarrow> processor" where
  "reload_tick p = (let proc = loadProcessor in p)"

section \<open>The ClickHouse writer\<close>

fun strip_zeros :: "string \<Rightarrow> string" where
  "strip_zeros s = rev (dropWhile (\<lambda>c. c = CHR ''0'') (rev s))"

definition pad_zeros :: "nat \<Rightarrow> string \<Rightarrow> string" where
  "pad_zeros n s = replicate (n - length s) (CHR ''0'') @ s"

text \<open>\<open>fmtFrac\<close>: the last \<open>prec\<close> digits as a fraction, without trailing zeros.\<close>

definition frac_str :: "nat \<Rightarrow> nat \<Rightarrow> string" where
  "frac_str prec u = (let t = strip_zeros (pad_zeros prec (show_nat (u mod 10 ^ prec)))
     in if t = [] then [] else CHR ''.'' # t)"

text \<open>\<open>time.Duration.String\<close>.\<close>

definition duration_String :: "int \<Rightarrow> string" where
  "duration_String d =
     (let u = nat \<bar>d\<bar>; sign = (if d < 0 then ''-'' else []) in
      if u = 0 then ''0s''
      else if u < 1000 then sign @ show_nat u @ ''ns''
      else if u < 1000000 then sign @ show_nat (u div 1000) @ frac_str 3 u @ [CHR 0xC2, CHR 0xB5, CHR ''s'']
      else if u < 1000000000 then sign @ show_nat (u div 1000000) @ frac_str 6 u @ ''ms''
      else (let secs = u div 1000000000; mins = secs div 60; hours = mins div 60 in
        sign @ (if hours > 0 then show_nat hours @ ''h'' else [])
          @ (if mins > 0 then show_nat (mins mod 60) @ ''m'' else [])
          @ show_nat (secs mod 60) @ frac_str 9 u @ ''s''))"

definition durationToStr :: "int \<Rightarrow> string" where
  "durationToStr s = duration_String (i64 (s * 1000000000))"

definition intToStr :: "int \<Rightarrow> string" where
  "intToStr n = itoa n"

definition sessionEventToCH :: "session_event \<Rightarrow> ch_event" where
  "sessionEventToCH se = zero_ch_event
     \<lparr>ch_AppID := se_AppID se, ch_EventID := se_SessionID se @ ''-'' @ se_Type se,
      ch_UserID := se_UserID se, ch_DeviceID := se_DeviceID se, ch_EventName := se_Type se,
      ch_EventTime := se_StartTimeMs se, ch_ServerTime := se_StartTimeMs se,
      ch_SessionID := se_SessionID se,
      ch_Props := [(''session_duration_s'', durationToStr (se_DurationS se)),
        (''event_count'', intToStr (se_EventCount se)), (''entry_screen'', se_EntryScreen se),
        (''exit_screen'', se_ExitScreen se), (''exit_reason'', se_ExitReason se)]\<rparr>"

text \<open>The row of a record, \<open>None\<close> when it is skipped; \<open>g\<close> formats floats.\<close>

definition chwriter_row :: "(f64 \<Rightarrow> string) \<Rightarrow> json option \<Rightarrow> ch_event option" where
  "chwriter_row g value =
     (case value \<bind> decode_enriched of
        Some event \<Rightarrow> Some (ToCHEvent g event)
      | None \<Rightarrow> (case value \<bind> decode_session_event of
            None \<Rightarrow> None
          | Some se \<Rightarrow> Some (sessionEventToCH se)))"

text \<open>The result of \<open>Write\<close> is not looked at; the state is \<open>None\<close> after a panic.\<close>

definition chwriter_handle :: "(f64 \<Rightarrow> string) \<Rightarrow> sharded option handler" where
  "chwriter_handle g key value sw =
     (case chwriter_row g value of
        None \<Rightarrow> (None, sw)
      | Some chEvt \<Rightarrow> (None, sw \<bind> (\<lambda>w. map_option snd (sharded_Write [chEvt] w))))"

section \<open>Lemmas\<close>

lemma producer_eq: "p = \<lparr>pr_out = q\<rparr> \<longleftrightarrow> pr_out p = q" for p :: producer
  by (cases p) simp

lemma publish_all_out:
  "pr_out (publish_all topic (map (\<lambda>x. (k x, Some (v x))) xs) p) = pr_out p @ map (\<lambda>x. (topic, k x, v x)) xs"
  by (induction xs arbitrary: p) (simp_all add: PublishAsync_def)

lemma session_process_event:
  "\<exists>st :: session_state. fst (fst (session_Process R e clock event s)) = event\<lparr>ee_SessionID := ss_SessionID st\<rparr>
     \<and> snd (snd (fst (session_Process R e clock event s))) = None"
proof -
  obtain loaded b where "loadSession R s clock (session_key event) = (loaded, b, None)"
    using loadSession_no_error [of R s clock "session_key event"] by blast
  from Process_eq [OF this, of e] show ?thesis
    by (intro exI [of _ "fst (session_open e event loaded)"]) simp
qed

section \<open>Properties\<close>

text \<open>The enricher publishes one record per event of the batch, in order, keyed by
  application and device, and what the next service decodes is what \<open>Enrich\<close>
  computed.\<close>

theorem enricher_publishes:
  assumes "wf_batch b" "in_i64 ts"
    "encode_ingest b (Some ip) ts = Some v"
  shows "\<exists>p'. enricher_handle v6 geo tp key (Some v) p = (None, p')
    \<and> map (\<lambda>(t, k, j). (t, k, decode_enriched j)) (drop (length (pr_out p)) (pr_out p')) =
      map (\<lambda>e. (tp_enriched tp, device_key e, Some e))
        (Enrich v6 geo \<lparr>im_Batch = b, im_ClientIP = ip, im_ServerTS = ts\<rparr>)"
proof -
  define msg where "msg = \<lparr>im_Batch = b, im_ClientIP = ip, im_ServerTS = ts\<rparr>"
  have msg: "im_Batch msg = b" "im_ClientIP msg = ip" "im_ServerTS msg = ts"
    by (simp_all add: msg_def)
  have dec: "decode_ingest v = Some msg"
    using ingest_roundtrip [OF assms(1,2), of "Some ip"] assms(3) by (simp add: msg_def)
  have "decode_enriched (encode_enriched e) = Some e" if "e \<in> set (Enrich v6 geo msg)" for e
  proof -
    define loc where "loc = (case geo of None \<Rightarrow> zero_location | Some db \<Rightarrow> geo_Lookup v6 db (im_ClientIP msg))"
    from that obtain evt where "evt \<in> set (eb_Events b)" "e = enrich_event b ts loc (parseUA b) evt"
      by (auto simp: Enrich_def Let_def msg loc_def)
    then have "wf_enriched e"
      using assms(1,2) by (auto simp: wf_batch_def list_all_iff intro!: enrich_event_wf)
    then show ?thesis by (rule enriched_decodes)
  qed
  then show ?thesis
    using dec by (simp add: enricher_handle_def publish_all_out msg_def [symmetric])
qed

theorem enricher_publishes_witness:
  "\<exists>v p'. encode_ingest (batch_of [plain_event]) (Some ''9.9.9.9'') 5 = Some v
     \<and> enricher_handle (\<lambda>_. None) None demo_topics [] (Some v) \<lparr>pr_out = []\<rparr> = (None, p') \<and> length (pr_out p') = 1"
proof -
  obtain v where v: "encode_ingest (batch_of [plain_event]) (Some ''9.9.9.9'') 5 = Some v"
    by (simp add: encode_ingest_def)
  have "wf_batch (batch_of [plain_event])"
    by (simp add: wf_batch_def batch_of_def plain_event_def wf_props_def in_i64_def)
  from enricher_publishes [OF this _ v, of "\<lambda>_. None" None demo_topics "[]" "\<lparr>pr_out = []\<rparr>"]
  obtain p' where p': "enricher_handle (\<lambda>_. None) None demo_topics [] (Some v) \<lparr>pr_out = []\<rparr> = (None, p')"
    and "length (map (\<lambda>(t, k, j). (t, k, decode_enriched j)) (drop 0 (pr_out p'))) =
      length (Enrich (\<lambda>_. None) None \<lparr>im_Batch = batch_of [plain_event], im_ClientIP = ''9.9.9.9'', im_ServerTS = 5\<rparr>)"
    by (fastforce simp: in_i64_def)
  then have "length (pr_out p') = 1" by (simp add: Enrich_def batch_of_def Let_def)
  with v p' show ?thesis by blast
qed

text \<open>C25: the session engine's synthetic events never reach ClickHouse as such: the
  writer tries the decoder of enriched events first, which accepts them, so the row written
  has no event name, no event id, no times and none of the session's properties, and
  \<open>sessionEventToCH\<close> is never called for them.\<close>

theorem session_events_lost:
  "chwriter_row g (Some (encode_session_event se)) =
     Some (zero_ch_event\<lparr>ch_AppID := se_AppID se, ch_UserID := se_UserID se,
       ch_DeviceID := se_DeviceID se, ch_SessionID := se_SessionID se,
       ch_Platform := ''unknown''\<rparr>)"
  by (simp add: chwriter_row_def session_event_as_enriched ToCHEvent_def zero_enriched_def zero_ch_event_def)

lemma funnel_service_idle:
  "funnel_handle R tp clock (reload_tick loadProcessor) key value sp = (None, sp)"
  by (simp add: funnel_handle_def reload_tick_def loadProcessor_def NewProcessor_def funnel_Process_def
      split: option.splits)

text \<open>The duration is written with its unit.\<close>

lemma duration_unit: "\<exists>s. durationToStr n = s @ ''s''"
proof -
  have "\<exists>s. duration_String d = s @ ''s''" for d
    unfolding duration_String_def Let_def
    by (simp add: append_eq_append_conv2 split del: if_split) (auto intro: exI)
  then show ?thesis by (simp add: durationToStr_def)
qed

end
