(* ===== verification/Dates.thy ===== *)
theory Dates
  imports Prelude "HOL-Library.Monad_Syntax"
begin

text \<open>
  The parts of Go's \<open>time.Format\<close> the services use: the civil date of an instant in
  UTC and the layouts \<open>2006-01-02\<close>, \<open>2006-01-02 15:04:05\<close> and RFC 3339.
\<close>

text \<open>Year, month and day of a day number counted from 1970-01-01.\<close>

definition civil_of_days :: "int \<Rightarrow> int \<times> int \<times> int" where
  "civil_of_days z =
     (let z' = z + 719468; era = z' div 146097; doe = z' mod 146097;
          yoe = (doe - doe div 1460 + doe div 36524 - doe div 146096) div 365;
          doy = doe - (365 * yoe + yoe div 4 - yoe div 100);
          mp = (5 * doy + 2) div 153;
          m = (if mp < 10 then mp + 3 else mp - 9)
      in (yoe + era * 400 + (if m \<le> 2 then 1 else 0), m, doy - (153 * mp + 2) div 5 + 1))"

definition pad_int :: "nat \<Rightarrow> int \<Rightarrow> string" where
  "pad_int w i = (let s = itoa i in replicate (w - length s) (CHR ''0'') @ s)"

definition format_date :: "int \<Rightarrow> string" where
  "format_date ms = (case civil_of_days (ms div 86400000) of (y, m, d) \<Rightarrow>
     pad_int 4 y @ ''-'' @ pad_int 2 m @ ''-'' @ pad_int 2 d)"

text \<open>\<open>RFC3339Nano\<close>, the form \<open>time.Time\<close> has in JSON.\<close>

definition format_rfc3339 :: "int \<Rightarrow> string" where
  "format_rfc3339 ms =
     (let s = ms mod 86400000 div 1000; f = ms mod 1000 in
      format_date ms @ ''T'' @ pad_int 2 (s div 3600) @ '':'' @ pad_int 2 (s div 60 mod 60)
        @ '':'' @ pad_int 2 (s mod 60)
        @ (if f = 0 then [] else ''.'' @ rev (dropWhile (\<lambda>c. c = CHR ''0'') (rev (pad_int 3 f))))
        @ ''Z'')"

text \<open>The layout \<open>2006-01-02 15:04:05\<close>.\<close>

definition format_datetime :: "int \<Rightarrow> string" where
  "format_datetime ms =
     (let s = ms mod 86400000 div 1000 in
      format_date ms @ '' '' @ pad_int 2 (s div 3600) @ '':'' @ pad_int 2 (s div 60 mod 60)
        @ '':'' @ pad_int 2 (s mod 60))"

text \<open>The zero value of \<open>time.Time\<close>, the first day of the year 1.\<close>

definition zero_time :: int where
  "zero_time = - 62135596800000"

section \<open>Parsing\<close>

definition days_of_civil :: "int \<Rightarrow> int \<Rightarrow> int \<Rightarrow> int" where
  "days_of_civil y m d =
     (let y' = (if m \<le> 2 then y - 1 else y); era = y' div 400; yoe = y' mod 400;
          mp = (if m > 2 then m - 3 else m + 9);
          doy = (153 * mp + 2) div 5 + d - 1;
          doe = yoe * 365 + yoe div 4 - yoe div 100 + doy
      in era * 146097 + doe - 719468)"

definition days_in_month :: "int \<Rightarrow> int \<Rightarrow> int" where
  "days_in_month y m =
     (if m = 2 then (if y mod 4 = 0 \<and> (y mod 100 \<noteq> 0 \<or> y mod 400 = 0) then 29 else 28)
      else if m \<in> {4, 6, 9, 11} then 30 else 31)"

text \<open>The number of exactly \<open>w\<close> digits at the front, and what follows.\<close>

definition read_digits :: "nat \<Rightarrow> string \<Rightarrow> (int \<times> string) option" where
  "read_digits w s = (if length s < w then None
     else map_option (\<lambda>n. (int n, drop w s)) (read_nat 0 (take w s)))"

definition read_char :: "char \<Rightarrow> string \<Rightarrow> string option" where
  "read_char c s = (case s of [] \<Rightarrow> None | c' # s' \<Rightarrow> if c' = c then Some s' else None)"

text \<open>An optional fraction, in milliseconds, and the zone, in minutes east of UTC.\<close>

definition read_fraction :: "string \<Rightarrow> (int \<times> string) option" where
  "read_fraction s = (case read_char (CHR ''.'') s of
      None \<Rightarrow> Some (0, s)
    | Some s' \<Rightarrow>
        (let ds = takeWhile (\<lambda>c. undigit c \<noteq> None) s' in
         if ds = [] then None
         else map_option (\<lambda>n. (int n, drop (length ds) s')) (read_nat 0 (take 3 (ds @ ''000'')))))"

definition read_zone :: "string \<Rightarrow> int option" where
  "read_zone s =
     (if s = ''Z'' then Some 0
      else do {
        (h, r1) \<leftarrow> read_digits 2 (drop 1 s); r2 \<leftarrow> read_char (CHR '':'') r1; (m, r3) \<leftarrow> read_digits 2 r2;
        if r3 \<noteq> [] \<or> h > 24 \<or> m \<ge> 60 then None
        else if take 1 s = ''+'' then Some (h * 60 + m)
        else if take 1 s = ''-'' then Some (- (h * 60 + m))
        else None })"

text \<open>\<open>Time.UnmarshalJSON\<close> on the text of a JSON string, to the millisecond.  Go also takes
  an hour of one digit and a fraction after a comma, which the model refuses.\<close>

definition parse_rfc3339 :: "string \<Rightarrow> int option" where
  "parse_rfc3339 s = do {
     (y, s) \<leftarrow> read_digits 4 s; s \<leftarrow> read_char (CHR ''-'') s; (mo, s) \<leftarrow> read_digits 2 s;
     s \<leftarrow> read_char (CHR ''-'') s; (d, s) \<leftarrow> read_digits 2 s; s \<leftarrow> read_char (CHR ''T'') s;
     (h, s) \<leftarrow> read_digits 2 s; s \<leftarrow> read_char (CHR '':'') s; (mi, s) \<leftarrow> read_digits 2 s;
     s \<leftarrow> read_char (CHR '':'') s; (sec, s) \<leftarrow> read_digits 2 s; (ms, s) \<leftarrow> read_fraction s; z \<leftarrow> read_zone s;
     if 1 \<le> mo \<and> mo \<le> 12 \<and> 1 \<le> d \<and> d \<le> days_in_month y mo \<and> h < 24 \<and> mi < 60 \<and> sec < 60
     then Some (days_of_civil y mo d * 86400000 + (h * 3600 + mi * 60 + sec - z * 60) * 1000 + ms)
     else None }"

lemma parse_examples:
  "parse_rfc3339 ''2024-02-29T00:00:00.05Z'' = Some 1709164800050"
  "parse_rfc3339 ''2024-02-29T01:30:00+01:30'' = Some 1709164800000"
  "parse_rfc3339 ''2023-02-29T00:00:00Z'' = None"
  "parse_rfc3339 ''yesterday'' = None"
  "format_rfc3339 zero_time = ''0001-01-01T00:00:00Z''"
  by code_simp+

lemma format_examples:
  "format_date 1709164800000 = ''2024-02-29''"
  "format_rfc3339 1709164800050 = ''2024-02-29T00:00:00.05Z''"
  by code_simp+

end
