(* ===== verification/Http.thy ===== *)
theory Http
  imports Wire Dates
begin

text \<open>
  HTTP requests and responses as the handlers see them.  A body is the decoded JSON value,
  or \<open>None\<close> when it is not JSON; a response body that the code writes as text is the JSON
  value it spells.  Header lookup of a missing header gives the empty string.
\<close>

record request =
  rq_header :: "string \<Rightarrow> string"
  rq_body :: "json option"
  rq_remote :: string

record response =
  rs_status :: nat
  rs_headers :: "(string \<times> string) list"
  rs_body :: "json option"

definition jmap :: "(string \<times> string) list \<Rightarrow> json" where
  "jmap kvs = JObj (map (\<lambda>(k, v). (k, JStr v)) kvs)"

definition writeJSON :: "nat \<Rightarrow> json \<Rightarrow> response" where
  "writeJSON st v = \<lparr>rs_status = st, rs_headers = [(''Content-Type'', ''application/json'')], rs_body = Some v\<rparr>"

definition writeError :: "nat \<Rightarrow> string \<Rightarrow> response" where
  "writeError st msg = writeJSON st (jmap [(''error'', msg)])"

text \<open>\<open>http.Error\<close> with the text of an error object.\<close>

definition http_Error :: "string \<Rightarrow> nat \<Rightarrow> response" where
  "http_Error msg st = \<lparr>rs_status = st, rs_headers = [(''Content-Type'', ''text/plain; charset=utf-8'')],
     rs_body = Some (jmap [(''error'', msg)])\<rparr>"

text \<open>Lists and string maps in JSON.  Every member is decoded, a repeated key keeps its last
  value.  A slice the code never appended to is nil and is encoded as \<open>null\<close>.\<close>

definition nil_array :: "json list \<Rightarrow> json" where
  "nil_array xs = (if xs = [] then JNull else JArr xs)"

definition decode_list :: "((string \<times> json) list \<Rightarrow> 'a option) \<Rightarrow> json list \<Rightarrow> 'a list option" where
  "decode_list dec vs = (case to_slice None vs of
      None \<Rightarrow> None | Some None \<Rightarrow> Some []
    | Some (Some xs) \<Rightarrow> those (map (\<lambda>j. jobj j \<bind> dec) xs))"

definition decode_smap :: "(json list \<Rightarrow> 'a option) \<Rightarrow> json list \<Rightarrow> (string \<times> 'a) list option" where
  "decode_smap dec vs = (case to_ptr None vs of
      None \<Rightarrow> None | Some None \<Rightarrow> Some []
    | Some (Some m) \<Rightarrow> map_option (foldl (\<lambda>acc (k, v). al_set k v acc) [])
          (those (map (\<lambda>(k, v). map_option (Pair k) (dec [v])) m)))"

text \<open>A \<open>time.Time\<close> and a pointer to one.\<close>

fun to_time :: "int \<Rightarrow> json list \<Rightarrow> int option" where
  "to_time z [] = Some z"
| "to_time z (JNull # vs) = to_time z vs"
| "to_time z (JStr s # vs) = (case parse_rfc3339 s of None \<Rightarrow> None | Some t \<Rightarrow> to_time t vs)"
| "to_time z (_ # vs) = None"

fun to_time_ptr :: "int option \<Rightarrow> json list \<Rightarrow> int option option" where
  "to_time_ptr z [] = Some z"
| "to_time_ptr z (JNull # vs) = to_time_ptr None vs"
| "to_time_ptr z (JStr s # vs) = (case parse_rfc3339 s of None \<Rightarrow> None | Some t \<Rightarrow> to_time_ptr (Some t) vs)"
| "to_time_ptr z (_ # vs) = None"

text \<open>\<open>w.WriteHeader(status)\<close> without a body.\<close>

definition status_only :: "nat \<Rightarrow> response" where
  "status_only st = \<lparr>rs_status = st, rs_headers = [], rs_body = None\<rparr>"

lemma status_simps [simp]:
  "rs_status (writeJSON st v) = st" "rs_status (writeError st msg) = st"
  "rs_status (http_Error msg st) = st" "rs_status (status_only st) = st"
  by (simp_all add: writeJSON_def writeError_def http_Error_def status_only_def)

text \<open>\<open>strings.CutPrefix\<close>.\<close>

definition cut_prefix :: "string \<Rightarrow> string \<Rightarrow> string option" where
  "cut_prefix s p = (if prefix p s then Some (drop (length p) s) else None)"

lemma cut_prefix_append [simp]: "cut_prefix (p @ s) p = Some s"
  by (simp add: cut_prefix_def)

text \<open>One string field of a request body, decoded into an anonymous struct: \<open>None\<close> is a
  decoding error.\<close>

definition body_string :: "json option \<Rightarrow> string \<Rightarrow> string option" where
  "body_string b k = (case b of None \<Rightarrow> None
     | Some j \<Rightarrow> (case jobj j of None \<Rightarrow> None | Some m \<Rightarrow> to_string [] (jvals k m)))"

end
