(* ===== verification/RateLimit.thy ===== *)
theory RateLimit
  imports Redis
begin

text \<open>
  Package \<open>internal/ratelimit\<close>: the per-tenant limiter over the Redis token bucket with
  its in-process fallback.  The limiter of \<open>golang.org/x/time/rate\<close> is not part of the
  repository and is a parameter (\<open>rate_lib\<close>, with limiter values \<open>'l\<close>).  Redis is the
  map from keys to token buckets; \<open>reachable\<close> says whether a call gets through.
  Times are seconds.
\<close>

record 'l rate_lib =
  rate_NewLimiter :: "f64 \<Rightarrow> int \<Rightarrow> 'l"
  rate_AllowN :: "'l \<Rightarrow> f64 \<Rightarrow> int \<Rightarrow> bool \<times> 'l"

type_synonym buckets = "string \<Rightarrow> bucket option"

record 'l limiter =
  lm_redis :: buckets
  lm_local :: "(string \<times> 'l) list"
  lm_stopped :: bool

definition NewLimiter :: "buckets \<Rightarrow> 'l limiter" where
  "NewLimiter rd = \<lparr>lm_redis = rd, lm_local = [], lm_stopped = False\<rparr>"

section \<open>The in-process fallback\<close>

definition getLocal :: "'l rate_lib \<Rightarrow> 'l limiter \<Rightarrow> string \<Rightarrow> f64 \<Rightarrow> int \<Rightarrow> 'l \<times> 'l limiter" where
  "getLocal RL l tenantID rps burst =
     (case map_of (lm_local l) tenantID of
        Some lm \<Rightarrow> (lm, l)
      | None \<Rightarrow> (let lm = rate_NewLimiter RL rps burst
                in (lm, l\<lparr>lm_local := al_set tenantID lm (lm_local l)\<rparr>)))"

definition localAllowN ::
  "'l rate_lib \<Rightarrow> 'l limiter \<Rightarrow> f64 \<Rightarrow> string \<Rightarrow> int \<Rightarrow> f64 \<Rightarrow> int \<Rightarrow> bool \<times> 'l limiter" where
  "localAllowN RL l now tenantID n rps burst =
     (let (lm, l1) = getLocal RL l tenantID rps burst;
          (ok, lm') = rate_AllowN RL lm now n
      in (ok, l1\<lparr>lm_local := al_set tenantID lm' (lm_local l1)\<rparr>))"

text \<open>\<open>lim.Allow()\<close> is documented as \<open>lim.AllowN(time.Now(), 1)\<close>.\<close>

definition localAllow ::
  "'l rate_lib \<Rightarrow> 'l limiter \<Rightarrow> f64 \<Rightarrow> string \<Rightarrow> f64 \<Rightarrow> int \<Rightarrow> bool \<times> 'l limiter" where
  "localAllow RL l now tenantID rps burst = localAllowN RL l now tenantID 1 rps burst"

section \<open>The limiter\<close>

definition bucket_key :: "string \<Rightarrow> string" where
  "bucket_key tenantID = ''rl:'' @ tenantID"

definition limiter_Allow ::
  "'l rate_lib \<Rightarrow> bool \<Rightarrow> f64 \<Rightarrow> string \<Rightarrow> f64 \<Rightarrow> int \<Rightarrow> 'l limiter \<Rightarrow> bool \<times> 'l limiter" where
  "limiter_Allow RL reachable now tenantID rps burst l =
     (case AllowRate reachable rps burst now (lm_redis l (bucket_key tenantID)) of
        ((allowed, err), b) \<Rightarrow>
          (let l1 = l\<lparr>lm_redis := (lm_redis l)(bucket_key tenantID := b)\<rparr>
           in case err of
                Some _ \<Rightarrow> localAllow RL l1 now tenantID rps burst
              | None \<Rightarrow> (allowed, l1)))"

definition limiter_AllowN ::
  "'l rate_lib \<Rightarrow> bool \<Rightarrow> f64 \<Rightarrow> string \<Rightarrow> int \<Rightarrow> f64 \<Rightarrow> int \<Rightarrow> 'l limiter \<Rightarrow> bool \<times> 'l limiter" where
  "limiter_AllowN RL reachable now tenantID n rps burst l =
     (case AllowRate reachable rps burst now (lm_redis l (bucket_key tenantID)) of
        ((allowed, err), b) \<Rightarrow>
          (let l1 = l\<lparr>lm_redis := (lm_redis l)(bucket_key tenantID := b)\<rparr>
           in case err of
                Some _ \<Rightarrow> localAllowN RL l1 now tenantID n rps burst
              | None \<Rightarrow> (allowed, l1)))"

definition cleanup_tick :: "'l limiter \<Rightarrow> 'l limiter" where
  "cleanup_tick l =
     (if lm_stopped l then l
      else if length (lm_local l) > 10000 then l\<lparr>lm_local := []\<rparr> else l)"

definition limiter_Close :: "'l limiter \<Rightarrow> 'l limiter" where
  "limiter_Close l = l\<lparr>lm_stopped := True\<rparr>"

text \<open>One tenant's requests at the given times, with Redis reachable.\<close>

fun bucket_run :: "f64 \<Rightarrow> int \<Rightarrow> f64 list \<Rightarrow> bucket option \<Rightarrow> bool list \<times> bucket option" where
  "bucket_run rps burst [] b = ([], b)"
| "bucket_run rps burst (t # ts) b =
     (let ((ok, _), b') = AllowRate True rps burst t b;
          (oks, b'') = bucket_run rps burst ts b'
      in (ok # oks, b''))"

section \<open>The bucket as a level\<close>

text \<open>The configurations in which the script runs: a positive rate, and an expiry of at
  least one second.\<close>

definition good_rate :: "f64 \<Rightarrow> int \<Rightarrow> bool" where
  "good_rate rps burst \<longleftrightarrow> 0 < rps \<and> rps \<le> 2 * of_int burst"

definition script_ttl :: "f64 \<Rightarrow> int \<Rightarrow> int" where
  "script_ttl rps burst = \<lfloor>of_int burst / rps * 2\<rfloor>"

lemma script_ttl_covers_fill:
  assumes "good_rate rps burst"
  shows "0 < script_ttl rps burst" "of_int burst \<le> of_int (script_ttl rps burst) * rps"
proof -
  define x where "x = of_int burst / rps * 2"
  have rps: "0 < rps" using assms by (simp add: good_rate_def)
  have x1: "1 \<le> x" using assms by (simp add: x_def good_rate_def field_simps)
  then have "1 \<le> \<lfloor>x\<rfloor>" by simp
  then show "0 < script_ttl rps burst" by (simp add: script_ttl_def x_def)
  have "x \<le> 2 * of_int \<lfloor>x\<rfloor>"
  proof -
    have "x < of_int \<lfloor>x\<rfloor> + 1" by linarith
    moreover have "(1::rat) \<le> of_int \<lfloor>x\<rfloor>" using \<open>1 \<le> \<lfloor>x\<rfloor>\<close> by simp
    ultimately show ?thesis by linarith
  qed
  then show "of_int burst \<le> of_int (script_ttl rps burst) * rps"
    using rps by (simp add: script_ttl_def x_def field_simps)
qed

text \<open>The tokens a request at time \<open>t\<close> finds.\<close>

definition level :: "f64 \<Rightarrow> int \<Rightarrow> bucket option \<Rightarrow> f64 \<Rightarrow> f64" where
  "level rps burst b t = (case b of None \<Rightarrow> of_int burst
     | Some k \<Rightarrow> min (of_int burst) (bk_tokens k + (t - bk_ts k) * rps))"

definition wf_bucket :: "f64 \<Rightarrow> int \<Rightarrow> f64 \<Rightarrow> bucket option \<Rightarrow> bool" where
  "wf_bucket rps burst t b \<longleftrightarrow> (case b of None \<Rightarrow> True
     | Some k \<Rightarrow> 0 \<le> bk_tokens k \<and> bk_tokens k \<le> of_int burst \<and> bk_ts k \<le> t
        \<and> bk_expires k = bk_ts k + of_int (script_ttl rps burst))"

lemma wf_bucket_later: "wf_bucket rps burst t b \<Longrightarrow> t \<le> u \<Longrightarrow> wf_bucket rps burst u b"
  by (auto simp: wf_bucket_def split: option.splits)

lemma level_mono_rate:
  assumes "0 < rps" "t \<le> u"
  shows "level rps burst b u \<le> level rps burst b t + rps * (u - t)"
proof -
  have "0 \<le> rps * (u - t)" using assms by simp
  then show ?thesis by (auto simp: level_def algebra_simps min_def split: option.splits)
qed

text \<open>An expired bucket would have been full: the expiry cannot be seen.\<close>

lemma expiry_is_full:
  assumes "good_rate rps burst" "wf_bucket rps burst t (Some k)" "bk_expires k \<le> t"
  shows "level rps burst (Some k) t = of_int burst"
proof -
  note cover = script_ttl_covers_fill(2) [OF assms(1)]
  have "0 < rps" using assms(1) by (simp add: good_rate_def)
  moreover have "of_int (script_ttl rps burst) \<le> t - bk_ts k"
    using assms by (simp add: wf_bucket_def)
  ultimately have "of_int (script_ttl rps burst) * rps \<le> (t - bk_ts k) * rps"
    by (simp add: mult_right_mono)
  moreover have "0 \<le> bk_tokens k" using assms(2) by (simp add: wf_bucket_def)
  ultimately have "of_int burst \<le> bk_tokens k + (t - bk_ts k) * rps" using cover by linarith
  then show ?thesis by (simp add: level_def)
qed

lemma AllowRate_level:
  assumes good: "good_rate rps burst" and wf: "wf_bucket rps burst t b"
  obtains k where
    "AllowRate True rps burst t b = ((1 \<le> level rps burst b t, None), Some k)"
    "wf_bucket rps burst t (Some k)"
    "level rps burst (Some k) t = level rps burst b t - (if 1 \<le> level rps burst b t then 1 else 0)"
proof -
  define live where "live = (case b of None \<Rightarrow> None | Some k \<Rightarrow> if t < bk_expires k then Some k else None)"
  define filled where "filled = min (of_int burst)
     ((case live of None \<Rightarrow> of_int burst | Some k \<Rightarrow> bk_tokens k)
      + max 0 (t - (case live of None \<Rightarrow> t | Some k \<Rightarrow> bk_ts k)) * rps)"
  have rps: "0 < rps" "0 < script_ttl rps burst" and burst: "0 < burst"
    using good script_ttl_covers_fill(1) [OF good] by (auto simp: good_rate_def)
  have lev: "filled = level rps burst b t"
    using wf expiry_is_full [OF good, of t] burst
    by (auto simp: filled_def live_def level_def wf_bucket_def max_def split: option.splits)
  have nonneg: "0 \<le> filled"
    using wf rps(1) burst by (auto simp: lev level_def wf_bucket_def split: option.splits)
  define k where "k = \<lparr>bk_tokens = (if filled \<ge> 1 then filled - 1 else filled), bk_ts = t,
     bk_expires = t + of_int (script_ttl rps burst)\<rparr>"
  have "rateLimitScript rps (of_int burst) t 1 b = Some ((1 \<le> filled, \<lfloor>filled\<rfloor>), k)"
    using rps unfolding rateLimitScript_def script_ttl_def Let_def filled_def live_def k_def by simp
  then have "AllowRate True rps burst t b = ((1 \<le> level rps burst b t, None), Some k)"
    by (simp add: AllowRate_def lev)
  moreover have "filled \<le> of_int burst" by (simp add: filled_def)
  ultimately show ?thesis
    using that nonneg by (simp add: wf_bucket_def k_def level_def lev)
qed

section \<open>Properties\<close>

lemma bucket_run_bound:
  assumes "good_rate rps burst"
  shows "wf_bucket rps burst t b \<Longrightarrow> sorted (t # ts) \<Longrightarrow>
     of_nat (length (filter (\<lambda>ok. ok) (fst (bucket_run rps burst ts b))))
       \<le> level rps burst b t + rps * (last (t # ts) - t)
     \<and> wf_bucket rps burst (last (t # ts)) (snd (bucket_run rps burst ts b))"
proof (induction ts arbitrary: t b)
  case Nil
  have "0 \<le> level rps burst b t"
    using Nil(1) assms
    by (auto simp: level_def wf_bucket_def good_rate_def split: option.splits)
  with Nil show ?case by simp
next
  case (Cons u us)
  have rps: "0 < rps" and tu: "t \<le> u" using assms Cons.prems by (auto simp: good_rate_def)
  obtain k where k: "AllowRate True rps burst u b = ((1 \<le> level rps burst b u, None), Some k)"
    "wf_bucket rps burst u (Some k)"
    "level rps burst (Some k) u = level rps burst b u - (if 1 \<le> level rps burst b u then 1 else 0)"
    by (rule AllowRate_level [OF assms wf_bucket_later [OF Cons.prems(1) tu]])
  have IH: "of_nat (length (filter (\<lambda>ok. ok) (fst (bucket_run rps burst us (Some k)))))
      \<le> level rps burst (Some k) u + rps * (last (u # us) - u)
     \<and> wf_bucket rps burst (last (u # us)) (snd (bucket_run rps burst us (Some k)))"
    using Cons.IH [OF k(2)] Cons.prems(2) by simp
  have split: "rps * (last (u # us) - t) = rps * (last (u # us) - u) + rps * (u - t)"
    by (simp add: algebra_simps)
  show ?case
    using IH k level_mono_rate [OF rps tu, of burst b] split
    by (cases "1 \<le> level rps burst b u") (simp_all add: split_def Let_def)
qed



text \<open>A tenant that keeps its requests at least \<open>1/rps\<close> seconds apart is never
  refused.\<close>

theorem bucket_spaced_allowed:
  assumes "0 < rps" "rps \<le> 2 * of_int burst" "1 \<le> burst"
    "\<forall>i. Suc i < length ts \<longrightarrow> ts ! i + 1 / rps \<le> ts ! Suc i"
  shows "list_all (\<lambda>ok. ok) (fst (bucket_run rps burst ts None))"
proof -
  have good: "good_rate rps burst" using assms by (simp add: good_rate_def)
  have step: "list_all (\<lambda>ok. ok) (fst (bucket_run rps burst ts b))"
    if "ts = [] \<or> wf_bucket rps burst (hd ts) b \<and> 1 \<le> level rps burst b (hd ts)"
      "\<forall>i. Suc i < length ts \<longrightarrow> ts ! i + 1 / rps \<le> ts ! Suc i" for b
    using that
  proof (induction ts arbitrary: b)
    case (Cons u us)
    then have wf: "wf_bucket rps burst u b" and lev: "1 \<le> level rps burst b u" by simp_all
    obtain k where k: "AllowRate True rps burst u b = ((1 \<le> level rps burst b u, None), Some k)"
      "wf_bucket rps burst u (Some k)"
      "level rps burst (Some k) u = level rps burst b u - (if 1 \<le> level rps burst b u then 1 else 0)"
      by (rule AllowRate_level [OF good wf])
    have next_ok: "us = [] \<or> wf_bucket rps burst (hd us) (Some k) \<and> 1 \<le> level rps burst (Some k) (hd us)"
    proof (cases us)
      case (Cons v vs)
      with Cons.prems(2) have gap: "u + 1 / rps \<le> v" by (auto dest: spec [of _ 0])
      moreover have "0 < 1 / rps" using assms(1) by simp
      ultimately have "u \<le> v" by linarith
      moreover have "1 \<le> (v - u) * rps" using gap assms(1) by (simp add: field_simps)
      moreover have "bk_ts k \<le> u" "0 \<le> bk_tokens k" using k(2) by (simp_all add: wf_bucket_def)
      moreover have "(v - u) * rps \<le> (v - bk_ts k) * rps"
        using assms(1) \<open>bk_ts k \<le> u\<close> by (simp add: mult_right_mono)
      ultimately have "1 \<le> level rps burst (Some k) v"
        using assms(3) unfolding level_def by simp
      then show ?thesis using wf_bucket_later [OF k(2) \<open>u \<le> v\<close>] Cons by simp
    qed simp
    have "\<forall>i. Suc i < length us \<longrightarrow> us ! i + 1 / rps \<le> us ! Suc i"
    proof (intro allI impI)
      fix i assume "Suc i < length us"
      then show "us ! i + 1 / rps \<le> us ! Suc i"
        using Cons.prems(2) [rule_format, of "Suc i"] by simp
    qed
    from Cons.IH [OF next_ok this] show ?case
      using k(1) lev by (simp add: split_def Let_def)
  qed simp
  show ?thesis using step [of None] assms by (simp add: wf_bucket_def level_def)
qed

theorem bucket_spaced_allowed_witness:
  "list_all (\<lambda>ok. ok) (fst (bucket_run 2 1 [0, 1, 2] None))"
proof (rule bucket_spaced_allowed [of 2 1 "[0, 1, 2]"])
  show "\<forall>i. Suc i < length [0, 1, 2 :: rat] \<longrightarrow> [0, 1, 2] ! i + 1 / 2 \<le> [0, 1, 2 :: rat] ! Suc i"
    by (auto simp: less_Suc_eq)
qed simp_all

text \<open>\<open>AllowRate\<close> turns every failure into \<open>true, nil\<close>, so the limiter is
  unlimited, not limited in process, whenever Redis is down or the bucket holds less than
  half a second of the rate; its in-process limiters are never consulted.\<close>

theorem limiter_fails_open:
  assumes "\<not> reachable \<or> 2 * of_int burst < rps \<and> 0 < rps"
  shows "limiter_Allow RL reachable now tenantID rps burst l = (True, l)"
proof -
  have "rateLimitScript rps (of_int burst) now 1 b = None" if "2 * of_int burst < rps" "0 < rps" for b
  proof -
    have "of_int burst / rps * 2 < 1" using that by (simp add: field_simps)
    then have "\<lfloor>of_int burst / rps * 2\<rfloor> \<le> 0" by linarith
    then show ?thesis unfolding rateLimitScript_def Let_def by simp
  qed
  then have "AllowRate reachable rps burst now b = ((True, None), b)" for b
    using assms by (auto simp: AllowRate_def)
  then show ?thesis by (simp add: limiter_Allow_def)
qed

theorem limiter_fails_open_witness:
  "limiter_Allow \<lparr>rate_NewLimiter = \<lambda>_ _. (), rate_AllowN = \<lambda>l _ _. (False, l)\<rparr> False 0 ''t'' 10 5
      (NewLimiter (\<lambda>_. None)) = (True, NewLimiter (\<lambda>_. None))"
  by (rule limiter_fails_open) simp

lemma AllowRate_no_error: "snd (fst (AllowRate reachable rps burst now b)) = None"
  by (simp add: AllowRate_def split: option.splits prod.splits)

lemma AllowN_ignores_n:
  "limiter_AllowN RL reachable now tenantID n rps burst l =
   limiter_Allow RL reachable now tenantID rps burst l"
  using AllowRate_no_error [of reachable rps burst now "lm_redis l (bucket_key tenantID)"]
  by (auto simp: limiter_AllowN_def limiter_Allow_def split: prod.splits)

text \<open>Tenants do not share buckets.\<close>

lemma limiter_tenants_apart:
  "tenantID' \<noteq> tenantID \<Longrightarrow>
   lm_redis (snd (limiter_Allow RL reachable now tenantID rps burst l)) (bucket_key tenantID') =
   lm_redis l (bucket_key tenantID')"
  using AllowRate_no_error [of reachable rps burst now "lm_redis l (bucket_key tenantID)"]
  by (auto simp: limiter_Allow_def bucket_key_def split: prod.splits)

end
