(* ===== verification/Postgres.thy ===== *)
theory Postgres
  imports Models
begin

text \<open>
  Package \<open>internal/postgres\<close>: the SQL statements of the client, as what they do to the
  tables, with the constraints of \<open>migrations/postgres\<close> that can reject them (primary
  keys, the unique API key, the foreign keys of apps and campaigns, the checked plans, conditions and
  channels).  A table is the list of its rows in insertion order.  The server is a value of
  type \<open>pg_db\<close>; \<open>db_up\<close> is false while it cannot be reached, and then every statement
  fails.  Ids are compared as texts.  Writes go to the primary and reads to a replica in
  rotation; replication itself is outside of the repository, so a replica is a database of
  its own.
\<close>

record delivery =
  dl_CampaignID :: string
  dl_Status :: string

record pg_db =
  db_up :: bool
  t_orgs :: "org list"
  t_apps :: "app list"
  t_funnels :: "funnel_definition list"
  t_alerts :: "alert_rule list"
  t_cohorts :: "cohort_definition list"
  t_experiments :: "ab_experiment list"
  t_campaigns :: "campaign list"
  t_deliveries :: "delivery list"

definition empty_db :: pg_db where
  "empty_db = \<lparr>db_up = True, t_orgs = [], t_apps = [], t_funnels = [], t_alerts = [],
     t_cohorts = [], t_experiments = [], t_campaigns = [], t_deliveries = []\<rparr>"

record pg_client =
  pg_write :: pg_db
  pg_reads :: "pg_db list"
  pg_rr :: "64 word"

text \<open>\<open>read()\<close> and the primary.\<close>

definition pg_read :: "pg_client \<Rightarrow> pg_db \<times> pg_client" where
  "pg_read c =
     (if pg_reads c = [] then (pg_write c, c)
      else (let n = pg_rr c + 1
            in (pg_reads c ! unat (n mod of_nat (length (pg_reads c))), c\<lparr>pg_rr := n\<rparr>)))"

text \<open>The pools \<open>NewClient\<close> opens: a failing primary is an error, a failing replica is
  skipped.\<close>

definition pg_NewClient :: "(string \<Rightarrow> go_error + pg_db) \<Rightarrow> string \<Rightarrow> string list \<Rightarrow> go_error + pg_client" where
  "pg_NewClient newPool dsn replicaDSNs =
     (case newPool dsn of
        Inl _ \<Rightarrow> Inl (Errorf ''postgres primary'')
      | Inr primary \<Rightarrow> Inr \<lparr>pg_write = primary,
          pg_reads = concat (map (\<lambda>d. case newPool d of Inl _ \<Rightarrow> [] | Inr p \<Rightarrow> [p]) replicaDSNs),
          pg_rr = 0\<rparr>)"

type_synonym exec_result = "go_error option \<times> pg_db"

definition exec :: "pg_db \<Rightarrow> bool \<Rightarrow> (pg_db \<Rightarrow> pg_db) \<Rightarrow> exec_result" where
  "exec db ok f = (if db_up db \<and> ok then (None, f db) else (Some (Errorf ''postgres''), db))"

definition select :: "pg_db \<Rightarrow> 'a \<Rightarrow> go_error + 'a" where
  "select db rows = (if db_up db then Inr rows else Inl (Errorf ''postgres''))"

text \<open>\<open>QueryRow\<close> with \<open>Scan\<close>: no row is an error.\<close>

definition select_row :: "pg_db \<Rightarrow> string \<Rightarrow> 'a list \<Rightarrow> go_error + 'a" where
  "select_row db what rows = (if db_up db \<and> rows \<noteq> [] then Inr (hd rows) else Inl (Errorf what))"

definition coalesce :: "string \<Rightarrow> string \<Rightarrow> string" where
  "coalesce v old = (if v = [] then old else v)"

text \<open>\<open>ORDER BY created_at DESC\<close>.\<close>

definition newest_first :: "('a \<Rightarrow> int) \<Rightarrow> 'a list \<Rightarrow> 'a list" where
  "newest_first created rows = sort_key (\<lambda>r. - created r) rows"

section \<open>Applications and organisations\<close>

definition GetAppByAPIKey :: "pg_db \<Rightarrow> string \<Rightarrow> go_error + app" where
  "GetAppByAPIKey db apiKey =
     select_row db ''get app by api key'' (filter (\<lambda>a. app_APIKey a = apiKey \<and> app_Active a) (t_apps db))"

definition GetApp :: "pg_db \<Rightarrow> string \<Rightarrow> go_error + app" where
  "GetApp db appID = select_row db ''get app'' (filter (\<lambda>a. app_ID a = appID) (t_apps db))"

definition app_insertable :: "pg_db \<Rightarrow> app \<Rightarrow> bool" where
  "app_insertable db a \<longleftrightarrow> app_ID a \<notin> app_ID ` set (t_apps db) \<and> app_APIKey a \<notin> app_APIKey ` set (t_apps db)
     \<and> app_OrgID a \<in> org_ID ` set (t_orgs db)"

definition CreateApp :: "pg_db \<Rightarrow> app \<Rightarrow> exec_result" where
  "CreateApp db a = exec db (app_insertable db a) (\<lambda>db. db\<lparr>t_apps := t_apps db @ [a]\<rparr>)"

definition ListApps :: "pg_db \<Rightarrow> go_error + app list" where
  "ListApps db = select db (newest_first app_CreatedAt (filter app_Active (t_apps db)))"

definition update_app :: "string \<Rightarrow> (app \<Rightarrow> app) \<Rightarrow> pg_db \<Rightarrow> pg_db" where
  "update_app i f db = db\<lparr>t_apps := map (\<lambda>a. if app_ID a = i then f a else a) (t_apps db)\<rparr>"

definition UpdateApp :: "pg_db \<Rightarrow> string \<Rightarrow> string \<Rightarrow> f64 \<Rightarrow> int \<Rightarrow> exec_result" where
  "UpdateApp db i name rps burst = exec db True (update_app i (\<lambda>a. a
     \<lparr>app_Name := coalesce name (app_Name a),
      app_RPS := (if rps > 0 then rps else app_RPS a),
      app_Burst := (if burst > 0 then burst else app_Burst a)\<rparr>))"

definition DeactivateApp :: "pg_db \<Rightarrow> string \<Rightarrow> exec_result" where
  "DeactivateApp db i = exec db True (update_app i (\<lambda>a. a\<lparr>app_Active := False\<rparr>))"

text \<open>The new key must not be taken by another row.\<close>

definition RotateAPIKey :: "pg_db \<Rightarrow> string \<Rightarrow> string \<Rightarrow> exec_result" where
  "RotateAPIKey db appID newKey =
     exec db (\<forall>a \<in> set (t_apps db). app_APIKey a = newKey \<longrightarrow> app_ID a = appID \<or> appID \<notin> app_ID ` set (t_apps db))
       (update_app appID (\<lambda>a. a\<lparr>app_APIKey := newKey\<rparr>))"

definition plan_ok :: "string \<Rightarrow> bool" where
  "plan_ok p \<longleftrightarrow> p \<in> {''free'', ''growth'', ''enterprise''}"

definition org_insertable :: "pg_db \<Rightarrow> org \<Rightarrow> bool" where
  "org_insertable db r \<longleftrightarrow> org_ID r \<notin> org_ID ` set (t_orgs db) \<and> plan_ok (org_Plan r)"

text \<open>The transaction: three fresh ids, the two inserts, commit; any failure rolls back.
  The e-mail address is not stored.\<close>

definition CreateOrgAndApp ::
  "pg_db \<Rightarrow> string \<Rightarrow> string \<Rightarrow> string \<Rightarrow> int \<Rightarrow> string \<Rightarrow> string \<Rightarrow> string \<Rightarrow>
   (string \<times> string \<times> string \<times> go_error option) \<times> pg_db" where
  "CreateOrgAndApp db id1 id2 id3 now orgName appName email =
     (let apiKey = ''pk_live_'' @ take 32 id3;
          o1 = \<lparr>org_ID = id1, org_Name = orgName, org_Plan = ''free'', org_CreatedAt = now\<rparr>;
          a1 = \<lparr>app_ID = id2, app_OrgID = id1, app_Name = appName, app_APIKey = apiKey,
                app_RPS = 10000, app_Burst = 50000, app_Active = True, app_CreatedAt = now\<rparr>;
          db1 = db\<lparr>t_orgs := t_orgs db @ [o1]\<rparr>
      in if db_up db \<and> org_insertable db o1 \<and> app_insertable db1 a1
         then ((id1, id2, apiKey, None), db1\<lparr>t_apps := t_apps db1 @ [a1]\<rparr>)
         else ((id1, id2, apiKey, Some (Errorf ''postgres'')), db))"

definition ListOrgs :: "pg_db \<Rightarrow> go_error + org list" where
  "ListOrgs db = select db (newest_first org_CreatedAt (t_orgs db))"

definition CreateOrg :: "pg_db \<Rightarrow> org \<Rightarrow> exec_result" where
  "CreateOrg db r = exec db (org_insertable db r) (\<lambda>db. db\<lparr>t_orgs := t_orgs db @ [r]\<rparr>)"

definition UpdateOrg :: "pg_db \<Rightarrow> org \<Rightarrow> exec_result" where
  "UpdateOrg db r = exec db ((org_Plan r = [] \<or> plan_ok (org_Plan r)) \<or> org_ID r \<notin> org_ID ` set (t_orgs db))
     (\<lambda>db. db\<lparr>t_orgs := map (\<lambda>x. if org_ID x = org_ID r
        then x\<lparr>org_Name := coalesce (org_Name r) (org_Name x), org_Plan := coalesce (org_Plan r) (org_Plan x)\<rparr>
        else x) (t_orgs db)\<rparr>)"

section \<open>Funnels\<close>

definition ListFunnels :: "pg_db \<Rightarrow> string \<Rightarrow> go_error + funnel_definition list" where
  "ListFunnels db appID = select db (newest_first fd_CreatedAt (filter (\<lambda>f. fd_AppID f = appID) (t_funnels db)))"

definition UpsertFunnel :: "pg_db \<Rightarrow> funnel_definition \<Rightarrow> exec_result" where
  "UpsertFunnel db f = exec db (fd_AppID f \<in> app_ID ` set (t_apps db))
     (\<lambda>db. if fd_FunnelID f \<in> fd_FunnelID ` set (t_funnels db) then
        db\<lparr>t_funnels := map (\<lambda>x. if fd_FunnelID x = fd_FunnelID f
          then x\<lparr>fd_Name := fd_Name f, fd_Steps := fd_Steps f, fd_WindowSeconds := fd_WindowSeconds f\<rparr>
          else x) (t_funnels db)\<rparr>
      else db\<lparr>t_funnels := t_funnels db @ [f]\<rparr>)"

section \<open>Alert rules\<close>

definition condition_ok :: "string \<Rightarrow> bool" where
  "condition_ok c \<longleftrightarrow> c \<in> {''gt'', ''lt'', ''eq'', ''gte'', ''lte''}"

text \<open>A nil slice is written as \<open>NULL\<close>, which the column of the channels does not take.\<close>

definition ListAlertRules :: "pg_db \<Rightarrow> string \<Rightarrow> go_error + alert_rule list" where
  "ListAlertRules db appID = select db (filter (\<lambda>r. ar_AppID r = appID \<and> ar_Active r) (t_alerts db))"

definition CreateAlertRule :: "pg_db \<Rightarrow> alert_rule \<Rightarrow> exec_result" where
  "CreateAlertRule db r = exec db (ar_ID r \<notin> ar_ID ` set (t_alerts db) \<and> condition_ok (ar_Condition r)
       \<and> ar_Channels r \<noteq> None \<and> ar_AppID r \<in> app_ID ` set (t_apps db))
     (\<lambda>db. db\<lparr>t_alerts := t_alerts db @ [r]\<rparr>)"

definition UpdateAlertRule :: "pg_db \<Rightarrow> alert_rule \<Rightarrow> exec_result" where
  "UpdateAlertRule db r = exec db (condition_ok (ar_Condition r) \<and> ar_Channels r \<noteq> None \<or> ar_ID r \<notin> ar_ID ` set (t_alerts db))
     (\<lambda>db. db\<lparr>t_alerts := map (\<lambda>x. if ar_ID x = ar_ID r
        then r\<lparr>ar_AppID := ar_AppID x, ar_CreatedAt := ar_CreatedAt x\<rparr> else x) (t_alerts db)\<rparr>)"

definition DeleteAlertRule :: "pg_db \<Rightarrow> string \<Rightarrow> exec_result" where
  "DeleteAlertRule db i = exec db True (\<lambda>db. db\<lparr>t_alerts := filter (\<lambda>r. ar_ID r \<noteq> i) (t_alerts db)\<rparr>)"

section \<open>Cohorts and experiments\<close>

definition ListCohorts :: "pg_db \<Rightarrow> string \<Rightarrow> go_error + cohort_definition list" where
  "ListCohorts db appID = select db (newest_first co_CreatedAt (filter (\<lambda>c. co_AppID c = appID) (t_cohorts db)))"

definition CreateCohort :: "pg_db \<Rightarrow> cohort_definition \<Rightarrow> exec_result" where
  "CreateCohort db c = exec db (co_ID c \<notin> co_ID ` set (t_cohorts db) \<and> co_AppID c \<in> app_ID ` set (t_apps db))
     (\<lambda>db. db\<lparr>t_cohorts := t_cohorts db @ [c\<lparr>co_UserCount := 0\<rparr>]\<rparr>)"

definition DeleteCohort :: "pg_db \<Rightarrow> string \<Rightarrow> exec_result" where
  "DeleteCohort db i = exec db True (\<lambda>db. db\<lparr>t_cohorts := filter (\<lambda>c. co_ID c \<noteq> i) (t_cohorts db)\<rparr>)"

definition ListExperiments :: "pg_db \<Rightarrow> string \<Rightarrow> go_error + ab_experiment list" where
  "ListExperiments db appID = select db (newest_first ex_CreatedAt (filter (\<lambda>e. ex_AppID e = appID) (t_experiments db)))"

text \<open>The two migrations disagree on the statuses (\<open>completed\<close> or \<open>concluded\<close>) and on
  the columns; the model takes the second one, which the statements are written for.  That
  the variants are JSON text is not checked in the model.\<close>

definition status_ok :: "string \<Rightarrow> bool" where
  "status_ok s \<longleftrightarrow> s \<in> {''draft'', ''running'', ''paused'', ''concluded''}"

definition CreateExperiment :: "pg_db \<Rightarrow> ab_experiment \<Rightarrow> exec_result" where
  "CreateExperiment db e = exec db (ex_ID e \<notin> ex_ID ` set (t_experiments db) \<and> status_ok (ex_Status e)
       \<and> ex_AppID e \<in> app_ID ` set (t_apps db))
     (\<lambda>db. db\<lparr>t_experiments := t_experiments db @
        [e\<lparr>ex_Variants := Some (case ex_Variants e of None \<Rightarrow> ''[]'' | Some v \<Rightarrow> v),
           ex_StartAt := None, ex_EndAt := None\<rparr>]\<rparr>)"

definition UpdateExperiment :: "pg_db \<Rightarrow> ab_experiment \<Rightarrow> exec_result" where
  "UpdateExperiment db e = exec db (ex_Status e = [] \<or> status_ok (ex_Status e) \<or> ex_ID e \<notin> ex_ID ` set (t_experiments db))
     (\<lambda>db. db\<lparr>t_experiments := map (\<lambda>x. if ex_ID x = ex_ID e
        then x\<lparr>ex_Name := coalesce (ex_Name e) (ex_Name x), ex_Status := coalesce (ex_Status e) (ex_Status x),
               ex_GoalEvent := coalesce (ex_GoalEvent e) (ex_GoalEvent x)\<rparr>
        else x) (t_experiments db)\<rparr>)"

definition DeleteExperiment :: "pg_db \<Rightarrow> string \<Rightarrow> exec_result" where
  "DeleteExperiment db i = exec db True (\<lambda>db. db\<lparr>t_experiments := filter (\<lambda>e. ex_ID e \<noteq> i) (t_experiments db)\<rparr>)"

section \<open>Campaigns\<close>

definition campaign_ok :: "string \<Rightarrow> string \<Rightarrow> bool" where
  "campaign_ok trigger channel \<longleftrightarrow>
     trigger \<in> {''event'', ''funnel_drop'', ''session_end'', ''scheduled'', ''goal_reached''}
     \<and> channel \<in> {''webhook'', ''email'', ''push''}"

text \<open>The generated id is returned even when the insert fails.\<close>

definition CreateCampaign :: "pg_db \<Rightarrow> string \<Rightarrow> campaign \<Rightarrow> (string \<times> go_error option) \<times> pg_db" where
  "CreateCampaign db newID c =
     (let (err, db') = exec db (newID \<notin> ca_ID ` set (t_campaigns db)
            \<and> campaign_ok (ca_TriggerType c) (ca_Channel c) \<and> ca_AppID c \<in> app_ID ` set (t_apps db))
          (\<lambda>db. db\<lparr>t_campaigns := t_campaigns db @ [c\<lparr>ca_ID := newID\<rparr>]\<rparr>)
      in ((newID, err), db'))"

definition GetCampaign :: "pg_db \<Rightarrow> string \<Rightarrow> go_error + campaign" where
  "GetCampaign db i = select_row db ''get campaign'' (filter (\<lambda>c. ca_ID c = i) (t_campaigns db))"

definition update_campaign :: "string \<Rightarrow> (campaign \<Rightarrow> campaign) \<Rightarrow> pg_db \<Rightarrow> pg_db" where
  "update_campaign i f db = db\<lparr>t_campaigns := map (\<lambda>c. if ca_ID c = i then f c else c) (t_campaigns db)\<rparr>"

definition UpdateCampaign :: "pg_db \<Rightarrow> campaign \<Rightarrow> exec_result" where
  "UpdateCampaign db c = exec db
     (\<forall>x \<in> set (t_campaigns db). ca_ID x = ca_ID c \<longrightarrow>
        campaign_ok (coalesce (ca_TriggerType c) (ca_TriggerType x)) (coalesce (ca_Channel c) (ca_Channel x)))
     (update_campaign (ca_ID c) (\<lambda>x. x\<lparr>ca_Name := coalesce (ca_Name c) (ca_Name x),
        ca_TriggerType := coalesce (ca_TriggerType c) (ca_TriggerType x),
        ca_TriggerConf := ca_TriggerConf c, ca_Channel := coalesce (ca_Channel c) (ca_Channel x),
        ca_ChannelConf := ca_ChannelConf c\<rparr>))"

definition SetCampaignActive :: "pg_db \<Rightarrow> string \<Rightarrow> bool \<Rightarrow> exec_result" where
  "SetCampaignActive db i active = exec db True (update_campaign i (\<lambda>c. c\<lparr>ca_Active := active\<rparr>))"

definition GetActiveCampaignsByTrigger :: "pg_db \<Rightarrow> string \<Rightarrow> string \<Rightarrow> go_error + campaign list" where
  "GetActiveCampaignsByTrigger db appID topic = select db
     (filter (\<lambda>c. ca_AppID c = appID \<and> ca_Active c \<and> map_of (ca_TriggerConf c) ''topic'' = Some topic)
        (t_campaigns db))"

definition count_status :: "pg_db \<Rightarrow> string \<Rightarrow> string \<Rightarrow> int" where
  "count_status db cid st =
     int (length (filter (\<lambda>d. dl_CampaignID d = cid \<and> dl_Status d = st) (t_deliveries db)))"

definition GetCampaignStats :: "pg_db \<Rightarrow> string \<Rightarrow> go_error + campaign_stats" where
  "GetCampaignStats db campaignID =
     (if db_up db then
        (let sent = count_status db campaignID ''sent''; delivered = count_status db campaignID ''delivered'' in
         Inr \<lparr>cs_CampaignID = campaignID, cs_Sent = sent, cs_Delivered = delivered,
           cs_Failed = count_status db campaignID ''failed'',
           cs_OpenRate = (if sent > 0 then of_int delivered / of_int sent * 100 else 0),
           cs_ClickRate = 0\<rparr>)
      else Inl (Errorf ''campaign stats''))"

definition maskDSN :: "string \<Rightarrow> string" where
  "maskDSN dsn = (if length dsn > 20 then take 20 dsn @ ''...'' else dsn)"

section \<open>Integrity\<close>

definition wf_db :: "pg_db \<Rightarrow> bool" where
  "wf_db db \<longleftrightarrow> distinct (map org_ID (t_orgs db)) \<and> distinct (map app_ID (t_apps db))
     \<and> distinct (map app_APIKey (t_apps db)) \<and> app_OrgID ` set (t_apps db) \<subseteq> org_ID ` set (t_orgs db)
     \<and> list_all (\<lambda>r. plan_ok (org_Plan r)) (t_orgs db)"

lemma map_if_id: "(\<And>x. g (f x) = g x) \<Longrightarrow> map g (map (\<lambda>x. if P x then f x else x) xs) = map g xs"
  by (induction xs) auto

lemma image_map_if_id:
  assumes "\<And>x. g (f x) = g x"
  shows "g ` set (map (\<lambda>x. if P x then f x else x) xs) = g ` set xs"
  using map_if_id [of g f P xs, OF assms] by (metis set_map)

lemma exec_cases: "exec db ok f = (None, f db) \<and> db_up db \<and> ok \<or> exec db ok f = (Some (Errorf ''postgres''), db)"
  by (auto simp: exec_def)

lemma wf_update_app:
  assumes "wf_db db" "\<And>a. app_ID (f a) = app_ID a" "\<And>a. app_OrgID (f a) = app_OrgID a"
    "\<And>a. app_APIKey (f a) = app_APIKey a"
  shows "wf_db (update_app i f db)"
proof -
  have "app_OrgID ` set (map (\<lambda>a. if app_ID a = i then f a else a) (t_apps db)) = app_OrgID ` set (t_apps db)"
    by (rule image_map_if_id) (rule assms(3))
  then show ?thesis
    using assms map_if_id [of app_ID f] map_if_id [of app_APIKey f]
    by (simp add: wf_db_def update_app_def del: map_map)
qed

lemma distinct_keys_update:
  "distinct (map app_ID as) \<Longrightarrow> distinct (map app_APIKey as) \<Longrightarrow>
   \<forall>a \<in> set as. app_APIKey a = k \<longrightarrow> app_ID a = i \<Longrightarrow>
   distinct (map app_APIKey (map (\<lambda>a. if app_ID a = i then a\<lparr>app_APIKey := k\<rparr> else a) as))"
proof (induction as)
  case (Cons a as)
  have absent: "map (\<lambda>a. if app_ID a = i then a\<lparr>app_APIKey := k\<rparr> else a) as = as" if "app_ID a = i"
    using Cons.prems(1) that by (intro map_idI) (auto simp: image_iff)
  show ?case
  proof (cases "app_ID a = i")
    case True
    have "k \<notin> app_APIKey ` set as"
      using Cons.prems True by (auto simp: image_iff)
    then show ?thesis using Cons.prems True absent by simp
  next
    case False
    have "app_APIKey a \<noteq> k" using Cons.prems(3) False by auto
    then have "app_APIKey a \<notin> set (map app_APIKey (map (\<lambda>a. if app_ID a = i then a\<lparr>app_APIKey := k\<rparr> else a) as))"
      using Cons.prems(2) by (auto simp: image_iff split: if_splits)
    then show ?thesis using Cons.IH Cons.prems False
      by (simp del: map_map set_map)
  qed
qed simp

text \<open>The account statements.\<close>

datatype account_op =
    OpCreateApp app
  | OpUpdateApp string string f64 int
  | OpDeactivate string
  | OpRotate string string
  | OpRegister string string string int string string string
  | OpCreateOrg org
  | OpUpdateOrg org

fun run_account_op :: "account_op \<Rightarrow> pg_db \<Rightarrow> pg_db" where
  "run_account_op (OpCreateApp a) db = snd (CreateApp db a)"
| "run_account_op (OpUpdateApp i n r b) db = snd (UpdateApp db i n r b)"
| "run_account_op (OpDeactivate i) db = snd (DeactivateApp db i)"
| "run_account_op (OpRotate i k) db = snd (RotateAPIKey db i k)"
| "run_account_op (OpRegister i1 i2 i3 t on an em) db = snd (CreateOrgAndApp db i1 i2 i3 t on an em)"
| "run_account_op (OpCreateOrg r) db = snd (CreateOrg db r)"
| "run_account_op (OpUpdateOrg r) db = snd (UpdateOrg db r)"

lemma wf_account_op: "wf_db db \<Longrightarrow> wf_db (run_account_op op db)"
proof (cases op)
  case (OpRotate i k)
  assume wf: "wf_db db"
  have "app_OrgID ` set (map (\<lambda>a. if app_ID a = i then a\<lparr>app_APIKey := k\<rparr> else a) (t_apps db))
      = app_OrgID ` set (t_apps db)"
    by (rule image_map_if_id) simp
  moreover have "map app_ID (map (\<lambda>a. if app_ID a = i then a\<lparr>app_APIKey := k\<rparr> else a) (t_apps db))
      = map app_ID (t_apps db)"
    by (rule map_if_id) simp
  moreover have "distinct (map app_APIKey (map (\<lambda>a. if app_ID a = i then a\<lparr>app_APIKey := k\<rparr> else a) (t_apps db)))"
    if "\<forall>a \<in> set (t_apps db). app_APIKey a = k \<longrightarrow> app_ID a = i \<or> i \<notin> app_ID ` set (t_apps db)"
  proof (cases "i \<in> app_ID ` set (t_apps db)")
    case True
    then show ?thesis using wf that by (intro distinct_keys_update) (auto simp: wf_db_def)
  next
    case False
    then have "map (\<lambda>a. if app_ID a = i then a\<lparr>app_APIKey := k\<rparr> else a) (t_apps db) = t_apps db"
      by (intro map_idI) (auto simp: image_iff)
    then show ?thesis using wf by (simp add: wf_db_def)
  qed
  ultimately show ?thesis
    using wf OpRotate by (simp add: RotateAPIKey_def exec_def update_app_def wf_db_def del: map_map)
next
  case (OpUpdateOrg r)
  assume wf: "wf_db db"
  define f where "f = (\<lambda>x :: org. x\<lparr>org_Name := coalesce (org_Name r) (org_Name x), org_Plan := coalesce (org_Plan r) (org_Plan x)\<rparr>)"
  define rows where "rows = map (\<lambda>x. if org_ID x = org_ID r then f x else x) (t_orgs db)"
  have ids: "map org_ID rows = map org_ID (t_orgs db)"
    unfolding rows_def by (rule map_if_id) (simp add: f_def)
  then have set_ids: "org_ID ` set rows = org_ID ` set (t_orgs db)" by (metis set_map)
  have plans: "list_all (\<lambda>r. plan_ok (org_Plan r)) rows"
    if ok: "(org_Plan r = [] \<or> plan_ok (org_Plan r)) \<or> org_ID r \<notin> org_ID ` set (t_orgs db)"
  proof -
    have "org_Plan r = [] \<or> plan_ok (org_Plan r)" if "x \<in> set (t_orgs db)" "org_ID x = org_ID r" for x
      using ok that by (metis imageI)
    then show ?thesis using wf by (auto simp: rows_def wf_db_def list_all_iff f_def coalesce_def)
  qed
  have "run_account_op op db = db \<or> run_account_op op db = db\<lparr>t_orgs := rows\<rparr> \<and>
      ((org_Plan r = [] \<or> plan_ok (org_Plan r)) \<or> org_ID r \<notin> org_ID ` set (t_orgs db))"
    using OpUpdateOrg by (simp add: UpdateOrg_def exec_def rows_def f_def)
  then consider "run_account_op op db = db" | "run_account_op op db = db\<lparr>t_orgs := rows\<rparr>"
      "list_all (\<lambda>r. plan_ok (org_Plan r)) rows"
    using plans by blast
  then show ?thesis
    using wf ids set_ids by cases (simp_all add: wf_db_def)
next
  case (OpUpdateApp i n r b)
  assume "wf_db db"
  then show ?thesis using OpUpdateApp by (simp add: UpdateApp_def exec_def wf_update_app)
next
  case (OpDeactivate i)
  assume "wf_db db"
  then show ?thesis using OpDeactivate by (simp add: DeactivateApp_def exec_def wf_update_app)
qed (auto simp: CreateApp_def CreateOrg_def exec_def CreateOrgAndApp_def Let_def
      org_insertable_def app_insertable_def wf_db_def plan_ok_def)

section \<open>Properties\<close>

text \<open>Every sequence of account statements, each succeeding or failing, keeps the
  accounts sound: organisation ids, application ids and API keys stay unique, every
  application belongs to an organisation, every plan is a known one.\<close>

theorem accounts_stay_sound:
  assumes "wf_db db"
  shows "wf_db (foldl (\<lambda>db op. run_account_op op db) db ops)"
  using assms by (induction ops arbitrary: db) (simp_all add: wf_account_op)

theorem accounts_stay_sound_witness:
  "wf_db (foldl (\<lambda>db op. run_account_op op db) empty_db
     [OpRegister ''o'' ''a'' ''k'' 0 ''Acme'' ''App'' ''mail'', OpRotate ''a'' ''key''])"
  by (rule accounts_stay_sound) (simp add: empty_db_def wf_db_def)

lemma filter_key_unique:
  "distinct (map app_APIKey as) \<Longrightarrow> a \<in> set as \<Longrightarrow> app_Active a \<Longrightarrow>
   filter (\<lambda>b. app_APIKey b = app_APIKey a \<and> app_Active b) as = [a]"
proof (induction as)
  case (Cons b as)
  show ?case
  proof (cases "a = b")
    case True
    then show ?thesis using Cons.prems by (auto simp: filter_empty_conv image_iff)
  next
    case False
    then have "a \<in> set as" "app_APIKey b \<noteq> app_APIKey a" using Cons.prems by auto
    then show ?thesis using Cons by simp
  qed
qed simp

lemma GetAppByAPIKey_found:
  assumes "wf_db db" "db_up db" "a \<in> set (t_apps db)" "app_Active a"
  shows "GetAppByAPIKey db (app_APIKey a) = Inr a"
  using filter_key_unique [of "t_apps db" a] assms
  by (simp add: GetAppByAPIKey_def select_row_def wf_db_def)

text \<open>Rotating the key of an active application makes it known under the new key and
  unknown under the old one, for every other field unchanged.\<close>

theorem rotate_switches_key:
  assumes "wf_db db" "db_up db" "a \<in> set (t_apps db)" "app_Active a" "app_APIKey a \<noteq> newKey"
    "RotateAPIKey db (app_ID a) newKey = (None, db')"
  shows "GetAppByAPIKey db' newKey = Inr (a\<lparr>app_APIKey := newKey\<rparr>)
     \<and> GetAppByAPIKey db' (app_APIKey a) = Inl (Errorf ''get app by api key'')"
proof -
  have db': "db' = update_app (app_ID a) (\<lambda>a. a\<lparr>app_APIKey := newKey\<rparr>) db"
    using assms(6) by (auto simp: RotateAPIKey_def exec_def split: if_splits)
  have wf': "wf_db db'"
    using wf_account_op [OF assms(1), of "OpRotate (app_ID a) newKey"] assms(6) by simp
  have mem: "a\<lparr>app_APIKey := newKey\<rparr> \<in> set (t_apps db')"
    using assms(3) by (auto simp: db' update_app_def image_iff)
  have up: "db_up db'" using assms(2) by (simp add: db' update_app_def)
  from GetAppByAPIKey_found [OF wf' up mem] assms(4)
  have new: "GetAppByAPIKey db' newKey = Inr (a\<lparr>app_APIKey := newKey\<rparr>)" by simp
  have "distinct (map app_APIKey (t_apps db))" using assms(1) by (simp add: wf_db_def)
  then have "b = a" if "b \<in> set (t_apps db)" "app_APIKey b = app_APIKey a" for b
    using assms(3) that by (auto simp: distinct_map dest: inj_onD)
  then have "filter (\<lambda>b. app_APIKey b = app_APIKey a \<and> app_Active b) (t_apps db') = []"
    using assms(5) by (auto simp: db' update_app_def filter_empty_conv split: if_splits)
  with new show ?thesis by (simp add: GetAppByAPIKey_def select_row_def)
qed

definition demo_app :: app where
  "demo_app = \<lparr>app_ID = ''a'', app_OrgID = ''o'', app_Name = ''App'', app_APIKey = ''old'',
     app_RPS = 10, app_Burst = 10, app_Active = True, app_CreatedAt = 0\<rparr>"

definition demo_db :: pg_db where
  "demo_db = empty_db\<lparr>t_orgs := [\<lparr>org_ID = ''o'', org_Name = ''Acme'', org_Plan = ''free'', org_CreatedAt = 0\<rparr>],
     t_apps := [demo_app]\<rparr>"

lemma demo_db_wf: "wf_db demo_db" "db_up demo_db" "demo_app \<in> set (t_apps demo_db)"
  by (simp_all add: demo_db_def empty_db_def wf_db_def demo_app_def plan_ok_def)

theorem rotate_switches_key_witness:
  "GetAppByAPIKey (snd (RotateAPIKey demo_db ''a'' ''new'')) ''new'' = Inr (demo_app\<lparr>app_APIKey := ''new''\<rparr>)
   \<and> GetAppByAPIKey (snd (RotateAPIKey demo_db ''a'' ''new'')) ''old'' = Inl (Errorf ''get app by api key'')"
proof -
  have "RotateAPIKey demo_db (app_ID demo_app) ''new'' = (None, snd (RotateAPIKey demo_db ''a'' ''new''))"
    by (simp add: RotateAPIKey_def exec_def demo_db_def empty_db_def demo_app_def)
  from rotate_switches_key [OF demo_db_wf _ _ this] show ?thesis
    by (simp add: demo_app_def)
qed

end
