(* ===== verification/Auth.thy ===== *)
theory Auth
  imports Http Redis RateLimit Postgres
begin

text \<open>
  Packages \<open>internal/auth\<close> and \<open>cmd/authservice\<close>: API keys validated against Postgres
  behind a Redis cache, JWTs, the two middlewares and the handlers of the auth service.
  The JWT library is the parameter \<open>jwt_lib\<close>; what the code relies on is \<open>jwt_laws\<close>.
  Instants are nanoseconds; the numeric dates of a token are seconds.  Random bytes, fresh
  ids and the text of an instant are arguments.
\<close>

record claims =
  cl_OrgID :: string
  cl_AppID :: string
  cl_Role :: string
  cl_ExpiresAt :: int
  cl_IssuedAt :: int
  cl_Issuer :: string

text \<open>\<open>jwt_Sign\<close> signs with HS256; \<open>jwt_Parse\<close> takes the key function, from the name of
  the token's algorithm to a key, and the time of the call.\<close>

record jwt_lib =
  jwt_Sign :: "string \<Rightarrow> claims \<Rightarrow> go_error + string"
  jwt_Parse :: "(string \<Rightarrow> go_error + string) \<Rightarrow> int \<Rightarrow> string \<Rightarrow> go_error + claims"

definition jwt_laws :: "jwt_lib \<Rightarrow> bool" where
  "jwt_laws J \<longleftrightarrow> (\<forall>secret c tok kf now. jwt_Sign J secret c = Inr tok \<longrightarrow> kf ''HS256'' = Inr secret \<longrightarrow>
     jwt_Parse J kf now tok = (if now < cl_ExpiresAt c * 1000000000 then Inr c else Inl (Errorf ''token is expired'')))"

record auth_config =
  ac_APIKeyCacheTTL :: int
  ac_JWTExpiry :: int
  ac_JWTSecret :: string

text \<open>The JSON of an application in the cache, by its struct tags; an instant's text is
  represented by the instant.\<close>

definition app_model_fields :: "app \<Rightarrow> (string \<times> json option) list" where
  "app_model_fields a =
     [(''id'', fstr (app_ID a)), (''org_id'', fstr (app_OrgID a)), (''name'', fstr (app_Name a)),
      (''api_key'', fstr (app_APIKey a)), (''rps'', Some (JNum (app_RPS a))),
      (''burst'', fint (app_Burst a)), (''active'', Some (JBool (app_Active a))),
      (''created_at'', fint (app_CreatedAt a))]"

definition encode_app_model :: "app \<Rightarrow> json option" where
  "encode_app_model a = Some (JObj (obj_fields (app_model_fields a)))"

definition decode_app_model :: "json \<Rightarrow> app option" where
  "decode_app_model j = do {
     m \<leftarrow> jobj j;
     i \<leftarrow> to_string [] (jvals ''id'' m); oi \<leftarrow> to_string [] (jvals ''org_id'' m);
     n \<leftarrow> to_string [] (jvals ''name'' m); k \<leftarrow> to_string [] (jvals ''api_key'' m);
     r \<leftarrow> to_float 0 (jvals ''rps'' m); b \<leftarrow> to_int 0 (jvals ''burst'' m);
     a \<leftarrow> to_bool False (jvals ''active'' m); c \<leftarrow> to_int 0 (jvals ''created_at'' m);
     Some \<lparr>app_ID = i, app_OrgID = oi, app_Name = n, app_APIKey = k, app_RPS = r, app_Burst = b,
       app_Active = a, app_CreatedAt = c\<rparr> }"

definition wf_app :: "app \<Rightarrow> bool" where
  "wf_app a \<longleftrightarrow> in_i64 (app_Burst a) \<and> in_i64 (app_CreatedAt a)"

lemma wf_app_model_fields: "wf_fields (app_model_fields a)"
  unfolding wf_fields_def app_model_fields_def by (simp add: to_lower_def to_lower_char_def)

lemma to_scalar_vals [simp]:
  "to_float z (vals_of (Some (Some (JNum q)))) = Some q"
  "to_bool z' (vals_of (Some (Some (JBool b)))) = Some b"
  by (simp_all add: vals_of_def)

lemma app_model_roundtrip:
  "wf_app a \<Longrightarrow> \<exists>v. encode_app_model a = Some v \<and> decode_app_model v = Some a"
  unfolding decode_app_model_def encode_app_model_def wf_app_def
  by (simp add: jobj_def jvals_obj_fields [OF wf_app_model_fields])
    (simp add: app_model_fields_def wire_simps)

section \<open>The auth package\<close>

definition auth_cache_key :: "string \<Rightarrow> string" where
  "auth_cache_key apiKey = ''auth:key:'' @ apiKey"

definition ValidateAPIKey ::
  "('s, json) redis \<Rightarrow> auth_config \<Rightarrow> int \<Rightarrow> string \<Rightarrow> 's \<times> pg_client \<Rightarrow> (go_error + app) \<times> 's \<times> pg_client" where
  "ValidateAPIKey R cfg now apiKey st =
     (case st of (s, pg) \<Rightarrow>
       case redis_GetJSON R decode_app_model s now (auth_cache_key apiKey) of
         Inr a \<Rightarrow> (if app_Active a then Inr a else Inl ErrInvalidAPIKey, s, pg)
       | Inl _ \<Rightarrow>
           (case pg_read pg of (db, pg') \<Rightarrow>
             case GetAppByAPIKey db apiKey of
               Inl _ \<Rightarrow> (Inl ErrInvalidAPIKey, s, pg')
             | Inr fetched \<Rightarrow>
                 (Inr fetched,
                  snd (redis_SetJSON R encode_app_model s now (auth_cache_key apiKey) fetched (ac_APIKeyCacheTTL cfg)),
                  pg')))"

definition GenerateToken :: "jwt_lib \<Rightarrow> auth_config \<Rightarrow> int \<Rightarrow> string \<Rightarrow> string \<Rightarrow> string \<Rightarrow> go_error + string" where
  "GenerateToken J cfg now orgID appID role =
     jwt_Sign J (ac_JWTSecret cfg)
       \<lparr>cl_OrgID = orgID, cl_AppID = appID, cl_Role = role,
        cl_ExpiresAt = (now + ac_JWTExpiry cfg) div 1000000000, cl_IssuedAt = now div 1000000000,
        cl_Issuer = ''pulse-analytics''\<rparr>"

definition hmac_key :: "string \<Rightarrow> string \<Rightarrow> go_error + string" where
  "hmac_key secret alg =
     (if alg \<in> {''HS256'', ''HS384'', ''HS512''} then Inr secret else Inl (Errorf ''unexpected signing method''))"

definition ValidateToken :: "jwt_lib \<Rightarrow> auth_config \<Rightarrow> int \<Rightarrow> string \<Rightarrow> go_error + claims" where
  "ValidateToken J cfg now tokenStr =
     (case jwt_Parse J (hmac_key (ac_JWTSecret cfg)) now tokenStr of
        Inl _ \<Rightarrow> Inl ErrUnauthorized
      | Inr c \<Rightarrow> Inr c)"

definition maskKey :: "string \<Rightarrow> string" where
  "maskKey key = (if length key > 8 then take 4 key @ ''****'' @ drop (length key - 4) key else ''****'')"

section \<open>Middlewares\<close>

text \<open>A middleware either answers itself or hands the request on with the application, or
  the claims, in its context.\<close>

datatype 'a gate = Answer response | Pass 'a

record 's auth_state =
  as_redis :: 's
  as_pg :: pg_client

definition retry_after :: "response \<Rightarrow> response" where
  "retry_after r = r\<lparr>rs_headers := (''Retry-After'', ''1'') # rs_headers r\<rparr>"

text \<open>\<open>rl\<close> is the limiter, \<open>None\<close> when nil; the limiter's seconds are those of \<open>now\<close>.\<close>

definition APIKeyMiddleware ::
  "('s, json) redis \<Rightarrow> 'l rate_lib \<Rightarrow> bool \<Rightarrow> auth_config \<Rightarrow> int \<Rightarrow> request \<Rightarrow>
   's \<times> pg_client \<Rightarrow> 'l limiter option \<Rightarrow> app gate \<times> ('s \<times> pg_client) \<times> 'l limiter option" where
  "APIKeyMiddleware R RL reachable cfg now r st rl =
     (let apiKey = rq_header r ''X-API-Key'' in
      if apiKey = [] then (Answer (http_Error ''missing X-API-Key header'' 401), st, rl)
      else (case ValidateAPIKey R cfg now apiKey st of
          (Inl _, st') \<Rightarrow> (Answer (http_Error ''invalid api key'' 401), st', rl)
        | (Inr a, st') \<Rightarrow>
            (case rl of
               None \<Rightarrow> (Pass a, st', rl)
             | Some l \<Rightarrow>
                 (let (allowed, l') = limiter_Allow RL reachable (of_int now / 1000000000) (app_ID a) (app_RPS a) (app_Burst a) l
                  in (if allowed then Pass a else Answer (retry_after (http_Error ''rate limit exceeded'' 429)),
                      st', Some l')))))"

definition JWTMiddleware :: "jwt_lib \<Rightarrow> auth_config \<Rightarrow> int \<Rightarrow> request \<Rightarrow> claims gate" where
  "JWTMiddleware J cfg now r =
     (case cut_prefix (rq_header r ''Authorization'') ''Bearer '' of
        None \<Rightarrow> Answer (http_Error ''missing bearer token'' 401)
      | Some tokenStr \<Rightarrow>
          (case ValidateToken J cfg now tokenStr of
             Inl _ \<Rightarrow> Answer (http_Error ''invalid token'' 401)
           | Inr c \<Rightarrow> Pass c))"

section \<open>The auth service\<close>

definition hex_digit :: "nat \<Rightarrow> char" where
  "hex_digit d = (if d < 10 then char_of (48 + d) else char_of (87 + d))"

definition hex_encode :: "nat list \<Rightarrow> string" where
  "hex_encode bs = concat (map (\<lambda>b. [hex_digit (b div 16), hex_digit (b mod 16)]) bs)"

text \<open>\<open>rnd\<close> is what \<open>rand.Read\<close> delivers, \<open>None\<close> when it fails.\<close>

definition generateAPIKey :: "nat list option \<Rightarrow> go_error + string" where
  "generateAPIKey rnd = (case rnd of None \<Rightarrow> Inl (Errorf ''rand'') | Some b \<Rightarrow> Inr (''pk_live_'' @ hex_encode b))"

definition extractBearer :: "request \<Rightarrow> string" where
  "extractBearer r = (case cut_prefix (rq_header r ''Authorization'') ''Bearer '' of Some after \<Rightarrow> after | None \<Rightarrow> [])"

definition auth_register ::
  "jwt_lib \<Rightarrow> auth_config \<Rightarrow> (int \<Rightarrow> string) \<Rightarrow> int \<Rightarrow> string \<times> string \<times> string \<Rightarrow> request \<Rightarrow> pg_client \<Rightarrow> response \<times> pg_client" where
  "auth_register J cfg rfc3339 now ids r pg =
     (case (body_string (rq_body r) ''org_name'', body_string (rq_body r) ''app_name'', body_string (rq_body r) ''email'') of
        (Some orgName, Some appName, Some email) \<Rightarrow>
          if orgName = [] \<or> email = [] then (writeError 400 ''org_name and email are required'', pg)
          else (case CreateOrgAndApp (pg_write pg) (fst ids) (fst (snd ids)) (snd (snd ids)) now orgName
                  (if appName = [] then orgName @ '' App'' else appName) email of
              ((orgID, appID, apiKey, Some _), db) \<Rightarrow> (writeError 500 ''registration failed'', pg\<lparr>pg_write := db\<rparr>)
            | ((orgID, appID, apiKey, None), db) \<Rightarrow>
                (case GenerateToken J cfg now orgID appID ''admin'' of
                   Inl _ \<Rightarrow> (writeError 500 ''token generation failed'', pg\<lparr>pg_write := db\<rparr>)
                 | Inr token \<Rightarrow> (writeJSON 201 (jmap [(''org_id'', orgID), (''app_id'', appID),
                      (''api_key'', apiKey), (''token'', token), (''expires'', rfc3339 (now + ac_JWTExpiry cfg))]),
                      pg\<lparr>pg_write := db\<rparr>)))
      | _ \<Rightarrow> (writeError 400 ''org_name and email are required'', pg))"

definition auth_token ::
  "('s, json) redis \<Rightarrow> jwt_lib \<Rightarrow> auth_config \<Rightarrow> (int \<Rightarrow> string) \<Rightarrow> int \<Rightarrow> request \<Rightarrow> 's \<times> pg_client \<Rightarrow> response \<times> 's \<times> pg_client" where
  "auth_token R J cfg rfc3339 now r st =
     (case body_string (rq_body r) ''api_key'' of
        None \<Rightarrow> (writeError 400 ''api_key required'', st)
      | Some k \<Rightarrow>
          if k = [] then (writeError 400 ''api_key required'', st)
          else (case ValidateAPIKey R cfg now k st of
              (Inl _, st') \<Rightarrow> (writeError 401 ''invalid api_key'', st')
            | (Inr a, st') \<Rightarrow>
                (case GenerateToken J cfg now (app_OrgID a) (app_ID a) ''admin'' of
                   Inl _ \<Rightarrow> (writeError 500 ''token generation failed'', st')
                 | Inr token \<Rightarrow> (writeJSON 200 (jmap [(''token'', token), (''org_id'', app_OrgID a),
                      (''app_id'', app_ID a), (''expires'', rfc3339 (now + ac_JWTExpiry cfg))]), st'))))"

definition auth_refresh :: "jwt_lib \<Rightarrow> auth_config \<Rightarrow> (int \<Rightarrow> string) \<Rightarrow> int \<Rightarrow> request \<Rightarrow> response" where
  "auth_refresh J cfg rfc3339 now r =
     (let tokenStr = extractBearer r in
      if tokenStr = [] then writeError 401 ''missing Bearer token''
      else (case ValidateToken J cfg now tokenStr of
          Inl _ \<Rightarrow> writeError 401 ''invalid or expired token''
        | Inr c \<Rightarrow>
            (case GenerateToken J cfg now (cl_OrgID c) (cl_AppID c) (cl_Role c) of
               Inl _ \<Rightarrow> writeError 500 ''token refresh failed''
             | Inr newToken \<Rightarrow> writeJSON 200 (jmap [(''token'', newToken), (''org_id'', cl_OrgID c),
                 (''app_id'', cl_AppID c), (''expires'', rfc3339 (now + ac_JWTExpiry cfg))]))))"

text \<open>Behind \<open>JWTMiddleware\<close>; a token that expires between the two checks makes
  \<open>claims\<close> nil, and its use panics (\<open>None\<close>).\<close>

definition auth_validate :: "jwt_lib \<Rightarrow> auth_config \<Rightarrow> (int \<Rightarrow> string) \<Rightarrow> int \<Rightarrow> request \<Rightarrow> response option" where
  "auth_validate J cfg rfc3339 now r =
     (case ValidateToken J cfg now (extractBearer r) of
        Inl _ \<Rightarrow> None
      | Inr c \<Rightarrow> Some (writeJSON 200 (JObj [(''valid'', JBool True), (''org_id'', JStr (cl_OrgID c)),
          (''app_id'', JStr (cl_AppID c)), (''role'', JStr (cl_Role c)),
          (''expires'', JStr (rfc3339 (cl_ExpiresAt c * 1000000000)))])))"

definition rotateAPIKey :: "nat list option \<Rightarrow> request \<Rightarrow> pg_client \<Rightarrow> response \<times> pg_client" where
  "rotateAPIKey rnd r pg =
     (case body_string (rq_body r) ''app_id'' of
        None \<Rightarrow> (writeError 400 ''app_id required'', pg)
      | Some appID \<Rightarrow>
          if appID = [] then (writeError 400 ''app_id required'', pg)
          else (case generateAPIKey rnd of
              Inl _ \<Rightarrow> (writeError 500 ''key generation failed'', pg)
            | Inr newKey \<Rightarrow>
                (case RotateAPIKey (pg_write pg) appID newKey of
                   (Some _, db) \<Rightarrow> (writeError 500 ''rotation failed'', pg\<lparr>pg_write := db\<rparr>)
                 | (None, db) \<Rightarrow> (writeJSON 200 (jmap [(''app_id'', appID), (''api_key'', newKey)]), pg\<lparr>pg_write := db\<rparr>))))"

text \<open>The route \<open>POST /v1/auth/apikey/rotate\<close>.\<close>

definition route_rotate ::
  "jwt_lib \<Rightarrow> auth_config \<Rightarrow> int \<Rightarrow> nat list option \<Rightarrow> request \<Rightarrow> pg_client \<Rightarrow> response \<times> pg_client" where
  "route_rotate J cfg now rnd r pg =
     (case JWTMiddleware J cfg now r of
        Answer resp \<Rightarrow> (resp, pg)
      | Pass c \<Rightarrow> rotateAPIKey rnd r pg)"

section \<open>Properties\<close>

lemma ValidateAPIKey_cached:
  assumes "redis_GetJSON R decode_app_model s now (auth_cache_key k) = Inr a" "app_Active a"
  shows "ValidateAPIKey R cfg now k (s, pg) = (Inr a, s, pg)"
  using assms by (simp add: ValidateAPIKey_def)

lemma SetJSON_cached:
  assumes "redis_kv R" "\<forall>s t k v ttl. fst (raw_Set R s t k v ttl) = None" "wf_app a" "t0 \<le> t" "t < t0 + ttl"
  shows "redis_GetJSON R decode_app_model (snd (redis_SetJSON R encode_app_model s t0 key a ttl)) t key = Inr a"
proof -
  obtain v where v: "encode_app_model a = Some v" "decode_app_model v = Some a"
    using app_model_roundtrip [OF assms(3)] by blast
  obtain s' where s': "raw_Set R s t0 key v ttl = (None, s')"
    using assms(2) by (metis prod.collapse)
  then have "raw_Get R s' t key = Inr v"
    using assms(1,4,5) unfolding redis_kv_def by metis
  then show ?thesis using v s' by (simp add: redis_SetJSON_def redis_GetJSON_def)
qed

text \<open>The cache outlives the key: once a key has been validated from the database, the
  key is accepted until the cache entry expires whatever happens to the application
  meanwhile, a rotation that the service reports as done included.\<close>

theorem cached_key_survives:
  assumes "redis_kv R" "\<forall>s t k v ttl. fst (raw_Set R s t k v ttl) = None" "wf_app a"
    "redis_GetJSON R decode_app_model s t0 (auth_cache_key k) = Inl ErrNotFound"
    "GetAppByAPIKey (fst (pg_read pg)) k = Inr a" "app_Active a"
    "t0 \<le> t" "t < t0 + ac_APIKeyCacheTTL cfg"
  shows "fst (ValidateAPIKey R cfg t0 k (s, pg)) = Inr a \<and>
     (\<forall>pg'. ValidateAPIKey R cfg t k (fst (snd (ValidateAPIKey R cfg t0 k (s, pg))), pg') =
        (Inr a, fst (snd (ValidateAPIKey R cfg t0 k (s, pg))), pg'))"
proof -
  have first: "ValidateAPIKey R cfg t0 k (s, pg) = (Inr a,
      snd (redis_SetJSON R encode_app_model s t0 (auth_cache_key k) a (ac_APIKeyCacheTTL cfg)), snd (pg_read pg))"
    using assms(4,5) by (cases "pg_read pg") (simp add: ValidateAPIKey_def)
  from SetJSON_cached [OF assms(1-3,7,8)] show ?thesis
    by (simp add: first ValidateAPIKey_cached assms(6))
qed

definition demo_pg :: pg_client where
  "demo_pg = \<lparr>pg_write = demo_db, pg_reads = [], pg_rr = 0\<rparr>"

definition demo_cfg :: auth_config where
  "demo_cfg = \<lparr>ac_APIKeyCacheTTL = 300, ac_JWTExpiry = 3600000000000, ac_JWTSecret = ''s''\<rparr>"

theorem cached_key_survives_witness:
  "fst (ValidateAPIKey mem_redis demo_cfg 299 ''old''
      (fst (snd (ValidateAPIKey mem_redis demo_cfg 0 ''old'' (mem_empty, demo_pg))),
       demo_pg\<lparr>pg_write := snd (RotateAPIKey demo_db ''a'' ''new'')\<rparr>)) = Inr demo_app"
proof -
  have up: "\<forall>s t k v ttl. fst (raw_Set (mem_redis :: (json mem, json) redis) s t k v ttl) = None"
    by (simp add: mem_redis_def)
  have wf: "wf_app demo_app" by (simp add: wf_app_def demo_app_def in_i64_def)
  have "redis_GetJSON mem_redis decode_app_model mem_empty 0 (auth_cache_key ''old'') = Inl ErrNotFound"
    by (simp add: redis_GetJSON_def mem_redis_def mem_get_def mem_empty_def)
  moreover have "GetAppByAPIKey (fst (pg_read demo_pg)) ''old'' = Inr demo_app"
    by (simp add: pg_read_def demo_pg_def GetAppByAPIKey_def select_row_def demo_db_def empty_db_def demo_app_def)
  ultimately show ?thesis
    using cached_key_survives [OF mem_redis_kv up wf, of mem_empty 0 "''old''" demo_pg 299 demo_cfg]
    by (simp add: demo_app_def demo_cfg_def)
qed

text \<open>C23: the ingest gate: a request reaches the handler only with an API key that
  validates, with that key's application, and only if the application's bucket allows it;
  otherwise the answer is 401 or 429.\<close>

theorem api_gate:
  "case APIKeyMiddleware R RL reachable cfg now r st (Some l) of (g, st', rl') \<Rightarrow>
     (case g of
        Pass a \<Rightarrow> rq_header r ''X-API-Key'' \<noteq> []
          \<and> fst (ValidateAPIKey R cfg now (rq_header r ''X-API-Key'') st) = Inr a
          \<and> fst (limiter_Allow RL reachable (of_int now / 1000000000) (app_ID a) (app_RPS a) (app_Burst a) l)
      | Answer resp \<Rightarrow>
          (rs_status resp = 401 \<and> rl' = Some l
             \<and> (rq_header r ''X-API-Key'' = [] \<or>
                isl (fst (ValidateAPIKey R cfg now (rq_header r ''X-API-Key'') st))))
        \<or> (rs_status resp = 429 \<and>
             (\<exists>a. fst (ValidateAPIKey R cfg now (rq_header r ''X-API-Key'') st) = Inr a
                \<and> \<not> fst (limiter_Allow RL reachable (of_int now / 1000000000) (app_ID a) (app_RPS a) (app_Burst a) l))))"
  by (auto simp: APIKeyMiddleware_def Let_def retry_after_def split: sum.splits prod.splits)

lemma ValidateToken_generated:
  assumes "jwt_laws J" "GenerateToken J cfg t0 org appID role = Inr tok"
  shows "ValidateToken J cfg t tok =
    (if t < (t0 + ac_JWTExpiry cfg) div 1000000000 * 1000000000
     then Inr \<lparr>cl_OrgID = org, cl_AppID = appID, cl_Role = role,
        cl_ExpiresAt = (t0 + ac_JWTExpiry cfg) div 1000000000, cl_IssuedAt = t0 div 1000000000,
        cl_Issuer = ''pulse-analytics''\<rparr>
     else Inl ErrUnauthorized)"
  using assms unfolding jwt_laws_def GenerateToken_def ValidateToken_def
  by (fastforce simp: hmac_key_def)

definition bearer :: "string \<Rightarrow> request \<Rightarrow> request" where
  "bearer tok r = r\<lparr>rq_header := (rq_header r)(''Authorization'' := ''Bearer '' @ tok)\<rparr>"

text \<open>C24: a token issued at \<open>t0\<close> passes the JWT middleware, with the organisation,
  application and role it was issued for, until its expiry in whole seconds, and is refused
  afterwards.\<close>

theorem token_lifetime:
  assumes "jwt_laws J" "GenerateToken J cfg t0 org appID role = Inr tok"
  shows "case JWTMiddleware J cfg t (bearer tok r) of
      Pass c \<Rightarrow> t < (t0 + ac_JWTExpiry cfg) div 1000000000 * 1000000000
        \<and> (cl_OrgID c, cl_AppID c, cl_Role c) = (org, appID, role)
    | Answer resp \<Rightarrow> (t0 + ac_JWTExpiry cfg) div 1000000000 * 1000000000 \<le> t \<and> rs_status resp = 401"
proof -
  have "cut_prefix (rq_header (bearer tok r) ''Authorization'') ''Bearer '' = Some tok"
    using cut_prefix_append [of "''Bearer ''" tok] by (simp add: bearer_def)
  then show ?thesis
    using ValidateToken_generated [OF assms, of t] by (simp add: JWTMiddleware_def)
qed

text \<open>A signature scheme that writes the claims out.\<close>

definition plain_claims :: "string \<Rightarrow> claims" where
  "plain_claims tok = \<lparr>cl_OrgID = ''o'', cl_AppID = ''b'', cl_Role = ''admin'',
     cl_ExpiresAt = 3600, cl_IssuedAt = 0, cl_Issuer = ''pulse-analytics''\<rparr>"

definition demo_jwt :: jwt_lib where
  "demo_jwt = \<lparr>jwt_Sign = \<lambda>secret c. if c = plain_claims [] then Inr (''t'' @ secret) else Inl (Errorf ''sign''),
     jwt_Parse = \<lambda>kf now tok. case kf ''HS256'' of
         Inl e \<Rightarrow> Inl e
       | Inr secret \<Rightarrow> if tok = ''t'' @ secret then
           (if now < 3600 * 1000000000 then Inr (plain_claims []) else Inl (Errorf ''token is expired''))
         else Inl (Errorf ''signature'')\<rparr>"

lemma demo_jwt_laws: "jwt_laws demo_jwt"
  by (auto simp: jwt_laws_def demo_jwt_def plain_claims_def split: if_splits)

lemma demo_token: "GenerateToken demo_jwt demo_cfg 0 ''o'' ''b'' ''admin'' = Inr ''ts''"
  by (simp add: GenerateToken_def demo_jwt_def demo_cfg_def plain_claims_def)

definition blank_request :: request where
  "blank_request = \<lparr>rq_header = \<lambda>_. [], rq_body = None, rq_remote = []\<rparr>"

theorem token_lifetime_witness:
  "case JWTMiddleware demo_jwt demo_cfg 5 (bearer ''ts'' blank_request) of
      Pass c \<Rightarrow> (cl_OrgID c, cl_AppID c, cl_Role c) = (''o'', ''b'', ''admin'')
    | Answer resp \<Rightarrow> rs_status resp = 401"
  using token_lifetime [OF demo_jwt_laws demo_token, of 5 blank_request]
  by (auto split: gate.splits)

lemma rotate_account:
  assumes "wf_db db" "db_up db" "a \<in> set (t_apps db)" "newKey \<notin> app_APIKey ` set (t_apps db)"
  shows "\<exists>db'. RotateAPIKey db (app_ID a) newKey = (None, db')
    \<and> a\<lparr>app_APIKey := newKey\<rparr> \<in> set (t_apps db') \<and> a \<notin> set (t_apps db')"
proof -
  have "a \<noteq> b\<lparr>app_APIKey := newKey\<rparr>" for b
    using assms(3,4) by (metis app.select_convs(4) app.surjective app.update_convs(4) imageI)
  then show ?thesis
    using assms by (auto simp: RotateAPIKey_def exec_def update_app_def image_iff)
qed

text \<open>Rotation does not look at its caller: with a valid token for any application,
  a request naming another one replaces that application's key and returns the new
  one.\<close>

theorem rotate_ignores_caller:
  assumes "jwt_laws J" "GenerateToken J cfg t0 orgB appB role = Inr tok"
    "t < (t0 + ac_JWTExpiry cfg) div 1000000000 * 1000000000"
    "wf_db (pg_write pg)" "db_up (pg_write pg)" "a \<in> set (t_apps (pg_write pg))" "app_ID a \<noteq> []"
    "body_string (rq_body r) ''app_id'' = Some (app_ID a)"
    "generateAPIKey rnd = Inr newKey" "newKey \<notin> app_APIKey ` set (t_apps (pg_write pg))"
  shows "\<exists>pg'. route_rotate J cfg t rnd (bearer tok r) pg =
      (writeJSON 200 (jmap [(''app_id'', app_ID a), (''api_key'', newKey)]), pg')
    \<and> a\<lparr>app_APIKey := newKey\<rparr> \<in> set (t_apps (pg_write pg')) \<and> a \<notin> set (t_apps (pg_write pg'))"
proof -
  have "cut_prefix (rq_header (bearer tok r) ''Authorization'') ''Bearer '' = Some tok"
    using cut_prefix_append [of "''Bearer ''" tok] by (simp add: bearer_def)
  then have "\<exists>c. JWTMiddleware J cfg t (bearer tok r) = Pass c"
    using ValidateToken_generated [OF assms(1,2), of t] assms(3) by (simp add: JWTMiddleware_def)
  then have route: "route_rotate J cfg t rnd (bearer tok r) pg = rotateAPIKey rnd (bearer tok r) pg"
    by (auto simp: route_rotate_def)
  have body: "rq_body (bearer tok r) = rq_body r" by (simp add: bearer_def)
  obtain db' where "RotateAPIKey (pg_write pg) (app_ID a) newKey = (None, db')"
    "a\<lparr>app_APIKey := newKey\<rparr> \<in> set (t_apps db')" "a \<notin> set (t_apps db')"
    using rotate_account [OF assms(4-6,10)] by blast
  then show ?thesis
    using assms(7-9) body by (simp add: route rotateAPIKey_def)
qed

theorem rotate_ignores_caller_witness:
  "rs_status (fst (route_rotate demo_jwt demo_cfg 5 (Some [255])
     (bearer ''ts'' (blank_request\<lparr>rq_body := Some (JObj [(''app_id'', JStr ''a'')])\<rparr>)) demo_pg)) = 200"
proof -
  define r where "r = blank_request\<lparr>rq_body := Some (JObj [(''app_id'', JStr ''a'')])\<rparr>"
  have body: "body_string (rq_body r) ''app_id'' = Some (app_ID demo_app)"
    by (simp add: r_def blank_request_def body_string_def jobj_def jvals_def to_lower_def to_lower_char_def demo_app_def)
  have key: "generateAPIKey (Some [255]) = Inr ''pk_live_ff''" by code_simp
  have "\<exists>pg'. route_rotate demo_jwt demo_cfg 5 (Some [255]) (bearer ''ts'' r) demo_pg =
      (writeJSON 200 (jmap [(''app_id'', app_ID demo_app), (''api_key'', ''pk_live_ff'')]), pg')
    \<and> demo_app\<lparr>app_APIKey := ''pk_live_ff''\<rparr> \<in> set (t_apps (pg_write pg')) \<and> demo_app \<notin> set (t_apps (pg_write pg'))"
    by (rule rotate_ignores_caller [OF demo_jwt_laws demo_token _ _ _ _ _ body key])
      (use demo_db_wf in \<open>simp_all add: demo_pg_def demo_cfg_def\<close>, simp_all add: demo_app_def demo_db_def)
  then show ?thesis by (auto simp: r_def)
qed

end
