(* ===== verification/Dedup.thy ===== *)
theory Dedup
  imports Redis
begin

text \<open>
  Package \<open>internal/dedup\<close>: the two-tier duplicate filter.  The Bloom filter of
  \<open>bits-and-blooms\<close> is not part of the repository: it is the parameter
  \<open>bloom_lib\<close>, of which the code relies on \<open>bloom_no_false_negatives\<close>.  The loggers
  are left out.  \<open>TestAndAdd\<close> is first modelled as it runs alone, then as the two critical
  sections it really consists of, for callers that run concurrently.
\<close>

record 'b bloom_lib =
  bloom_New :: "nat \<Rightarrow> f64 \<Rightarrow> 'b"
  bloom_Test :: "'b \<Rightarrow> string \<Rightarrow> bool"
  bloom_Add :: "'b \<Rightarrow> string \<Rightarrow> 'b"
  bloom_Size :: "'b \<Rightarrow> nat"

definition bloom_no_false_negatives :: "'b bloom_lib \<Rightarrow> bool" where
  "bloom_no_false_negatives BL \<longleftrightarrow>
     (\<forall>b x y. bloom_Test BL (bloom_Add BL b x) x
        \<and> (bloom_Test BL b y \<longrightarrow> bloom_Test BL (bloom_Add BL b x) y))"

record 'b dedup_filter =
  df_bloom :: 'b
  df_windowTTL :: int
  df_capacity :: nat
  df_fpRate :: f64
  df_rotateAt :: int

definition NewFilter :: "'b bloom_lib \<Rightarrow> nat \<Rightarrow> f64 \<Rightarrow> int \<Rightarrow> int \<Rightarrow> 'b dedup_filter" where
  "NewFilter BL capacity fpRate windowTTL now =
     \<lparr>df_bloom = bloom_New BL capacity fpRate, df_windowTTL = windowTTL, df_capacity = capacity,
      df_fpRate = fpRate, df_rotateAt = now + windowTTL\<rparr>"

definition maybeRotate :: "'b bloom_lib \<Rightarrow> int \<Rightarrow> 'b dedup_filter \<Rightarrow> 'b dedup_filter" where
  "maybeRotate BL now f =
     (if now < df_rotateAt f then f
      else f\<lparr>df_bloom := bloom_New BL (df_capacity f) (df_fpRate f),
             df_rotateAt := now + df_windowTTL f\<rparr>)"

text \<open>One tick of \<open>rotateLoop\<close>.\<close>

definition rotate_tick :: "'b bloom_lib \<Rightarrow> int \<Rightarrow> 'b dedup_filter \<Rightarrow> 'b dedup_filter" where
  "rotate_tick BL now f = maybeRotate BL now f"

definition TestAndAdd :: "'b bloom_lib \<Rightarrow> int \<Rightarrow> string \<Rightarrow> 'b dedup_filter \<Rightarrow> bool \<times> 'b dedup_filter" where
  "TestAndAdd BL now eventID f =
     (let f1 = maybeRotate BL now f
      in if bloom_Test BL (df_bloom f1) eventID then (False, f1)
         else (True, f1\<lparr>df_bloom := bloom_Add BL (df_bloom f1) eventID\<rparr>))"

text \<open>The ids come with the times at which the loop reaches them.\<close>

fun FilterBatch :: "'b bloom_lib \<Rightarrow> (int \<times> string) list \<Rightarrow> 'b dedup_filter \<Rightarrow> string list \<times> 'b dedup_filter" where
  "FilterBatch BL [] f = ([], f)"
| "FilterBatch BL ((now, eid) # ids) f =
     (let (ok, f1) = TestAndAdd BL now eid f;
          (newIDs, f2) = FilterBatch BL ids f1
      in (if ok then eid # newIDs else newIDs, f2))"

record bloom_stats =
  bs_Capacity :: nat
  bs_EstimatedFill :: nat
  bs_FPRate :: f64
  bs_RotatesAt :: int

definition dedup_Stats :: "'b bloom_lib \<Rightarrow> 'b dedup_filter \<Rightarrow> bloom_stats" where
  "dedup_Stats BL f = \<lparr>bs_Capacity = df_capacity f, bs_EstimatedFill = bloom_Size BL (df_bloom f),
     bs_FPRate = df_fpRate f, bs_RotatesAt = df_rotateAt f\<rparr>"

section \<open>The exact tier\<close>

text \<open>\<open>string(rune(x))\<close>: the low 32 bits as a code point, encoded in UTF-8; a value
  outside the Unicode range, or a surrogate, becomes the replacement character.\<close>

definition utf8_rune :: "nat \<Rightarrow> string" where
  "utf8_rune r =
     (if r < 0x80 then [char_of r]
      else if r < 0x800 then [char_of (0xC0 + r div 64), char_of (0x80 + r mod 64)]
      else if r > 0x10FFFF \<or> (0xD800 \<le> r \<and> r \<le> 0xDFFF) then [CHR 0xEF, CHR 0xBF, CHR 0xBD]
      else if r < 0x10000 then
        [char_of (0xE0 + r div 4096), char_of (0x80 + r div 64 mod 64), char_of (0x80 + r mod 64)]
      else [char_of (0xF0 + r div 262144), char_of (0x80 + r div 4096 mod 64),
            char_of (0x80 + r div 64 mod 64), char_of (0x80 + r mod 64)])"

text \<open>The byte buffer the function also fills is not used.  A negative \<open>rune\<close> (bit 31
  set) is out of range like one above \<open>0x10FFFF\<close>, so the low 32 bits can be read
  unsigned.\<close>

definition dedup_hash :: "string \<Rightarrow> string" where
  "dedup_hash s = utf8_rune (unat (fnv64a s) mod 2 ^ 32)"

definition dedup_key :: "string \<Rightarrow> string" where
  "dedup_key eventID = ''dedup:event:'' @ dedup_hash eventID"

definition TestAndAddExact ::
  "'b bloom_lib \<Rightarrow> ('s, 'v) redis \<Rightarrow> int \<Rightarrow> string \<Rightarrow> 'b dedup_filter \<times> 's
   \<Rightarrow> (bool \<times> go_error option) \<times> 'b dedup_filter \<times> 's" where
  "TestAndAddExact BL R now eventID fs =
     (case redis_SetAdd R (snd fs) now (dedup_key eventID) eventID (df_windowTTL (fst fs)) of
        (Inl _, s') \<Rightarrow> (let (ok, f') = TestAndAdd BL now eventID (fst fs) in ((ok, None), (f', s')))
      | (Inr isNew, s') \<Rightarrow> ((isNew, None), (fst fs, s')))"

section \<open>Concurrent callers\<close>

text \<open>A call of \<open>TestAndAdd\<close> reads the filter under the read lock, releases it, and then
  adds under the write lock.\<close>

datatype dedup_pc = Start | Tested bool | Returned bool

fun dedup_thread_step ::
  "'b bloom_lib \<Rightarrow> int \<Rightarrow> string \<Rightarrow> dedup_pc \<Rightarrow> 'b dedup_filter \<Rightarrow> dedup_pc \<times> 'b dedup_filter" where
  "dedup_thread_step BL now eventID Start f =
     (let f1 = maybeRotate BL now f in (Tested (bloom_Test BL (df_bloom f1) eventID), f1))"
| "dedup_thread_step BL now eventID (Tested True) f = (Returned False, f)"
| "dedup_thread_step BL now eventID (Tested False) f =
     (Returned True, f\<lparr>df_bloom := bloom_Add BL (df_bloom f) eventID\<rparr>)"
| "dedup_thread_step BL now eventID (Returned r) f = (Returned r, f)"

text \<open>Callers \<open>(id, pc)\<close> scheduled in the order of their indices.\<close>

fun dedup_schedule ::
  "'b bloom_lib \<Rightarrow> int \<Rightarrow> nat list \<Rightarrow> (string \<times> dedup_pc) list \<Rightarrow> 'b dedup_filter
   \<Rightarrow> (string \<times> dedup_pc) list \<times> 'b dedup_filter" where
  "dedup_schedule BL now [] ts f = (ts, f)"
| "dedup_schedule BL now (i # is) ts f =
     (if i < length ts then
        (case dedup_thread_step BL now (fst (ts ! i)) (snd (ts ! i)) f of
           (pc', f') \<Rightarrow> dedup_schedule BL now is (ts[i := (fst (ts ! i), pc')]) f')
      else dedup_schedule BL now is ts f)"

section \<open>Properties\<close>

lemma TestAndAdd_seen:
  assumes "bloom_no_false_negatives BL" "now < df_rotateAt f" "bloom_Test BL (df_bloom f) x"
  shows "TestAndAdd BL now x f = (False, f)"
  using assms by (simp add: TestAndAdd_def maybeRotate_def Let_def)

lemma TestAndAdd_keeps:
  assumes "bloom_no_false_negatives BL" "now < df_rotateAt f"
  shows "df_rotateAt (snd (TestAndAdd BL now y f)) = df_rotateAt f"
    "bloom_Test BL (df_bloom f) x \<Longrightarrow> bloom_Test BL (df_bloom (snd (TestAndAdd BL now y f))) x"
    "bloom_Test BL (df_bloom (snd (TestAndAdd BL now y f))) y"
  using assms by (auto simp: TestAndAdd_def maybeRotate_def bloom_no_false_negatives_def Let_def)

lemma FilterBatch_window:
  assumes bl: "bloom_no_false_negatives BL"
  shows "list_all (\<lambda>(now, _). now < df_rotateAt f) ids \<Longrightarrow>
     distinct (fst (FilterBatch BL ids f))
   \<and> (\<forall>x \<in> set (fst (FilterBatch BL ids f)). \<not> bloom_Test BL (df_bloom f) x \<and> x \<in> snd ` set ids)
   \<and> (\<forall>x. bloom_Test BL (df_bloom f) x \<longrightarrow> bloom_Test BL (df_bloom (snd (FilterBatch BL ids f))) x)
   \<and> (\<forall>x \<in> snd ` set ids. bloom_Test BL (df_bloom (snd (FilterBatch BL ids f))) x)
   \<and> df_rotateAt (snd (FilterBatch BL ids f)) = df_rotateAt f"
proof (induction ids arbitrary: f)
  case (Cons p ids)
  obtain now x where p: "p = (now, x)" by (cases p)
  with Cons.prems have now: "now < df_rotateAt f" by simp
  define f1 where "f1 = snd (TestAndAdd BL now x f)"
  have f1: "df_rotateAt f1 = df_rotateAt f" "bloom_Test BL (df_bloom f1) x"
    "\<And>y. bloom_Test BL (df_bloom f) y \<Longrightarrow> bloom_Test BL (df_bloom f1) y"
    using TestAndAdd_keeps [OF bl now] by (simp_all add: f1_def)
  have ok: "TestAndAdd BL now x f = (\<not> bloom_Test BL (df_bloom f) x, f1)"
    using now by (auto simp: f1_def TestAndAdd_def maybeRotate_def Let_def)
  have "list_all (\<lambda>(now, _). now < df_rotateAt f1) ids" using Cons.prems f1(1) by simp
  note IH = Cons.IH [OF this]
  have step: "fst (FilterBatch BL ((now, x) # ids) f) =
      (if bloom_Test BL (df_bloom f) x then fst (FilterBatch BL ids f1)
       else x # fst (FilterBatch BL ids f1))"
    "snd (FilterBatch BL ((now, x) # ids) f) = snd (FilterBatch BL ids f1)"
    using ok by (simp_all add: Let_def split_def)
  show ?case
    unfolding p step using IH f1 by auto
qed simp

text \<open>Between two rotations the filter accepts no event id twice: the ids a batch
  passes are distinct, were not seen before the batch, and every id of the batch is refused
  in any later batch of the same window.\<close>

theorem FilterBatch_once:
  assumes "bloom_no_false_negatives BL" "list_all (\<lambda>(now, _). now < df_rotateAt f) (ids @ ids')"
  shows "distinct (fst (FilterBatch BL ids f))
    \<and> (\<forall>x \<in> set (fst (FilterBatch BL ids f)). \<not> bloom_Test BL (df_bloom f) x)
    \<and> set (fst (FilterBatch BL ids' (snd (FilterBatch BL ids f)))) \<inter> snd ` set ids = {}"
proof -
  define f1 where "f1 = snd (FilterBatch BL ids f)"
  have first: "list_all (\<lambda>(now, _). now < df_rotateAt f) ids" using assms(2) by simp
  note w1 = FilterBatch_window [OF assms(1) first, folded f1_def]
  then have "list_all (\<lambda>(now, _). now < df_rotateAt f1) ids'" using assms(2) by simp
  note w2 = FilterBatch_window [OF assms(1) this]
  have "set (fst (FilterBatch BL ids' f1)) \<inter> snd ` set ids = {}" using w1 w2 by blast
  with w1 show ?thesis by (simp add: f1_def)
qed

text \<open>A Bloom filter that is a list of the strings added.\<close>

definition list_bloom :: "string list bloom_lib" where
  "list_bloom = \<lparr>bloom_New = \<lambda>_ _. [], bloom_Test = \<lambda>b x. x \<in> set b,
     bloom_Add = \<lambda>b x. x # b, bloom_Size = \<lambda>b. length b\<rparr>"

lemma list_bloom_ok: "bloom_no_false_negatives list_bloom"
  by (simp add: list_bloom_def bloom_no_false_negatives_def)

theorem FilterBatch_once_witness:
  "fst (FilterBatch list_bloom [(1, ''a''), (1, ''b''), (2, ''a'')] (NewFilter list_bloom 10 0 5 0)) = [''a'', ''b'']
   \<and> set (fst (FilterBatch list_bloom [(3, ''b''), (4, ''c'')]
        (snd (FilterBatch list_bloom [(1, ''a''), (1, ''b''), (2, ''a'')] (NewFilter list_bloom 10 0 5 0)))))
      \<inter> snd ` set [(1 :: int, ''a''), (1, ''b''), (2, ''a'')] = {}"
  using FilterBatch_once [OF list_bloom_ok, of "NewFilter list_bloom 10 0 5 0"
      "[(1, ''a''), (1, ''b''), (2, ''a'')]" "[(3, ''b''), (4, ''c'')]"]
  by (simp add: NewFilter_def list_bloom_def TestAndAdd_def maybeRotate_def)

text \<open>The test and the add of \<open>TestAndAdd\<close> are separate critical sections, so two
  concurrent callers with the same new event id are both told that it is new.\<close>

theorem dedup_race:
  assumes "\<not> bloom_Test BL (df_bloom f) x" "now < df_rotateAt f"
  shows "fst (dedup_schedule BL now [0, 1, 0, 1] [(x, Start), (x, Start)] f)
     = [(x, Returned True), (x, Returned True)]"
  using assms by (simp add: maybeRotate_def Let_def)

theorem dedup_race_witness:
  "fst (dedup_schedule list_bloom 1 [0, 1, 0, 1] [(''a'', Start), (''a'', Start)] (NewFilter list_bloom 10 0 5 0))
     = [(''a'', Returned True), (''a'', Returned True)]"
  by (rule dedup_race) (simp_all add: NewFilter_def list_bloom_def)

text \<open>Run one after the other, the second caller is refused.\<close>

lemma dedup_serial:
  assumes "bloom_no_false_negatives BL" "\<not> bloom_Test BL (df_bloom f) x" "now < df_rotateAt f"
  shows "fst (dedup_schedule BL now [0, 0, 1, 1] [(x, Start), (x, Start)] f)
     = [(x, Returned True), (x, Returned False)]"
  using assms by (simp add: maybeRotate_def bloom_no_false_negatives_def Let_def)

text \<open>The Redis tier namespaces its sets with a hash that is converted to a single
  rune: every id whose FNV hash has its low 32 bits above \<open>0x10FFFF\<close> (all but one in
  3855) gets the same key, the replacement character.\<close>

theorem dedup_hash_collapses:
  assumes "0x10FFFF < unat (fnv64a x) mod 2 ^ 32" "0x10FFFF < unat (fnv64a y) mod 2 ^ 32"
  shows "dedup_key x = dedup_key y"
  using assms by (simp add: dedup_key_def dedup_hash_def utf8_rune_def)

lemma fnv_ab: "fnv64a ''a'' = 0xaf63dc4c8601ec8c" "fnv64a ''b'' = 0xaf63df4c8601f1a5"
  by code_simp+

theorem dedup_hash_collapses_witness: "dedup_key ''a'' = dedup_key ''b''"
  by (rule dedup_hash_collapses) (simp_all add: fnv_ab)

end
