(* ===== verification/Gateway.thy ===== *)
theory Gateway
  imports Pipeline Auth Dedup
begin

text \<open>
  \<open>cmd/gateway\<close>: the ingest handlers behind the API-key middleware.  A body is a string of
  bytes; its JSON syntax tree (\<open>parse\<close>) and \<open>gunzip\<close> are arguments.  Fresh ids are
  \<open>newID 0\<close>, \<open>newID 1\<close>, \<dots> in the order in which the request takes them; the
  instant of the request is in milliseconds.  MongoDB writes, which the handlers start and do not wait for,
  are the list \<open>gw_mongo\<close>; metrics and tracing are left out.
\<close>

datatype mongo_write =
    RawBatch string "event list"
  | ProfileUpsert string string props

record 'b gateway =
  gw_filter :: "'b dedup_filter"
  gw_producer :: producer
  gw_mongo :: "mongo_write list option"

record gateway_env =
  ge_parse :: "string \<Rightarrow> json option"
  ge_gunzip :: "string \<Rightarrow> string option"
  ge_newID :: "nat \<Rightarrow> string"
  ge_MaxBodyBytes :: int
  ge_topics :: topics
  ge_v6 :: "string \<Rightarrow> nat list option"

record ingest_request =
  ir_encoding :: string
  ir_body :: string
  ir_forwarded :: string
  ir_remote :: string

section \<open>Reading the body\<close>

text \<open>\<open>MaxBytesReader\<close> fails a body longer than the limit; a gzip body is read from the
  request itself.\<close>

definition readBody :: "gateway_env \<Rightarrow> ingest_request \<Rightarrow> string option" where
  "readBody env r =
     (if ir_encoding r = ''gzip'' then ge_gunzip env (ir_body r)
      else if int (length (ir_body r)) > ge_MaxBodyBytes env then None
      else Some (ir_body r))"

section \<open>Batches\<close>

text \<open>The deduplication loop; \<open>k\<close> counts the ids taken.\<close>

fun dedup_loop ::
  "'b bloom_lib \<Rightarrow> int \<Rightarrow> (nat \<Rightarrow> string) \<Rightarrow> nat \<Rightarrow> event list \<Rightarrow> 'b dedup_filter \<Rightarrow> event list \<times> 'b dedup_filter" where
  "dedup_loop BL now newID k [] f = ([], f)"
| "dedup_loop BL now newID k (e # es) f =
     (let e' = (if ev_EventID e = [] then e\<lparr>ev_EventID := newID k\<rparr> else e);
          k' = (if ev_EventID e = [] then Suc k else k);
          (ok, f1) = TestAndAdd BL now (ev_EventID e') f;
          (newEvents, f2) = dedup_loop BL now newID k' es f1
      in (if ok then e' # newEvents else newEvents, f2))"

definition accepted_body :: "nat \<Rightarrow> nat \<Rightarrow> json" where
  "accepted_body accepted filtered =
     JObj [(''accepted'', JNum (of_nat accepted)), (''filtered'', JNum (of_nat filtered))]"

definition handleIngest ::
  "'b bloom_lib \<Rightarrow> gateway_env \<Rightarrow> int \<Rightarrow> app \<Rightarrow> ingest_request \<Rightarrow> 'b gateway \<Rightarrow> response \<times> 'b gateway" where
  "handleIngest BL env now a r gw =
     (case readBody env r of
        None \<Rightarrow> (http_Error ''invalid body'' 400, gw)
      | Some body \<Rightarrow>
     (case ge_parse env body \<bind> jobj \<bind> decode_batch of
        None \<Rightarrow> (http_Error ''invalid JSON'' 400, gw)
      | Some batch \<Rightarrow>
          if eb_Events batch = [] then (status_only 202, gw)
          else if length (eb_Events batch) > 500 then (http_Error ''max 500 events per batch'' 400, gw)
          else
            (let clientIP = ExtractIP (ge_v6 env) (ir_forwarded r) (ir_remote r);
                 originalCount = length (eb_Events batch);
                 (newEvents, f) = dedup_loop BL now (ge_newID env) 0 (eb_Events batch) (gw_filter gw);
                 filtered = originalCount - length newEvents;
                 gw1 = gw\<lparr>gw_filter := f\<rparr>
             in if newEvents = [] then (status_only 202, gw1)
                else
                  (let batch' = batch\<lparr>eb_AppID := app_ID a, eb_Events := newEvents\<rparr>;
                       (err, p) = PublishAsync (tp_raw (ge_topics env)) (app_ID a @ '':'' @ eb_DeviceID batch)
                          (encode_ingest batch' (Some clientIP) now) (gw_producer gw1)
                   in case err of
                        Some _ \<Rightarrow> (http_Error ''internal error'' 500, gw1\<lparr>gw_producer := p\<rparr>)
                      | None \<Rightarrow>
                          (writeJSON 202 (accepted_body (length newEvents) filtered),
                           gw1\<lparr>gw_producer := p,
                              gw_mongo := map_option (\<lambda>m. m @ [RawBatch (app_ID a) newEvents]) (gw_mongo gw1)\<rparr>)))))"

section \<open>Identify and track\<close>

definition empty_batch :: event_batch where
  "empty_batch = \<lparr>eb_AppID = [], eb_DeviceID = [], eb_UserID = [], eb_SDKVersion = [],
     eb_SentAtMs = 0, eb_Events = []\<rparr>"

definition handleIdentify ::
  "gateway_env \<Rightarrow> int \<Rightarrow> app \<Rightarrow> json option \<Rightarrow> 'b gateway \<Rightarrow> response \<times> 'b gateway" where
  "handleIdentify env now a body gw =
     (case do { j \<leftarrow> body; m \<leftarrow> jobj j; u \<leftarrow> to_string [] (jvals ''user_id'' m);
               t \<leftarrow> to_props (jvals ''traits'' m); Some (u, t) } of
        None \<Rightarrow> (http_Error ''invalid JSON'' 400, gw)
      | Some (userID, traits) \<Rightarrow>
          (let evt = \<lparr>ev_EventID = ge_newID env 0, ev_EventName = ''user_updated'', ev_EventTime = now,
                 ev_Props = traits, ev_Device = None, ev_App = None, ev_Revenue = 0\<rparr>;
               batch = empty_batch\<lparr>eb_AppID := app_ID a, eb_UserID := userID, eb_Events := [evt]\<rparr>;
               (err, p') = PublishAsync (tp_raw (ge_topics env)) (app_ID a @ '':'' @ userID)
                  (encode_ingest batch None now) (gw_producer gw)
           in case err of
                Some _ \<Rightarrow> (http_Error ''internal error'' 500, gw\<lparr>gw_producer := p'\<rparr>)
              | None \<Rightarrow> (status_only 202, gw\<lparr>gw_producer := p',
                    gw_mongo := map_option (\<lambda>m. m @ [ProfileUpsert (app_ID a) userID traits]) (gw_mongo gw)\<rparr>)))"

definition handleTrack ::
  "gateway_env \<Rightarrow> int \<Rightarrow> app \<Rightarrow> json option \<Rightarrow> producer \<Rightarrow> response \<times> producer" where
  "handleTrack env now a body p =
     (case do { j \<leftarrow> body; m \<leftarrow> jobj j; decode_event m } of
        None \<Rightarrow> (http_Error ''invalid JSON'' 400, p)
      | Some evt \<Rightarrow>
          (let evt1 = (if ev_EventID evt = [] then evt\<lparr>ev_EventID := ge_newID env 0\<rparr> else evt);
               evt2 = (if ev_EventTime evt1 = 0 then evt1\<lparr>ev_EventTime := now\<rparr> else evt1);
               batch = empty_batch\<lparr>eb_AppID := app_ID a, eb_Events := [evt2]\<rparr>;
               (err, p') = PublishAsync (tp_raw (ge_topics env)) (app_ID a) (encode_ingest batch None now) p
           in case err of
                Some _ \<Rightarrow> (http_Error ''internal error'' 500, p')
              | None \<Rightarrow> (status_only 202, p')))"

definition gateway_health :: response where
  "gateway_health = writeJSON 200 (jmap [(''status'', ''ok''), (''service'', ''gateway'')])"

section \<open>Lemmas on the loop\<close>

text \<open>The events of a batch as the loop names them.\<close>

fun named_events :: "(nat \<Rightarrow> string) \<Rightarrow> nat \<Rightarrow> event list \<Rightarrow> event list" where
  "named_events newID k [] = []"
| "named_events newID k (e # es) =
     (if ev_EventID e = [] then e\<lparr>ev_EventID := newID k\<rparr> # named_events newID (Suc k) es
      else e # named_events newID k es)"

lemma dedup_loop_FilterBatch:
  "map ev_EventID (fst (dedup_loop BL now newID k es f)) =
     fst (FilterBatch BL (map (\<lambda>e. (now, ev_EventID e)) (named_events newID k es)) f)
   \<and> snd (dedup_loop BL now newID k es f) =
     snd (FilterBatch BL (map (\<lambda>e. (now, ev_EventID e)) (named_events newID k es)) f)
   \<and> subseq (fst (dedup_loop BL now newID k es f)) (named_events newID k es)"
proof (induction es arbitrary: k f)
  case (Cons e es)
  define e' where "e' = (if ev_EventID e = [] then e\<lparr>ev_EventID := newID k\<rparr> else e)"
  define k' where "k' = (if ev_EventID e = [] then Suc k else k)"
  obtain ok f1 where t: "TestAndAdd BL now (ev_EventID e') f = (ok, f1)" by (cases "TestAndAdd BL now (ev_EventID e') f")
  have names: "named_events newID k (e # es) = e' # named_events newID k' es"
    by (simp add: e'_def k'_def)
  have loop: "dedup_loop BL now newID k (e # es) f =
      (if ok then e' # fst (dedup_loop BL now newID k' es f1) else fst (dedup_loop BL now newID k' es f1),
       snd (dedup_loop BL now newID k' es f1))"
    using t by (simp add: e'_def [symmetric] k'_def [symmetric] split_def Let_def)
  show ?case
    unfolding names loop using Cons.IH [of k' f1] t by (auto simp: split_def Let_def)
qed simp

lemma named_events_named: "(\<forall>e \<in> set es. ev_EventID e \<noteq> []) \<Longrightarrow> named_events newID k es = es"
  by (induction es) auto

lemma named_events_length [simp]: "length (named_events newID k es) = length es"
  by (induction es arbitrary: k) auto

lemma named_events_wf:
  "list_all (\<lambda>e. wf_props (ev_Props e) \<and> in_i64 (ev_EventTime e)) es \<Longrightarrow>
   list_all (\<lambda>e. wf_props (ev_Props e) \<and> in_i64 (ev_EventTime e)) (named_events newID k es)"
  by (induction es arbitrary: k) auto

lemma named_events_nonempty: "(\<And>i. newID i \<noteq> []) \<Longrightarrow> e \<in> set (named_events newID k es) \<Longrightarrow> ev_EventID e \<noteq> []"
  by (induction es arbitrary: k) (auto split: if_splits)

section \<open>Properties\<close>

definition request_batch :: "gateway_env \<Rightarrow> ingest_request \<Rightarrow> event_batch option" where
  "request_batch env r = readBody env r \<bind> ge_parse env \<bind> jobj \<bind> decode_batch"

lemma handleIngest_cases:
  assumes "request_batch env r = Some batch" "eb_Events batch \<noteq> []" "length (eb_Events batch) \<le> 500"
    "dedup_loop BL now (ge_newID env) 0 (eb_Events batch) (gw_filter gw) = (es, f)"
  shows "handleIngest BL env now a r gw =
     (if es = [] then (status_only 202, gw\<lparr>gw_filter := f\<rparr>)
      else (writeJSON 202 (accepted_body (length es) (length (eb_Events batch) - length es)),
        gw\<lparr>gw_filter := f,
           gw_producer := \<lparr>pr_out = pr_out (gw_producer gw) @
             [(tp_raw (ge_topics env), app_ID a @ '':'' @ eb_DeviceID batch,
               the (encode_ingest (batch\<lparr>eb_AppID := app_ID a, eb_Events := es\<rparr>)
                 (Some (ExtractIP (ge_v6 env) (ir_forwarded r) (ir_remote r))) now))]\<rparr>,
           gw_mongo := map_option (\<lambda>m. m @ [RawBatch (app_ID a) es]) (gw_mongo gw)\<rparr>))"
proof -
  obtain body where body: "readBody env r = Some body" "ge_parse env body \<bind> jobj \<bind> decode_batch = Some batch"
    using assms(1) by (auto simp: request_batch_def bind_eq_Some_conv)
  then show ?thesis
    using assms(2-4) by (simp add: handleIngest_def Let_def PublishAsync_def encode_ingest_def)
qed


definition demo_env :: gateway_env where
  "demo_env = \<lparr>ge_parse = \<lambda>s. if s = ''x'' then Some (JObj (obj_fields (batch_fields (batch_of [plain_event])))) else None,
     ge_gunzip = \<lambda>s. Some (replicate 100 (CHR ''x'')), ge_newID = \<lambda>_. ''id'', ge_MaxBodyBytes = 10,
     ge_topics = \<lparr>tp_raw = ''raw'', tp_enriched = ''en'', tp_session = ''se'', tp_agg = ''ag''\<rparr>,
     ge_v6 = \<lambda>_. None\<rparr>"

definition demo_request :: ingest_request where
  "demo_request = \<lparr>ir_encoding = [], ir_body = ''x'', ir_forwarded = [], ir_remote = ''9.9.9.9:1''\<rparr>"

definition demo_gateway :: "string list gateway" where
  "demo_gateway = \<lparr>gw_filter = NewFilter list_bloom 10 0 5 0, gw_producer = \<lparr>pr_out = []\<rparr>, gw_mongo = None\<rparr>"

lemma demo_batch: "request_batch demo_env demo_request = Some (batch_of [plain_event])" "wf_batch (batch_of [plain_event])"
proof -
  show wf: "wf_batch (batch_of [plain_event])"
    by (simp add: wf_batch_def batch_of_def plain_event_def wf_props_def in_i64_def)
  then have "decode_batch (obj_fields (batch_fields (batch_of [plain_event]))) = Some (batch_of [plain_event])"
    by (intro batch_decodes) (simp_all add: wf_batch_def)
  then show "request_batch demo_env demo_request = Some (batch_of [plain_event])"
    by (simp add: request_batch_def readBody_def demo_env_def demo_request_def jobj_def)
qed




text \<open>The body limit holds for plain bodies only: a gzip body is decompressed without
  any bound, whatever its size before and after.\<close>

theorem readBody_limit:
  "(ir_encoding r \<noteq> ''gzip'' \<longrightarrow> (\<forall>b. readBody env r = Some b \<longrightarrow> int (length b) \<le> ge_MaxBodyBytes env))
   \<and> (ir_encoding r = ''gzip'' \<longrightarrow> readBody env r = ge_gunzip env (ir_body r))"
  by (simp add: readBody_def)

theorem readBody_limit_witness:
  "ge_MaxBodyBytes demo_env < int (length (the (readBody demo_env (demo_request\<lparr>ir_encoding := ''gzip''\<rparr>))))"
  using readBody_limit [of "demo_request\<lparr>ir_encoding := ''gzip''\<rparr>" demo_env]
  by (simp add: demo_env_def)

text \<open>An identify call without a user id is accepted and published with an empty
  user.\<close>

lemma identify_without_user:
  "\<exists>gw'. handleIdentify env now a (Some (JObj [])) gw = (status_only 202, gw')
     \<and> length (pr_out (gw_producer gw')) = Suc (length (pr_out (gw_producer gw)))"
  by (simp add: handleIdentify_def jobj_def jvals_def to_props_def Let_def PublishAsync_def encode_ingest_def)

end
