(* ===== verification/Alert.thy ===== *)
theory Alert
  imports Dates Http Redis
begin

text \<open>
  \<open>cmd/alertengine\<close>: evaluation of one alert rule, its metric query, the cooldown in
  Redis and the webhook.  Parameters: the answer of ClickHouse to the metric's SQL with the
  conversion of its row, and the HTTP client, which reports a status or fails.  Instants are
  nanoseconds.  \<open>evaluate\<close>, which the main loop calls, is empty in the code.
\<close>

definition alertCooldown :: int where "alertCooldown = 30 * 60 * 1000000000"
definition evaluationInterval :: int where "evaluationInterval = 60 * 1000000000"

section \<open>The webhook\<close>

record http_out =
  ho_url :: string
  ho_headers :: "(string \<times> string) list"
  ho_body :: json

text \<open>\<open>valid_url\<close> is whether \<open>http.NewRequest\<close> accepts the URL.\<close>

record http_client =
  valid_url :: "string \<Rightarrow> bool"
  http_Do :: "http_out \<Rightarrow> go_error + nat"

definition alert_sendWebhook :: "http_client \<Rightarrow> string \<Rightarrow> json \<Rightarrow> go_error option \<times> http_out list" where
  "alert_sendWebhook hc url payload =
     (if \<not> valid_url hc url then (Some (Errorf ''parse url''), [])
      else let rq = \<lparr>ho_url = url, ho_headers = [(''Content-Type'', ''application/json''), (''X-Pulse-Alert'', ''true'')],
                     ho_body = payload\<rparr> in
        (case http_Do hc rq of
           Inl e \<Rightarrow> (Some e, [rq])
         | Inr status \<Rightarrow>
             (if status \<ge> 400 then Some (Errorf (''webhook returned '' @ itoa (int status))) else None, [rq])))"

definition alert_payload :: "alert_rule \<Rightarrow> f64 \<Rightarrow> int \<Rightarrow> json" where
  "alert_payload rule value now = JObj
     [(''alert_id'', JStr (ar_ID rule)), (''app_id'', JStr (ar_AppID rule)),
      (''condition'', JStr (ar_Condition rule)),
      (''fired_at'', JStr (format_rfc3339 (now div 1000000000 * 1000))),
      (''metric'', JStr (ar_MetricName rule)), (''rule_name'', JStr (ar_Name rule)),
      (''threshold'', JNum (ar_Threshold rule)), (''value'', JNum value)]"

text \<open>\<open>fireAlert\<close>: the requests sent.  Email is a log line, an unknown channel is skipped,
  and the result is always nil.\<close>

definition fireAlert :: "http_client \<Rightarrow> alert_rule \<Rightarrow> f64 \<Rightarrow> int \<Rightarrow> go_error option \<times> http_out list" where
  "fireAlert hc rule value now =
     (None, concat (map (\<lambda>channel.
        if channel = ''webhook'' then snd (alert_sendWebhook hc (ar_WebhookURL rule) (alert_payload rule value now))
        else []) (case ar_Channels rule of None \<Rightarrow> [] | Some cs \<Rightarrow> cs)))"

section \<open>The metric\<close>

text \<open>The SQL with the application id and the window spliced in between quotes.\<close>

definition metric_sql :: "int \<Rightarrow> alert_rule \<Rightarrow> string option" where
  "metric_sql now rule =
     (let windowStart = now - i64 (ar_WindowMins rule * 60000000000);
          q = (\<lambda>s. [quote_char] @ s @ [quote_char]);
          l = (\<lambda>n s. CHR 0x0A # replicate n (CHR 0x09) @ s);
          app = ''app_id = '' @ q (ar_AppID rule);
          since = '' AND event_time >= '' @ q (format_datetime (windowStart div 1000000))
      in if ar_MetricName rule = ''event_count'' then
           Some (l 3 ''SELECT count() FROM events'' @ l 3 (''WHERE '' @ app @ since))
         else if ar_MetricName rule = ''error_rate'' then
           Some (l 3 (''SELECT countIf(event_name = '' @ q ''app_crashed'' @ '') / count() * 100'')
                 @ l 3 ''FROM events'' @ l 3 (''WHERE '' @ app @ since))
         else if ar_MetricName rule = ''dau'' then
           Some (l 3 ''SELECT uniqHLL12(user_id) FROM events'' @ l 3 (''WHERE '' @ app)
                 @ l 3 (''  AND event_name = '' @ q ''app_opened'') @ l 3 ''  AND toDate(event_time) = today()'')
         else None)"

definition queryMetric :: "(string \<Rightarrow> go_error + f64) \<Rightarrow> int \<Rightarrow> alert_rule \<Rightarrow> go_error + f64" where
  "queryMetric row now rule = (case metric_sql now rule of
      None \<Rightarrow> Inl (Errorf (''unknown metric: '' @ ar_MetricName rule))
    | Some sql \<Rightarrow> row sql)"

section \<open>Evaluating a rule\<close>

definition breached :: "alert_rule \<Rightarrow> f64 \<Rightarrow> bool" where
  "breached rule value =
     (if ar_Condition rule = ''gt'' then value > ar_Threshold rule
      else if ar_Condition rule = ''lt'' then value < ar_Threshold rule
      else if ar_Condition rule = ''eq'' then value = ar_Threshold rule
      else False)"

definition cooldown_key :: "string \<Rightarrow> string" where
  "cooldown_key rid = ''alert:cooldown:'' @ rid"

text \<open>The clock is read at the metric query (\<open>tq\<close>), at \<open>EXISTS\<close> (\<open>t0\<close>), in the payload
  (\<open>tp\<close>) and at \<open>SET\<close> (\<open>t1\<close>).  The requests are \<open>None\<close> when the alert did not
  fire.\<close>

definition evaluateRule ::
  "('s, string) redis \<Rightarrow> (string \<Rightarrow> go_error + f64) \<Rightarrow> http_client \<Rightarrow> int \<Rightarrow> int \<Rightarrow> int \<Rightarrow> int \<Rightarrow> alert_rule \<Rightarrow> 's
     \<Rightarrow> go_error option \<times> http_out list option \<times> 's" where
  "evaluateRule R row hc tq t0 tp t1 rule s =
     (case queryMetric row tq rule of
        Inl e \<Rightarrow> (Some (Errorf ''query metric''), None, s)
      | Inr value \<Rightarrow>
          if \<not> breached rule value then (None, None, s)
          else if fst (redis_Exists R s t0 (cooldown_key (ar_ID rule))) then (None, None, s)
          else (None, Some (snd (fireAlert hc rule value tp)),
                snd (redis_Set R s t1 (cooldown_key (ar_ID rule)) ''1'' alertCooldown)))"

text \<open>A sequence of evaluations, each with its rule, its clock readings, what ClickHouse
  answers and what the receivers answer.  The result lists the alerts fired: the rule and
  the time its cooldown check was made.\<close>

type_synonym evaluation = "alert_rule \<times> (int \<times> int \<times> int \<times> int) \<times> (string \<Rightarrow> go_error + f64) \<times> http_client"

fun evaluations :: "('s, string) redis \<Rightarrow> evaluation list \<Rightarrow> 's \<Rightarrow> (string \<times> int) list \<times> 's" where
  "evaluations R [] s = ([], s)"
| "evaluations R ((rule, (tq, t0, tp, t1), row, hc) # es) s =
     (case evaluateRule R row hc tq t0 tp t1 rule s of
        (_, fired, s') \<Rightarrow>
          (case evaluations R es s' of (out, s'') \<Rightarrow>
             ((if fired = None then out else (ar_ID rule, t0) # out), s'')))"

section \<open>The cooldown\<close>

text \<open>The evaluations run one after the other.\<close>

fun in_order :: "int \<Rightarrow> evaluation list \<Rightarrow> bool" where
  "in_order now [] = True"
| "in_order now ((rule, (tq, t0, tp, t1), row, hc) # es) \<longleftrightarrow> now \<le> t0 \<and> t0 \<le> t1 \<and> in_order t1 es"

definition sets_succeed :: "('s, 'v) redis \<Rightarrow> bool" where
  "sets_succeed R \<longleftrightarrow> (\<forall>s now k v ttl. \<exists>s'. raw_Set R s now k v ttl = (None, s'))"

lemma mem_sets_succeed: "sets_succeed (mem_redis :: ('v mem, 'v) redis)"
  by (simp add: sets_succeed_def mem_redis_def)

definition cooling :: "('s, string) redis \<Rightarrow> string \<Rightarrow> int \<Rightarrow> int \<Rightarrow> 's \<Rightarrow> bool" where
  "cooling R rid now until s \<longleftrightarrow>
     (\<forall>t. now \<le> t \<longrightarrow> t < until \<longrightarrow> (\<exists>v. raw_Get R s t (cooldown_key rid) = Inr v))"

lemma cooling_blocks:
  "redis_kv R \<Longrightarrow> cooling R rid now until s \<Longrightarrow> now \<le> t \<Longrightarrow> t < until \<Longrightarrow>
     fst (redis_Exists R s t (cooldown_key rid))"
  by (fastforce simp: cooling_def redis_kv_def redis_Exists_def)

lemma evaluateRule_cooling:
  assumes "redis_kv R" "sets_succeed R" "cooling R rid now until s" "now \<le> t0" "t0 \<le> t1"
    and "evaluateRule R row hc tq t0 tp t1 rule s = (e, fired, s')"
  shows "cooling R rid t1 until s'"
    and "fired \<noteq> None \<Longrightarrow> ar_ID rule = rid \<Longrightarrow> until \<le> t0"
    and "fired \<noteq> None \<Longrightarrow> ar_ID rule = rid' \<Longrightarrow> cooling R rid' t1 (t0 + alertCooldown) s'"
proof -
  let ?k = "cooldown_key (ar_ID rule)"
  obtain s1 where s1: "raw_Set R s t1 ?k ''1'' alertCooldown = (None, s1)"
    using assms(2) by (meson sets_succeed_def)
  have get: "raw_Get R s1 t j = (if j = ?k then if t < t1 + alertCooldown then Inr ''1'' else Inl ErrNotFound
      else raw_Get R s t j)" if "t1 \<le> t" for t j
    using assms(1) s1 that unfolding redis_kv_def by blast
  have blocked: "fst (redis_Exists R s t0 ?k)" if "ar_ID rule = rid" "t0 < until"
    using cooling_blocks [OF assms(1,3,4)] that by simp
  have cases: "fired = None \<and> s' = s \<or> fired \<noteq> None \<and> s' = s1 \<and> \<not> fst (redis_Exists R s t0 ?k)"
    using assms(6) s1 by (auto simp: evaluateRule_def redis_Set_def split: sum.splits if_splits)
  show "fired \<noteq> None \<Longrightarrow> ar_ID rule = rid \<Longrightarrow> until \<le> t0"
    using cases blocked by fastforce
  show "fired \<noteq> None \<Longrightarrow> ar_ID rule = rid' \<Longrightarrow> cooling R rid' t1 (t0 + alertCooldown) s'"
    using cases get assms(5) by (auto simp: cooling_def)
  have keep: "cooling R rid t1 until s" using assms(3,4,5) by (auto simp: cooling_def)
  show "cooling R rid t1 until s'"
  proof (cases "fired = None")
    case True
    with cases keep show ?thesis by simp
  next
    case False
    show ?thesis
    proof (cases "ar_ID rule = rid")
      case True
      with False cases blocked have "until \<le> t0" by fastforce
      with assms(5) show ?thesis by (auto simp: cooling_def)
    next
      case other: False
      with False cases keep get show ?thesis by (auto simp: cooling_def cooldown_key_def)
    qed
  qed
qed

lemma evaluations_cooling:
  assumes "redis_kv R" "sets_succeed R" "in_order now es" "cooling R rid now until s"
    "evaluations R es s = (out, s')" "(rid, t) \<in> set out"
  shows "until \<le> t"
  using assms(3-6)
proof (induction es arbitrary: now s out)
  case (Cons ev es)
  obtain rule tq t0 tp t1 row hc where ev: "ev = (rule, (tq, t0, tp, t1), row, hc)" by (cases ev) auto
  obtain e fired s1 where ru: "evaluateRule R row hc tq t0 tp t1 rule s = (e, fired, s1)"
    by (cases "evaluateRule R row hc tq t0 tp t1 rule s") auto
  obtain out1 where o: "evaluations R es s1 = (out1, s')" "out = (if fired = None then out1 else (ar_ID rule, t0) # out1)"
    using Cons.prems(3) ev ru by (auto split: prod.splits if_splits)
  have t: "now \<le> t0" "t0 \<le> t1" "in_order t1 es" using Cons.prems(1) ev by auto
  note c = evaluateRule_cooling [OF assms(1,2) Cons.prems(2) t(1,2) ru]
  show ?case
  proof (cases "(rid, t) \<in> set out1")
    case True
    from Cons.IH [OF t(3) c(1) o(1) this] show ?thesis .
  next
    case False
    with Cons.prems(4) o(2) c(2) show ?thesis by (auto split: if_splits)
  qed
qed simp

lemma cooling_empty: "cooling R rid now now s"
  by (simp add: cooling_def)

text \<open>The cooldown works: in any sequence of evaluations of any rules, one after the
  other, with a Redis that stores what it is told, the same rule does not fire twice within
  thirty minutes, whatever ClickHouse and the webhooks answer.\<close>

theorem alert_cooldown:
  assumes "redis_kv R" "sets_succeed R" "in_order now es" "evaluations R es s = (out, s')"
    and "i < j" "j < length out" "fst (out ! i) = fst (out ! j)"
  shows "snd (out ! i) + alertCooldown \<le> snd (out ! j)"
  using assms(3-7)
proof (induction es arbitrary: now s out i j)
  case (Cons ev es)
  obtain rule tq t0 tp t1 row hc where ev: "ev = (rule, (tq, t0, tp, t1), row, hc)" by (cases ev) auto
  obtain e fired s1 where ru: "evaluateRule R row hc tq t0 tp t1 rule s = (e, fired, s1)"
    by (cases "evaluateRule R row hc tq t0 tp t1 rule s") auto
  obtain out1 where o: "evaluations R es s1 = (out1, s')" "out = (if fired = None then out1 else (ar_ID rule, t0) # out1)"
    using Cons.prems(2) ev ru by (auto split: prod.splits if_splits)
  have t: "now \<le> t0" "t0 \<le> t1" "in_order t1 es" using Cons.prems(1) ev by auto
  show ?case
  proof (cases "fired = None")
    case True
    with Cons.IH [OF t(3) o(1)] Cons.prems(3-5) o(2) show ?thesis by simp
  next
    case False
    obtain j' where j: "j = Suc j'" using Cons.prems(3) by (cases j) auto
    show ?thesis
    proof (cases i)
      case 0
      have "cooling R (ar_ID rule) t1 (t0 + alertCooldown) s1"
        by (rule evaluateRule_cooling(3) [OF assms(1,2) cooling_empty t(1,2) ru False refl])
      moreover have "(ar_ID rule, snd (out1 ! j')) \<in> set out1"
        using Cons.prems(4,5) o(2) False 0 j by (metis nth_Cons_0 nth_Cons_Suc fst_conv prod.collapse nth_mem length_Cons Suc_less_eq)
      ultimately show ?thesis
        using evaluations_cooling [OF assms(1,2) t(3) _ o(1)] False 0 j o(2) by auto
    next
      case (Suc i')
      with Cons.IH [OF t(3) o(1), of i' j'] Cons.prems(3-5) o(2) False j show ?thesis by simp
    qed
  qed
qed simp

definition alert_example :: alert_rule where
  "alert_example = \<lparr>ar_ID = ''r1'', ar_AppID = ''a'', ar_Name = ''n'', ar_MetricName = ''dau'', ar_Condition = ''gt'',
     ar_Threshold = 5, ar_WindowMins = 60, ar_Channels = Some [''webhook''], ar_WebhookURL = ''u'', ar_EmailTo = None,
     ar_Active = True, ar_CreatedAt = 0\<rparr>"

definition alert_example_eval :: "int \<Rightarrow> evaluation" where
  "alert_example_eval t = (alert_example, (t, t, t, t), (\<lambda>_. Inr 9), \<lparr>valid_url = (\<lambda>_. True), http_Do = (\<lambda>_. Inr 200)\<rparr>)"

lemma alert_example_fires:
  "fst (evaluations mem_redis [alert_example_eval 0, alert_example_eval 5, alert_example_eval alertCooldown] mem_empty)
     = [(''r1'', 0), (''r1'', alertCooldown)]"
  by (simp add: alert_example_eval_def alert_example_def evaluateRule_def queryMetric_def metric_sql_def breached_def
      redis_Exists_def redis_Set_def mem_redis_def mem_get_def mem_empty_def cooldown_key_def alertCooldown_def Let_def)

theorem alert_cooldown_witness:
  "snd (fst (evaluations mem_redis [alert_example_eval 0, alert_example_eval 5, alert_example_eval alertCooldown] mem_empty) ! 0)
     + alertCooldown
   \<le> snd (fst (evaluations mem_redis [alert_example_eval 0, alert_example_eval 5, alert_example_eval alertCooldown] mem_empty) ! 1)"
  by (rule alert_cooldown [OF mem_redis_kv mem_sets_succeed _ surjective_pairing, of 0])
    (simp_all add: alert_example_fires, simp add: alert_example_eval_def alertCooldown_def)

text \<open>The conditions \<open>gte\<close> and \<open>lte\<close>, which the schema allows, never fire.\<close>

lemma gte_never_fires:
  "ar_Condition rule \<in> {''gte'', ''lte''} \<Longrightarrow> fst (snd (evaluateRule R row hc tq t0 tp t1 rule s)) = None"
  by (auto simp: evaluateRule_def breached_def split: sum.splits)

end
