(* ===== verification/SDK.thy ===== *)
theory SDK
  imports Gateway Alert "HOL-Library.Countable"
begin

text \<open>
  The Go client, \<open>sdk/go/client.go\<close>, and what the gateway makes of what it sends.
  A value in \<open>Props\<close> or \<open>traits\<close> is \<open>Some\<close> JSON value, or \<open>None\<close> when
  \<open>json.Marshal\<close> cannot encode it (a channel, a function, NaN).  \<open>sdk_env\<close> holds
  the text of a JSON value, gzip and the HTTP client; the gateway's parser and \<open>gunzip\<close>
  undo the first two (\<open>wire_ok\<close>).  The clock is in milliseconds.  The first part is the
  client as its methods run one after the other; the second one is the queue under
  concurrent calls, each method split where it leaves the mutex.
\<close>

section \<open>Events and their JSON\<close>

type_synonym sdk_map = "(string \<times> json option) list option"

record sdk_event =
  sv_EventID :: string
  sv_EventName :: string
  sv_EventTime :: int
  sv_Props :: sdk_map
  sv_Revenue :: f64

definition marshal_map :: "sdk_map \<Rightarrow> props option" where
  "marshal_map m = (case m of None \<Rightarrow> Some None
     | Some kvs \<Rightarrow> map_option Some (those (map (\<lambda>(k, v). map_option (Pair k) v) kvs)))"

definition sdk_event_fields :: "sdk_event \<Rightarrow> props \<Rightarrow> (string \<times> json option) list" where
  "sdk_event_fields e p =
     [(''event_id'', ostr (sv_EventID e)), (''event_name'', fstr (sv_EventName e)),
      (''event_time'', if sv_EventTime e = 0 then None else fint (sv_EventTime e)), (''props'', oprops p),
      (''revenue'', ofloat (sv_Revenue e))]"

definition marshal_event :: "sdk_event \<Rightarrow> json option" where
  "marshal_event e = map_option (\<lambda>p. JObj (obj_fields (sdk_event_fields e p))) (marshal_map (sv_Props e))"

section \<open>The client\<close>

record sdk_request =
  sq_url :: string
  sq_headers :: "(string \<times> string) list"
  sq_body :: string

record sdk_env =
  sd_text :: "json \<Rightarrow> string"
  sd_gzip :: "string \<Rightarrow> string"
  sd_valid_url :: "string \<Rightarrow> bool"
  sd_Do :: "sdk_request \<Rightarrow> go_error + nat"

record sdk_client =
  sc_baseURL :: string
  sc_apiKey :: string
  sc_appID :: string
  sc_deviceID :: string
  sc_sdkVersion :: string
  sc_queue :: "sdk_event list"
  sc_maxBatch :: int
  sc_flushInterval :: int
  sc_stopped :: bool

datatype sdk_option = WithMaxBatch int | WithFlushInterval int | WithSDKVersion string

fun apply_option :: "sdk_option \<Rightarrow> sdk_client \<Rightarrow> sdk_client" where
  "apply_option (WithMaxBatch n) c = c\<lparr>sc_maxBatch := (if n > 500 then 500 else n)\<rparr>"
| "apply_option (WithFlushInterval d) c = c\<lparr>sc_flushInterval := d\<rparr>"
| "apply_option (WithSDKVersion v) c = c\<lparr>sc_sdkVersion := v\<rparr>"

text \<open>The HTTP client of \<open>WithHTTPClient\<close> is in the environment.  \<open>NewTicker\<close>, in the
  goroutine that is started, panics on an interval that is not positive: \<open>None\<close>.\<close>

definition sdk_New :: "string \<Rightarrow> string \<Rightarrow> string \<Rightarrow> string \<Rightarrow> sdk_option list \<Rightarrow> sdk_client option" where
  "sdk_New baseURL apiKey appID deviceID opts =
     (let c = fold apply_option opts
        \<lparr>sc_baseURL = baseURL, sc_apiKey = apiKey, sc_appID = appID, sc_deviceID = deviceID,
         sc_sdkVersion = ''1.0.0'', sc_queue = [], sc_maxBatch = 100, sc_flushInterval = 2000000000, sc_stopped = False\<rparr>
      in if sc_flushInterval c > 0 then Some c else None)"

text \<open>The end of both requests: the error of the call and the requests sent.\<close>

definition sdk_post :: "sdk_env \<Rightarrow> string \<Rightarrow> sdk_request \<Rightarrow> go_error option \<times> sdk_request list" where
  "sdk_post env what rq =
     (if \<not> sd_valid_url env (sq_url rq) then (Some (Errorf ''parse url''), [])
      else (case sd_Do env rq of
          Inl e \<Rightarrow> (Some e, [rq])
        | Inr status \<Rightarrow>
            (if status \<ge> 400 then Some (Errorf (what @ '': HTTP '' @ itoa (int status))) else None, [rq])))"

definition batch_payload :: "int \<Rightarrow> sdk_client \<Rightarrow> json list \<Rightarrow> json" where
  "batch_payload now c events = JObj
     [(''app_id'', JStr (sc_appID c)), (''device_id'', JStr (sc_deviceID c)), (''events'', JArr events),
      (''sdk_version'', JStr (sc_sdkVersion c)), (''sent_at_ms'', JNum (of_int now))]"

definition sendBatch :: "sdk_env \<Rightarrow> int \<Rightarrow> sdk_client \<Rightarrow> sdk_event list \<Rightarrow> go_error option \<times> sdk_request list" where
  "sendBatch env now c events =
     (case those (map marshal_event events) of
        None \<Rightarrow> (Some (Errorf ''json''), [])
      | Some js \<Rightarrow> sdk_post env ''ingest''
          \<lparr>sq_url = sc_baseURL c @ ''/v1/events'',
           sq_headers = [(''Content-Type'', ''application/json''), (''Content-Encoding'', ''gzip''), (''X-API-Key'', sc_apiKey c)],
           sq_body = sd_gzip env (sd_text env (batch_payload now c js))\<rparr>)"

definition sdk_Flush :: "sdk_env \<Rightarrow> int \<Rightarrow> sdk_client \<Rightarrow> sdk_client \<times> sdk_request list" where
  "sdk_Flush env now c =
     (if sc_queue c = [] then (c, [])
      else (c\<lparr>sc_queue := []\<rparr>, snd (sendBatch env now c (sc_queue c))))"

definition stamp :: "int \<Rightarrow> sdk_event \<Rightarrow> sdk_event" where
  "stamp now e = (if sv_EventTime e = 0 then e\<lparr>sv_EventTime := now\<rparr> else e)"

definition sdk_Track :: "sdk_env \<Rightarrow> int \<Rightarrow> sdk_event \<Rightarrow> sdk_client \<Rightarrow> sdk_client \<times> sdk_request list" where
  "sdk_Track env now e c =
     (let c1 = c\<lparr>sc_queue := sc_queue c @ [stamp now e]\<rparr> in
      if int (length (sc_queue c1)) \<ge> sc_maxBatch c1 then sdk_Flush env now c1 else (c1, []))"

definition TrackNow :: "sdk_env \<Rightarrow> int \<Rightarrow> sdk_event \<Rightarrow> sdk_client \<Rightarrow> go_error option \<times> sdk_request list" where
  "TrackNow env now e c = sendBatch env now c [stamp now e]"

definition Identify :: "sdk_env \<Rightarrow> string \<Rightarrow> sdk_map \<Rightarrow> sdk_client \<Rightarrow> go_error option \<times> sdk_request list" where
  "Identify env userID traits c =
     (case marshal_map traits of
        None \<Rightarrow> (Some (Errorf ''json''), [])
      | Some t \<Rightarrow> sdk_post env ''identify''
          \<lparr>sq_url = sc_baseURL c @ ''/v1/identify'',
           sq_headers = [(''Content-Type'', ''application/json''), (''X-API-Key'', sc_apiKey c)],
           sq_body = sd_text env (JObj (obj_fields [(''user_id'', fstr userID), (''traits'', oprops t)]))\<rparr>)"

text \<open>Closing a closed channel panics: \<open>None\<close>.  A tick of \<open>flushLoop\<close> flushes, until
  the client is closed.\<close>

definition sdk_Close :: "sdk_env \<Rightarrow> int \<Rightarrow> sdk_client \<Rightarrow> (sdk_client \<times> sdk_request list) option" where
  "sdk_Close env now c = (if sc_stopped c then None else Some (sdk_Flush env now (c\<lparr>sc_stopped := True\<rparr>)))"

definition flush_tick :: "sdk_env \<Rightarrow> int \<Rightarrow> sdk_client \<Rightarrow> sdk_client \<times> sdk_request list" where
  "flush_tick env now c = (if sc_stopped c then (c, []) else sdk_Flush env now c)"

section \<open>The queue under concurrent calls\<close>

text \<open>\<open>cs_due\<close> are the goroutines that have seen the queue full in \<open>Track\<close> and have not
  reached the lock of \<open>Flush\<close> yet; \<open>cs_taken\<close> the batches taken from the queue, each of
  which is sent once.  \<open>cs_tracked\<close> records the events in the order they were queued.\<close>

record 'e sdk_state =
  cs_queue :: "'e list"
  cs_due :: "nat set"
  cs_taken :: "'e list list"
  cs_tracked :: "'e list"

definition cs_init :: "'e sdk_state" where
  "cs_init = \<lparr>cs_queue = [], cs_due = {}, cs_taken = [], cs_tracked = []\<rparr>"

definition cs_append :: "int \<Rightarrow> nat \<Rightarrow> 'e \<Rightarrow> 'e sdk_state \<Rightarrow> 'e sdk_state" where
  "cs_append m t e s =
     (let q = cs_queue s @ [e] in
      s\<lparr>cs_queue := q, cs_tracked := cs_tracked s @ [e],
        cs_due := (if int (length q) \<ge> m then insert t (cs_due s) else cs_due s)\<rparr>)"

definition cs_take :: "nat \<Rightarrow> 'e sdk_state \<Rightarrow> 'e sdk_state" where
  "cs_take t s =
     s\<lparr>cs_queue := [], cs_due := cs_due s - {t},
       cs_taken := (if cs_queue s = [] then cs_taken s else cs_taken s @ [cs_queue s])\<rparr>"

text \<open>Goroutine \<open>t < n\<close> queues an event when it owes no flush; any goroutine, the ticker's
  included, may flush at any time.\<close>

inductive sdk_step :: "int \<Rightarrow> nat \<Rightarrow> 'e sdk_state \<Rightarrow> 'e sdk_state \<Rightarrow> bool" for m n where
  track: "t < n \<Longrightarrow> t \<notin> cs_due s \<Longrightarrow> sdk_step m n s (cs_append m t e s)"
| flush: "sdk_step m n s (cs_take t s)"

lemma sdk_step_inv:
  assumes "sdk_step m n s s'"
    "concat (cs_taken s) @ cs_queue s = cs_tracked s" "cs_due s \<subseteq> {..<n}"
    "int (length (cs_queue s)) \<le> max m 1 - 1 + int (card (cs_due s))"
    "\<forall>b \<in> set (cs_taken s). b \<noteq> [] \<and> int (length b) \<le> max m 1 - 1 + int n"
  shows "concat (cs_taken s') @ cs_queue s' = cs_tracked s' \<and> cs_due s' \<subseteq> {..<n}
    \<and> int (length (cs_queue s')) \<le> max m 1 - 1 + int (card (cs_due s'))
    \<and> (\<forall>b \<in> set (cs_taken s'). b \<noteq> [] \<and> int (length b) \<le> max m 1 - 1 + int n)"
  using assms(1)
proof cases
  case (track t e)
  have "card (insert t (cs_due s)) = Suc (card (cs_due s))"
    using track assms(3) by (simp add: finite_subset [of "cs_due s" "{..<n}"])
  then show ?thesis using track assms(2-5) by (auto simp: cs_append_def Let_def)
next
  case (flush t)
  have "card (cs_due s) \<le> n" using assms(3) card_mono [of "{..<n}"] by fastforce
  then show ?thesis using flush assms(2-5) by (auto simp: cs_take_def)
qed

text \<open>C37: whatever the interleaving of \<open>n\<close> goroutines and the ticker, the batches of the
  client and its queue hold each tracked event exactly once, in the order of tracking; no
  batch is empty, and none is longer than the maximum plus the other goroutines.\<close>

theorem sdk_queue_conserves:
  assumes "(sdk_step m n)\<^sup>*\<^sup>* cs_init s"
  shows "concat (cs_taken s) @ cs_queue s = cs_tracked s
    \<and> (\<forall>b \<in> set (cs_taken s). b \<noteq> [] \<and> int (length b) \<le> max m 1 - 1 + int n)"
proof -
  from assms have "concat (cs_taken s) @ cs_queue s = cs_tracked s \<and> cs_due s \<subseteq> {..<n}
    \<and> int (length (cs_queue s)) \<le> max m 1 - 1 + int (card (cs_due s))
    \<and> (\<forall>b \<in> set (cs_taken s). b \<noteq> [] \<and> int (length b) \<le> max m 1 - 1 + int n)"
  proof induction
    case base
    then show ?case by (simp add: cs_init_def)
  next
    case (step s s')
    show ?case by (rule sdk_step_inv [OF step.hyps(2)]) (use step.IH in blast)+
  qed
  then show ?thesis by blast
qed

text \<open>With two goroutines a batch of one event more than the maximum is reached: both see the
  queue full before the first flush.  A maximum of 500 then exceeds the gateway's limit.\<close>

lemma sdk_batch_overshoots:
  assumes "0 < m"
  shows "\<exists>s. (sdk_step (int m) 2)\<^sup>*\<^sup>* cs_init s \<and> cs_taken s = [replicate m e @ [e :: 'e]]"
proof -
  have fill: "(sdk_step (int m) 2)\<^sup>*\<^sup>* cs_init
      \<lparr>cs_queue = replicate k e, cs_due = (if k = m then {0} else {}), cs_taken = [], cs_tracked = replicate k e\<rparr>"
    if "k \<le> m" for k
    using that
  proof (induction k)
    case (Suc k)
    let ?s = "\<lparr>cs_queue = replicate k e, cs_due = {}, cs_taken = [], cs_tracked = replicate k e\<rparr>"
    have "sdk_step (int m) 2 ?s (cs_append (int m) 0 e ?s)" by (rule sdk_step.track) simp_all
    then show ?case using Suc by (auto simp: cs_append_def Let_def replicate_append_same intro: rtranclp.rtrancl_into_rtrancl)
  qed (use assms in \<open>simp add: cs_init_def\<close>)
  let ?s = "\<lparr>cs_queue = replicate m e, cs_due = {0::nat}, cs_taken = [], cs_tracked = replicate m e\<rparr>"
  have "sdk_step (int m) 2 ?s (cs_append (int m) 1 e ?s)" by (rule sdk_step.track) simp_all
  moreover have "sdk_step (int m) 2 (cs_append (int m) 1 e ?s) (cs_take 0 (cs_append (int m) 1 e ?s))"
    by (rule sdk_step.flush)
  ultimately have "(sdk_step (int m) 2)\<^sup>*\<^sup>* cs_init (cs_take 0 (cs_append (int m) 1 e ?s))"
    using fill [of m] by (simp add: rtranclp.rtrancl_into_rtrancl)
  then show ?thesis
    by (intro exI [of _ "cs_take 0 (cs_append (int m) 1 e ?s)"]) (simp add: cs_take_def cs_append_def Let_def)
qed

theorem sdk_queue_conserves_witness:
  "concat [[''a'', ''b''] :: string list] @ [] = [''a'', ''b''] \<and> int (length [''a'', ''b'']) \<le> max 1 1 - 1 + int 2"
proof -
  let ?s0 = "cs_init :: string sdk_state"
  let ?s1 = "\<lparr>cs_queue = [''a''], cs_due = {0}, cs_taken = [], cs_tracked = [''a'']\<rparr> :: string sdk_state"
  let ?s2 = "\<lparr>cs_queue = [''a'', ''b''], cs_due = {0, 1}, cs_taken = [], cs_tracked = [''a'', ''b'']\<rparr> :: string sdk_state"
  let ?s3 = "\<lparr>cs_queue = [], cs_due = {1}, cs_taken = [[''a'', ''b'']], cs_tracked = [''a'', ''b'']\<rparr> :: string sdk_state"
  have "sdk_step 1 2 ?s0 (cs_append 1 0 ''a'' ?s0)" "sdk_step 1 2 ?s1 (cs_append 1 1 ''b'' ?s1)"
    "sdk_step 1 2 ?s2 (cs_take 0 ?s2)"
    by (rule sdk_step.track; simp add: cs_init_def)+ (rule sdk_step.flush)
  then have "sdk_step 1 2 ?s0 ?s1" "sdk_step 1 2 ?s1 ?s2" "sdk_step 1 2 ?s2 ?s3"
    by (simp_all add: cs_append_def cs_take_def cs_init_def Let_def insert_commute)
  then have s: "(sdk_step 1 2)\<^sup>*\<^sup>* ?s0 ?s3"
    by (meson r_into_rtranclp rtranclp.rtrancl_into_rtrancl)
  show ?thesis using sdk_queue_conserves [OF s] by simp
qed

section \<open>What the gateway makes of a batch\<close>

definition wire_ok :: "sdk_env \<Rightarrow> gateway_env \<Rightarrow> bool" where
  "wire_ok env ge \<longleftrightarrow> (\<forall>j. ge_parse ge (sd_text env j) = Some j) \<and> (\<forall>s. ge_gunzip ge (sd_gzip env s) = Some s)"

text \<open>The events the gateway decodes.\<close>

definition received :: "sdk_event \<Rightarrow> event" where
  "received e = \<lparr>ev_EventID = sv_EventID e, ev_EventName = sv_EventName e, ev_EventTime = sv_EventTime e,
     ev_Props = (case marshal_map (sv_Props e) of None \<Rightarrow> None | Some p \<Rightarrow> p), ev_Device = None, ev_App = None,
     ev_Revenue = sv_Revenue e\<rparr>"

definition sdk_event_ok :: "sdk_event \<Rightarrow> bool" where
  "sdk_event_ok e \<longleftrightarrow> sv_EventTime e \<noteq> 0 \<and> in_i64 (sv_EventTime e)
     \<and> (case marshal_map (sv_Props e) of None \<Rightarrow> False | Some p \<Rightarrow> wf_props p)"

lemma wf_sdk_fields: "wf_fields (sdk_event_fields e p)"
  unfolding wf_fields_def sdk_event_fields_def by (simp add: to_lower_def to_lower_char_def)

lemma sdk_event_decodes:
  assumes "sdk_event_ok e"
  shows "\<exists>j. marshal_event e = Some j \<and> (jobj j \<bind> decode_event) = Some (received e)"
proof -
  obtain p where p: "marshal_map (sv_Props e) = Some p" "wf_props p"
    using assms by (auto simp: sdk_event_ok_def split: option.splits)
  have "decode_event (obj_fields (sdk_event_fields e p)) = Some (received e)"
    unfolding decode_event_def jvals_obj_fields [OF wf_sdk_fields]
    using assms p by (simp add: sdk_event_fields_def sdk_event_ok_def wire_simps received_def)
  then show ?thesis by (simp add: marshal_event_def p jobj_def)
qed

definition as_ingest :: "string \<Rightarrow> sdk_request \<Rightarrow> ingest_request" where
  "as_ingest remote rq = \<lparr>ir_encoding = conf_get (sq_headers rq) ''Content-Encoding'', ir_body = sq_body rq,
     ir_forwarded = [], ir_remote = remote\<rparr>"

definition sdk_batch :: "int \<Rightarrow> sdk_client \<Rightarrow> sdk_event list \<Rightarrow> event_batch" where
  "sdk_batch now c es = \<lparr>eb_AppID = sc_appID c, eb_DeviceID = sc_deviceID c, eb_UserID = [],
     eb_SDKVersion = sc_sdkVersion c, eb_SentAtMs = now, eb_Events = map received es\<rparr>"

lemma marshal_events:
  "list_all sdk_event_ok es \<Longrightarrow> \<exists>js. those (map marshal_event es) = Some js
     \<and> those (map (\<lambda>j. jobj j \<bind> decode_event) js) = Some (map received es)"
proof (induction es)
  case (Cons e es)
  from Cons obtain js where "those (map marshal_event es) = Some js"
    "those (map (\<lambda>j. jobj j \<bind> decode_event) js) = Some (map received es)" by auto
  moreover obtain j where "marshal_event e = Some j" "(jobj j \<bind> decode_event) = Some (received e)"
    using sdk_event_decodes Cons.prems by auto
  ultimately show ?case by simp
qed simp

lemma sendBatch_received:
  assumes "wire_ok env ge" "list_all sdk_event_ok es" "in_i64 now" "sd_valid_url env (sc_baseURL c @ ''/v1/events'')"
  shows "\<exists>rq. snd (sendBatch env now c es) = [rq] \<and> request_batch ge (as_ingest remote rq) = Some (sdk_batch now c es)"
proof -
  obtain js where js: "those (map marshal_event es) = Some js"
    "those (map (\<lambda>j. jobj j \<bind> decode_event) js) = Some (map received es)"
    using marshal_events [OF assms(2)] by blast
  let ?m = "[(''app_id'', JStr (sc_appID c)), (''device_id'', JStr (sc_deviceID c)), (''events'', JArr js),
      (''sdk_version'', JStr (sc_sdkVersion c)), (''sent_at_ms'', JNum (of_int now))]"
  have "decode_batch ?m = Some (sdk_batch now c es)"
    using js(2) assms(3) by (simp add: decode_batch_def jvals_def to_lower_def to_lower_char_def sdk_batch_def)
  then show ?thesis
    using js(1) assms(1,4)
    by (auto simp: sendBatch_def sdk_post_def request_batch_def readBody_def as_ingest_def conf_get_def wire_ok_def
        batch_payload_def jobj_def split: sum.splits)
qed

lemma wf_sdk_batch: "list_all sdk_event_ok es \<Longrightarrow> in_i64 now \<Longrightarrow> wf_batch (sdk_batch now c es)"
  by (auto simp: wf_batch_def sdk_batch_def list_all_iff received_def sdk_event_ok_def split: option.splits)

text \<open>A batch the client sends arrives: the gateway reads from the compressed request the
  batch of exactly the client's events, in order, and answers 202, unless it holds more than
  500 events, when it answers 400 and every event of the batch is lost.\<close>

theorem sdk_batch_arrives:
  assumes "wire_ok env ge" "list_all sdk_event_ok es" "es \<noteq> []" "in_i64 now"
    "sd_valid_url env (sc_baseURL c @ ''/v1/events'')"
  shows "\<exists>rq. snd (sendBatch env now c es) = [rq]
    \<and> request_batch ge (as_ingest remote rq) = Some (sdk_batch now c es)
    \<and> eb_Events (sdk_batch now c es) = map received es
    \<and> rs_status (fst (handleIngest BL ge now' a (as_ingest remote rq) gw)) = (if length es \<le> 500 then 202 else 400)
    \<and> (length es > 500 \<longrightarrow> snd (handleIngest BL ge now' a (as_ingest remote rq) gw) = gw)"
proof -
  obtain rq where rq: "snd (sendBatch env now c es) = [rq]"
    "request_batch ge (as_ingest remote rq) = Some (sdk_batch now c es)"
    using sendBatch_received [OF assms(1,2,4,5)] by blast
  have ev: "eb_Events (sdk_batch now c es) = map received es" by (simp add: sdk_batch_def)
  show ?thesis
  proof (cases "length es \<le> 500")
    case True
    obtain es' f where loop: "dedup_loop BL now' (ge_newID ge) 0 (eb_Events (sdk_batch now c es)) (gw_filter gw) = (es', f)"
      by (cases "dedup_loop BL now' (ge_newID ge) 0 (eb_Events (sdk_batch now c es)) (gw_filter gw)")
    have "eb_Events (sdk_batch now c es) \<noteq> []" "length (eb_Events (sdk_batch now c es)) \<le> 500"
      using assms(3) True by (simp_all add: ev)
    from handleIngest_cases [OF rq(2) this loop, of a] True rq ev show ?thesis by auto
  next
    case False
    obtain body where "readBody ge (as_ingest remote rq) = Some body"
      "ge_parse ge body \<bind> jobj \<bind> decode_batch = Some (sdk_batch now c es)"
      using rq(2) by (auto simp: request_batch_def bind_eq_Some_conv)
    with False assms(3) rq ev show ?thesis by (simp add: handleIngest_def)
  qed
qed

text \<open>A text of JSON values that can be parsed, for an example.\<close>

instance json :: countable
  by countable_datatype

definition sdk_demo_env :: sdk_env where
  "sdk_demo_env = \<lparr>sd_text = (\<lambda>j. replicate (to_nat j) (CHR ''x'')), sd_gzip = (\<lambda>s. s),
     sd_valid_url = (\<lambda>_. True), sd_Do = (\<lambda>_. Inr 202)\<rparr>"

definition sdk_demo_gateway :: gateway_env where
  "sdk_demo_gateway = demo_env\<lparr>ge_parse := (\<lambda>s. Some (from_nat (length s))), ge_gunzip := Some\<rparr>"

definition sdk_demo_client :: sdk_client where
  "sdk_demo_client = \<lparr>sc_baseURL = ''u'', sc_apiKey = ''k'', sc_appID = ''a'', sc_deviceID = ''d'',
     sc_sdkVersion = ''1.0.0'', sc_queue = [], sc_maxBatch = 100, sc_flushInterval = 1, sc_stopped = False\<rparr>"

definition sdk_demo_event :: sdk_event where
  "sdk_demo_event = \<lparr>sv_EventID = [], sv_EventName = ''buy'', sv_EventTime = 5,
     sv_Props = Some [(''n'', Some (JNum 3))], sv_Revenue = 0\<rparr>"

theorem sdk_batch_arrives_witness:
  "\<exists>rq. snd (sendBatch sdk_demo_env 7 sdk_demo_client [sdk_demo_event]) = [rq]
    \<and> rs_status (fst (handleIngest list_bloom sdk_demo_gateway 1 demo_app (as_ingest ''1.1.1.1:1'' rq) demo_gateway)) = 202"
proof -
  have "wire_ok sdk_demo_env sdk_demo_gateway"
    by (simp add: wire_ok_def sdk_demo_env_def sdk_demo_gateway_def)
  moreover have "list_all sdk_event_ok [sdk_demo_event]"
    by (simp add: sdk_event_ok_def sdk_demo_event_def marshal_map_def in_i64_def wf_props_def to_map_def)
  moreover have "in_i64 7" "sd_valid_url sdk_demo_env (sc_baseURL sdk_demo_client @ ''/v1/events'')"
    by (simp_all add: in_i64_def sdk_demo_env_def)
  ultimately show ?thesis
    using sdk_batch_arrives [of sdk_demo_env sdk_demo_gateway "[sdk_demo_event]" 7 sdk_demo_client "''1.1.1.1:1''"
        list_bloom 1 demo_app demo_gateway]
    by auto
qed

section \<open>What is lost\<close>

text \<open>One event with a property JSON cannot carry takes its whole batch with it, and
  \<open>Flush\<close> does not report the error.\<close>

lemma unencodable_event_loses_batch:
  assumes "marshal_event e = None" "e \<in> set (sc_queue c)"
  shows "sdk_Flush env now c = (c\<lparr>sc_queue := []\<rparr>, [])"
proof -
  have none: "None \<in> set xs \<Longrightarrow> those xs = None" for xs :: "json option list"
    by (induction xs) (auto split: option.splits)
  have "those (map marshal_event (sc_queue c)) = None"
    using assms by (intro none) (force simp: image_iff)
  then show ?thesis using assms(2) by (auto simp: sdk_Flush_def sendBatch_def)
qed

lemma second_close_panics:
  "sdk_Close env now c = Some (c', out) \<Longrightarrow> sdk_Close env now' c' = None"
  by (auto simp: sdk_Close_def sdk_Flush_def split: if_splits)

text \<open>After \<open>Close\<close> the ticker is gone: a tracked event stays in the queue until the queue is
  full.\<close>

lemma tracked_after_close_stays:
  assumes "sdk_Close env now c = Some (c', out)" "1 < sc_maxBatch c"
  shows "snd (sdk_Track env now' e c') = [] \<and> flush_tick env now'' (fst (sdk_Track env now' e c')) = (fst (sdk_Track env now' e c'), [])"
  using assms by (auto simp: sdk_Close_def sdk_Flush_def sdk_Track_def flush_tick_def Let_def split: if_splits)

end
