(* ===== verification/Flow.thy ===== *)
theory Flow
  imports SDK
begin

text \<open>
  The services put together along the topics: what the gateway publishes to the raw topic
  goes through the enricher's handler, what that publishes through the session service's, and
  what that publishes becomes rows of the ClickHouse writer.  The records of a topic are
  handled in the order they were published in, as they are within a partition.
\<close>

type_synonym record_out = "string \<times> string \<times> json"

fun enrich_run ::
  "(string \<Rightarrow> nat list option) \<Rightarrow> geo_db option option \<Rightarrow> topics \<Rightarrow> record_out list \<Rightarrow> producer \<Rightarrow> producer" where
  "enrich_run v6 geo tp [] p = p"
| "enrich_run v6 geo tp ((topic, key, j) # rs) p =
     enrich_run v6 geo tp rs (snd (enricher_handle v6 geo tp key (Some j) p))"

text \<open>\<open>clk n\<close> is the Redis clock when the \<open>n\<close>th record is handled.\<close>

fun session_run ::
  "('s, json) redis \<Rightarrow> topics \<Rightarrow> (nat \<Rightarrow> int) \<Rightarrow> nat \<Rightarrow> record_out list \<Rightarrow> 's \<times> producer \<Rightarrow> 's \<times> producer" where
  "session_run R tp clk n [] sp = sp"
| "session_run R tp clk n ((topic, key, j) # rs) sp =
     session_run R tp clk (Suc n) rs (snd (session_handle R tp (clk n) key (Some j) sp))"

definition rows_of :: "(f64 \<Rightarrow> string) \<Rightarrow> record_out list \<Rightarrow> ch_event list" where
  "rows_of g rs = List.map_filter (\<lambda>(topic, key, j). chwriter_row g (Some j)) rs"

text \<open>From the records of the raw topic to the rows.\<close>

definition pipeline_rows ::
  "(string \<Rightarrow> nat list option) \<Rightarrow> geo_db option option \<Rightarrow> ('s, json) redis \<Rightarrow> (f64 \<Rightarrow> string) \<Rightarrow> topics \<Rightarrow>
   (nat \<Rightarrow> int) \<Rightarrow> 's \<Rightarrow> record_out list \<Rightarrow> ch_event list" where
  "pipeline_rows v6 geo R g tp clk s raw =
     rows_of g (pr_out (snd (session_run R tp clk 0 (pr_out (enrich_run v6 geo tp raw \<lparr>pr_out = []\<rparr>)) (s, \<lparr>pr_out = []\<rparr>))))"

section \<open>One stage at a time\<close>

definition row_data :: "ch_event \<Rightarrow> string \<times> string \<times> int \<times> f64 \<times> string \<times> string" where
  "row_data r = (ch_EventID r, ch_EventName r, ch_EventTime r, ch_Revenue r, ch_AppID r, ch_DeviceID r)"

definition enriched_data :: "enriched_event \<Rightarrow> string \<times> string \<times> int \<times> f64 \<times> string \<times> string" where
  "enriched_data e = (ee_EventID e, ee_EventName e, ee_EventTime e, ee_Revenue e, ee_AppID e, ee_DeviceID e)"

text \<open>The rows that carry an event, and not a synthetic record of the session engine.\<close>

definition event_rows :: "(f64 \<Rightarrow> string) \<Rightarrow> record_out list \<Rightarrow> (string \<times> string \<times> int \<times> f64 \<times> string \<times> string) list" where
  "event_rows g rs = map row_data (filter (\<lambda>r. ch_EventID r \<noteq> []) (rows_of g rs))"

lemma event_rows_append [simp]: "event_rows g (rs @ rs') = event_rows g rs @ event_rows g rs'"
  by (simp add: event_rows_def rows_of_def List.map_filter_def)

lemma event_rows_Nil [simp]: "event_rows g [] = []"
  by (simp add: event_rows_def rows_of_def List.map_filter_def)

lemma event_rows_enriched:
  "wf_enriched e \<Longrightarrow> ee_EventID e \<noteq> [] \<Longrightarrow> event_rows g [(topic, key, encode_enriched e)] = [enriched_data e]"
  by (simp add: event_rows_def rows_of_def List.map_filter_def chwriter_row_def enriched_decodes ToCHEvent_def
      row_data_def enriched_data_def)

lemma event_rows_synthetic: "event_rows g (map (\<lambda>se. (topic, key, encode_session_event se)) ses) = []"
  by (induction ses)
    (simp_all add: event_rows_def rows_of_def List.map_filter_def chwriter_row_def session_event_as_enriched ToCHEvent_def zero_enriched_def)

lemma session_handle_rows:
  assumes "wf_enriched e" "ee_EventID e \<noteq> []"
  shows "\<exists>s' X. session_handle R tp clock key (Some (encode_enriched e)) (s, p) = (None, s', \<lparr>pr_out = pr_out p @ X\<rparr>)
     \<and> event_rows g X = [enriched_data e]"
proof -
  obtain updated ses err s' where pr: "session_Process R NewEngine clock e s = ((updated, ses, err), s')"
    by (metis prod.collapse)
  from session_process_event [of R NewEngine clock e s] pr
  obtain st :: session_state where u: "updated = e\<lparr>ee_SessionID := ss_SessionID st\<rparr>" "err = None" by auto
  let ?X = "(tp_session tp, device_key updated, encode_enriched updated)
      # map (\<lambda>se. (tp_session tp, device_key updated, encode_session_event se)) ses"
  have wf: "wf_enriched updated" "ee_EventID updated \<noteq> []" "enriched_data updated = enriched_data e"
    using assms u by (simp_all add: wf_enriched_def enriched_data_def)
  have "event_rows g ?X = event_rows g [(tp_session tp, device_key updated, encode_enriched updated)]
      @ event_rows g (map (\<lambda>se. (tp_session tp, device_key updated, encode_session_event se)) ses)"
    by (metis append_Cons append_Nil event_rows_append)
  then have "event_rows g ?X = [enriched_data e]"
    using event_rows_enriched [OF wf(1,2), of g "tp_session tp" "device_key updated"] wf(3) by (simp add: event_rows_synthetic)
  moreover have "pr_out (publish_all (tp_session tp) ((device_key updated, Some (encode_enriched updated))
      # map (\<lambda>se. (device_key updated, Some (encode_session_event se))) ses) p) = pr_out p @ ?X"
    using publish_all_out [of "tp_session tp" "\<lambda>_. device_key updated" "encode_session_event" ses
        "snd (PublishAsync (tp_session tp) (device_key updated) (Some (encode_enriched updated)) p)"]
    by (simp add: PublishAsync_def)
  ultimately show ?thesis
    using pr u(2) by (intro exI [of _ s'] exI [of _ ?X])
      (simp add: session_handle_def enriched_decodes assms(1) producer_eq)
qed

lemma session_run_rows:
  assumes "list_all (\<lambda>e. wf_enriched e \<and> ee_EventID e \<noteq> []) es"
  shows "\<exists>X. pr_out (snd (session_run R tp clk n (map (\<lambda>e. (t, k e, encode_enriched e)) es) (s, p))) = pr_out p @ X
     \<and> event_rows g X = map enriched_data es"
  using assms
proof (induction es arbitrary: n s p)
  case (Cons e es)
  have e: "wf_enriched e" "ee_EventID e \<noteq> []" and es: "list_all (\<lambda>e. wf_enriched e \<and> ee_EventID e \<noteq> []) es"
    using Cons.prems by simp_all
  from session_handle_rows [OF e, of R tp "clk n" "k e" s p g]
  obtain s' X where h: "session_handle R tp (clk n) (k e) (Some (encode_enriched e)) (s, p) = (None, s', \<lparr>pr_out = pr_out p @ X\<rparr>)"
    "event_rows g X = [enriched_data e]" by blast
  from Cons.IH [OF es, of "Suc n" s' "\<lparr>pr_out = pr_out p @ X\<rparr>"]
  obtain Y where "pr_out (snd (session_run R tp clk (Suc n) (map (\<lambda>e. (t, k e, encode_enriched e)) es)
      (s', \<lparr>pr_out = pr_out p @ X\<rparr>))) = (pr_out p @ X) @ Y" "event_rows g Y = map enriched_data es" by auto
  with h show ?case by (intro exI [of _ "X @ Y"]) simp
qed simp

lemma enricher_handle_out:
  assumes "wf_batch b" "in_i64 ts" "encode_ingest b (Some ip) ts = Some v"
  shows "enricher_handle v6 geo tp key (Some v) \<lparr>pr_out = []\<rparr> = (None, \<lparr>pr_out =
     map (\<lambda>e. (tp_enriched tp, device_key e, encode_enriched e)) (Enrich v6 geo \<lparr>im_Batch = b, im_ClientIP = ip, im_ServerTS = ts\<rparr>)\<rparr>)"
  using ingest_roundtrip [OF assms(1,2), of "Some ip"] assms(3)
  by (simp add: enricher_handle_def publish_all_out producer_eq)

lemma Enrich_data:
  fixes v6 :: "string \<Rightarrow> nat list option" and geo :: "geo_db option option" and ip :: string
  assumes "wf_batch b" "in_i64 ts" "\<forall>e \<in> set (eb_Events b). ev_EventID e \<noteq> []"
  defines "es \<equiv> Enrich v6 geo \<lparr>im_Batch = b, im_ClientIP = ip, im_ServerTS = ts\<rparr>"
  shows "list_all (\<lambda>e. wf_enriched e \<and> ee_EventID e \<noteq> []) es"
    and "map enriched_data es = map (\<lambda>e. (ev_EventID e, ev_EventName e, ev_EventTime e, ev_Revenue e, eb_AppID b, eb_DeviceID b)) (eb_Events b)"
proof -
  define loc where "loc = (case geo of None \<Rightarrow> zero_location | Some db \<Rightarrow> geo_Lookup v6 db ip)"
  obtain br bv os where ua: "parseUA b = (br, bv, os)" by (cases "parseUA b") auto
  have es: "es = map (enrich_event b ts loc (br, bv, os)) (eb_Events b)"
    by (cases geo) (simp_all add: es_def Enrich_def loc_def ua Let_def)
  show "list_all (\<lambda>e. wf_enriched e \<and> ee_EventID e \<noteq> []) es"
    using assms(1-3) enrich_event_wf by (auto simp: es wf_batch_def list_all_iff enrich_event_def)
  show "map enriched_data es = map (\<lambda>e. (ev_EventID e, ev_EventName e, ev_EventTime e, ev_Revenue e, eb_AppID b, eb_DeviceID b)) (eb_Events b)"
    by (simp add: es enriched_data_def enrich_event_def)
qed

section \<open>What the gateway acknowledges\<close>

lemma fresh_events:
  assumes "wf_batch batch" "\<forall>i. newID i \<noteq> []" "dedup_loop BL now newID 0 (eb_Events batch) flt = (es, f)"
  shows "wf_batch (batch\<lparr>eb_AppID := i, eb_Events := es\<rparr>)" "\<forall>e \<in> set es. ev_EventID e \<noteq> []"
proof -
  have sub: "set es \<subseteq> set (named_events newID 0 (eb_Events batch))"
    using dedup_loop_FilterBatch [of BL now newID 0 "eb_Events batch" flt] assms(3) by (auto elim!: list_emb_set)
  have "list_all (\<lambda>e. wf_props (ev_Props e) \<and> in_i64 (ev_EventTime e)) (named_events newID 0 (eb_Events batch))"
    using assms(1) named_events_wf by (simp add: wf_batch_def)
  with assms(1) sub show "wf_batch (batch\<lparr>eb_AppID := i, eb_Events := es\<rparr>)"
    by (auto simp: wf_batch_def list_all_iff)
  show "\<forall>e \<in> set es. ev_EventID e \<noteq> []"
    using sub named_events_nonempty [of newID] assms(2) by blast
qed

text \<open>The one raw record of a batch and its rows.\<close>

lemma raw_record_rows:
  assumes "wf_batch b" "in_i64 now" "encode_ingest b (Some ip) now = Some v" "\<forall>e \<in> set (eb_Events b). ev_EventID e \<noteq> []"
  shows "map row_data (filter (\<lambda>r. ch_EventID r \<noteq> []) (pipeline_rows v6 geo R g tp clk s [(topic, key, v)]))
     = map (\<lambda>e. (ev_EventID e, ev_EventName e, ev_EventTime e, ev_Revenue e, eb_AppID b, eb_DeviceID b)) (eb_Events b)"
proof -
  define es where "es = Enrich v6 geo \<lparr>im_Batch = b, im_ClientIP = ip, im_ServerTS = now\<rparr>"
  have d: "list_all (\<lambda>e. wf_enriched e \<and> ee_EventID e \<noteq> []) es"
    "map enriched_data es = map (\<lambda>e. (ev_EventID e, ev_EventName e, ev_EventTime e, ev_Revenue e, eb_AppID b, eb_DeviceID b)) (eb_Events b)"
    unfolding es_def by (rule Enrich_data [OF assms(1,2,4)])+
  have out: "pr_out (enrich_run v6 geo tp [(topic, key, v)] \<lparr>pr_out = []\<rparr>)
      = map (\<lambda>e. (tp_enriched tp, device_key e, encode_enriched e)) es"
    using enricher_handle_out [OF assms(1-3)] by (simp add: es_def)
  obtain X where "pr_out (snd (session_run R tp clk 0 (map (\<lambda>e. (tp_enriched tp, device_key e, encode_enriched e)) es)
      (s, \<lparr>pr_out = []\<rparr>))) = X" "event_rows g X = map enriched_data es"
    using session_run_rows [OF d(1), of R tp clk 0 "tp_enriched tp" device_key s "\<lparr>pr_out = []\<rparr>" g] by auto
  then show ?thesis using d(2) unfolding pipeline_rows_def out event_rows_def by simp
qed

end
