(* ===== verification/Health.thy ===== *)
theory Health
  imports Http "HOL-Library.Multiset"
begin

text \<open>
  Package \<open>internal/health\<close>: the readiness aggregator.  A check is an external function;
  its outcome (an error text or none, and how long it took) is an argument.  The checks run
  in parallel: \<open>order\<close> is the order in which their results reach the channel, any
  permutation of the check indices.
\<close>

record named_check =
  nc_name :: string
  nc_critical :: bool

record health_status =
  hs_Name :: string
  hs_OK :: bool
  hs_Latency :: int
  hs_Error :: string

record health_report =
  hr_OK :: bool
  hr_Checks :: "health_status list"
  hr_GeneratedAt :: int

record checker =
  hk_checks :: "named_check list"
  hk_timeout :: int

definition health_New :: "int \<Rightarrow> checker" where
  "health_New timeout = \<lparr>hk_checks = [], hk_timeout = timeout\<rparr>"

definition AddCritical :: "string \<Rightarrow> checker \<Rightarrow> checker" where
  "AddCritical name c = c\<lparr>hk_checks := hk_checks c @ [\<lparr>nc_name = name, nc_critical = True\<rparr>]\<rparr>"

definition AddOptional :: "string \<Rightarrow> checker \<Rightarrow> checker" where
  "AddOptional name c = c\<lparr>hk_checks := hk_checks c @ [\<lparr>nc_name = name, nc_critical = False\<rparr>]\<rparr>"

text \<open>The outcome of a check: its error, if any, and its latency in nanoseconds.\<close>

type_synonym outcome = "string option \<times> int"

text \<open>What one goroutine sends.\<close>

definition check_status :: "named_check \<Rightarrow> outcome \<Rightarrow> health_status" where
  "check_status chk oc =
     \<lparr>hs_Name = nc_name chk, hs_OK = (fst oc = None), hs_Latency = snd oc,
      hs_Error = (case fst oc of None \<Rightarrow> [] | Some e \<Rightarrow> e)\<rparr>"

definition zero_status :: health_status where
  "zero_status = \<lparr>hs_Name = [], hs_OK = False, hs_Latency = 0, hs_Error = []\<rparr>"

text \<open>The loop over the channel, then the loop over the results.\<close>

definition collect :: "nat \<Rightarrow> (nat \<times> health_status) list \<Rightarrow> health_status list" where
  "collect n received = foldl (\<lambda>results (idx, st). results[idx := st]) (replicate n zero_status) received"

definition health_Run :: "checker \<Rightarrow> (nat \<Rightarrow> outcome) \<Rightarrow> nat list \<Rightarrow> int \<Rightarrow> health_report" where
  "health_Run c outcomes order now =
     (let received = map (\<lambda>i. (i, check_status (hk_checks c ! i) (outcomes i))) order;
          results = collect (length (hk_checks c)) received
      in \<lparr>hr_OK = list_all (\<lambda>(chk, st). hs_OK st \<or> \<not> nc_critical chk) (zip (hk_checks c) results),
          hr_Checks = results, hr_GeneratedAt = now\<rparr>)"

definition status_json :: "health_status \<Rightarrow> json" where
  "status_json st = JObj (obj_fields [(''name'', fstr (hs_Name st)), (''ok'', Some (JBool (hs_OK st))),
     (''latency_ms'', fint (go_quot (hs_Latency st) 1000000)), (''error'', ostr (hs_Error st))])"

definition health_Handler :: "(int \<Rightarrow> string) \<Rightarrow> checker \<Rightarrow> (nat \<Rightarrow> outcome) \<Rightarrow> nat list \<Rightarrow> int \<Rightarrow> response" where
  "health_Handler rfc3339 c outcomes order now =
     (let report = health_Run c outcomes order now in
      writeJSON (if hr_OK report then 200 else 503)
        (JObj [(''ok'', JBool (hr_OK report)), (''checks'', JArr (map status_json (hr_Checks report))),
               (''generated_at'', JStr (rfc3339 (hr_GeneratedAt report)))]))"

lemma collect_step:
  "collect n (received @ [(i, st)]) = (collect n received)[i := st]"
  by (simp add: collect_def)

lemma collect_nth:
  assumes "distinct (map fst received)"
  shows "length (collect n received) = n"
    "i < n \<Longrightarrow> collect n received ! i = (case map_of received i of Some st \<Rightarrow> st | None \<Rightarrow> zero_status)"
  using assms
proof (induction received rule: rev_induct)
  case Nil
  { case 1 show ?case by (simp add: collect_def) }
  { case 2 then show ?case by (simp add: collect_def) }
next
  case (snoc p received)
  obtain j st where p: "p = (j, st)" by (cases p)
  { case 1 then show ?case using snoc.IH(1) by (simp add: p collect_step) }
  { case 2
    then have "j \<notin> fst ` set received" and len: "length (collect n received) = n"
      and IH: "collect n received ! i = (case map_of received i of Some st \<Rightarrow> st | None \<Rightarrow> zero_status)"
      using snoc.IH by (simp_all add: p)
    then have "map_of received j = None" by (simp add: map_of_eq_None_iff)
    then show ?case
      using 2(1) len IH by (cases "i = j") (simp_all add: p collect_step map_add_def split: option.splits) }
qed

lemma Run_checks:
  assumes "mset order = mset [0..<length (hk_checks c)]"
  shows "hr_Checks (health_Run c outcomes order now) =
    map (\<lambda>i. check_status (hk_checks c ! i) (outcomes i)) [0..<length (hk_checks c)]"
proof (rule nth_equalityI)
  define received where "received = map (\<lambda>i. (i, check_status (hk_checks c ! i) (outcomes i))) order"
  have dist: "distinct (map fst received)"
    using mset_eq_imp_distinct_iff [OF assms] by (simp add: received_def comp_def)
  have mem: "set order = {0..<length (hk_checks c)}" using mset_eq_setD [OF assms] by simp
  have checks: "hr_Checks (health_Run c outcomes order now) = collect (length (hk_checks c)) received"
    by (simp add: health_Run_def received_def Let_def)
  then show len: "length (hr_Checks (health_Run c outcomes order now)) =
      length (map (\<lambda>i. check_status (hk_checks c ! i) (outcomes i)) [0..<length (hk_checks c)])"
    using collect_nth(1) [OF dist] by simp
  fix i
  assume "i < length (hr_Checks (health_Run c outcomes order now))"
  then have i: "i < length (hk_checks c)" using len by simp
  have "(i, check_status (hk_checks c ! i) (outcomes i)) \<in> set received"
    using i mem by (auto simp: received_def)
  then have "map_of received i = Some (check_status (hk_checks c ! i) (outcomes i))"
    using dist by simp
  then show "hr_Checks (health_Run c outcomes order now) ! i =
      map (\<lambda>i. check_status (hk_checks c ! i) (outcomes i)) [0..<length (hk_checks c)] ! i"
    using collect_nth(2) [OF dist i] i by (simp add: checks)
qed

lemma Handler_status:
  assumes "mset order = mset [0..<length (hk_checks c)]"
  shows "rs_status (health_Handler rfc3339 c outcomes order now) =
      (if \<forall>i < length (hk_checks c). nc_critical (hk_checks c ! i) \<longrightarrow> fst (outcomes i) = None then 200 else 503)
    \<and> map hs_Name (hr_Checks (health_Run c outcomes order now)) = map nc_name (hk_checks c)"
proof -
  note checks = Run_checks [OF assms, of outcomes now]
  have "hr_OK (health_Run c outcomes order now) =
      list_all (\<lambda>(chk, st). hs_OK st \<or> \<not> nc_critical chk) (zip (hk_checks c) (hr_Checks (health_Run c outcomes order now)))"
    by (simp add: health_Run_def Let_def)
  also have "\<dots> = (\<forall>i < length (hk_checks c). nc_critical (hk_checks c ! i) \<longrightarrow> fst (outcomes i) = None)"
    by (auto simp: checks list_all_length check_status_def)
  finally have ok: "hr_OK (health_Run c outcomes order now) =
      (\<forall>i < length (hk_checks c). nc_critical (hk_checks c ! i) \<longrightarrow> fst (outcomes i) = None)" .
  have "map hs_Name (hr_Checks (health_Run c outcomes order now)) = map nc_name (hk_checks c)"
    unfolding checks by (rule nth_equalityI) (simp_all add: check_status_def)
  then show ?thesis by (simp add: health_Handler_def Let_def ok)
qed

section \<open>Properties\<close>

text \<open>Readiness does not depend on the order in which the parallel checks finish: the
  report lists them as registered, and the answer is 200 exactly when every critical check
  succeeded, else 503.\<close>

theorem readiness:
  assumes "mset order = mset [0..<length (hk_checks c)]"
  shows "rs_status (health_Handler rfc3339 c outcomes order now) =
      (if \<forall>i < length (hk_checks c). nc_critical (hk_checks c ! i) \<longrightarrow> fst (outcomes i) = None then 200 else 503)
    \<and> map hs_Name (hr_Checks (health_Run c outcomes order now)) = map nc_name (hk_checks c)"
  by (rule Handler_status [OF assms])

theorem readiness_witness:
  "rs_status (health_Handler (\<lambda>_. []) (AddOptional ''mongo'' (AddCritical ''redis'' (health_New 3)))
     (\<lambda>i. if i = 1 then (Some ''down'', 7) else (None, 5)) [1, 0] 0) = 200"
  using readiness [of "[1, 0]" "AddOptional ''mongo'' (AddCritical ''redis'' (health_New 3))" "\<lambda>_. []"
      "\<lambda>i. if i = 1 then (Some ''down'', 7) else (None, 5)" 0]
  by (simp add: AddOptional_def AddCritical_def health_New_def upt_rec add_mset_commute less_Suc_eq)

end
