(* ===== verification/L1Cache.thy ===== *)
theory L1Cache
  imports Prelude
begin

text \<open>
  Package \<open>internal/cache\<close>: the bounded in-process cache with stale-while-revalidate.
  \<open>entries\<close> is an association list, \<open>order\<close> the insertion-order slice and
  \<open>revalidating\<close> the set of keys with a refresh in flight.  Times are nanoseconds.
  \<open>Get\<close> reads the clock twice (in \<open>IsExpired\<close> and in \<open>IsStale\<close>), so it has two
  time arguments.  The janitor goroutine runs \<open>evictExpired\<close> on every tick.
\<close>

section \<open>The interface the query service relies on\<close>

text \<open>\<open>look c k\<close> is the value stored under \<open>k\<close>.  A cache may forget, but what it
  returns was stored under that key, and only \<open>put\<close> stores.\<close>

locale value_cache =
  fixes look :: "'c \<Rightarrow> string \<Rightarrow> 'v option"
    and fetch :: "'c \<Rightarrow> string \<Rightarrow> 'v option \<times> 'c"
    and put :: "'c \<Rightarrow> string \<Rightarrow> 'v \<Rightarrow> 'c"
    and drop :: "'c \<Rightarrow> string \<Rightarrow> 'c"
  assumes fetch_sound: "fetch c k = (Some v, c') \<Longrightarrow> look c k = Some v"
    and fetch_keeps: "fetch c k = (r, c') \<Longrightarrow> look c' j = Some v \<Longrightarrow> look c j = Some v"
    and put_look: "look (put c k v) j = (if j = k then Some v else look c j)"
    and drop_look: "look (drop c k) j = Some v \<Longrightarrow> look c j = Some v"
begin

definition faithful :: "(string \<Rightarrow> 'v \<Rightarrow> bool) \<Rightarrow> 'c \<Rightarrow> bool" where
  "faithful P c \<longleftrightarrow> (\<forall>k v. look c k = Some v \<longrightarrow> P k v)"

lemma faithful_fetch:
  assumes "faithful P c" "fetch c k = (r, c')"
  shows "faithful P c'" "r = Some v \<Longrightarrow> P k v"
  using assms fetch_sound fetch_keeps unfolding faithful_def by blast+

lemma faithful_put: "faithful P c \<Longrightarrow> P k v \<Longrightarrow> faithful P (put c k v)"
  unfolding faithful_def by (auto simp: put_look split: if_splits)

lemma faithful_drop: "faithful P c \<Longrightarrow> faithful P (drop c k)"
  unfolding faithful_def using drop_look by blast

end

section \<open>The cache\<close>

record 'v entry =
  Value :: 'v
  ExpiresAt :: int
  StaleAt :: int

definition IsExpired :: "int \<Rightarrow> 'v entry \<Rightarrow> bool" where
  "IsExpired now e \<longleftrightarrow> now > ExpiresAt e"

definition IsStale :: "int \<Rightarrow> 'v entry \<Rightarrow> bool" where
  "IsStale now e \<longleftrightarrow> now > StaleAt e \<and> now < ExpiresAt e"

record 'v get_result =
  gr_Value :: "'v option"
  Found :: bool
  NeedsRefresh :: bool

record 'v l1cache =
  entries :: "(string \<times> 'v entry) list"
  order :: "string list"
  maxEntries :: int
  revalidating :: "string set"
  hits :: nat
  misses :: nat
  stales :: nat
  stopped :: bool

definition l1_New :: "int \<Rightarrow> 'v l1cache" where
  "l1_New n = \<lparr>entries = [], order = [], maxEntries = n, revalidating = {},
     hits = 0, misses = 0, stales = 0, stopped = False\<rparr>"

definition l1_Set :: "int \<Rightarrow> string \<Rightarrow> 'v \<Rightarrow> int \<Rightarrow> int \<Rightarrow> 'v l1cache \<Rightarrow> 'v l1cache" where
  "l1_Set now key val ttl staleTTL c =
     (let expiresAt = now + ttl;
          staleAt = (if staleTTL > 0 \<and> staleTTL < ttl then now + staleTTL else expiresAt);
          e = \<lparr>Value = val, ExpiresAt = expiresAt, StaleAt = staleAt\<rparr>
      in c\<lparr>order := (if map_of (entries c) key = None then order c @ [key] else order c),
           entries := al_set key e (entries c),
           revalidating := revalidating c - {key}\<rparr>)"

definition no_result :: "'v get_result" where
  "no_result = \<lparr>gr_Value = None, Found = False, NeedsRefresh = False\<rparr>"

definition l1_Get :: "int \<Rightarrow> int \<Rightarrow> string \<Rightarrow> 'v l1cache \<Rightarrow> 'v get_result \<times> 'v l1cache" where
  "l1_Get t1 t2 key c =
     (case map_of (entries c) key of
        None \<Rightarrow> (no_result, c\<lparr>misses := misses c + 1\<rparr>)
      | Some e \<Rightarrow>
          if IsExpired t1 e then
            (no_result, c\<lparr>entries := al_del key (entries c), misses := misses c + 1\<rparr>)
          else if IsStale t2 e then
            (\<lparr>gr_Value = Some (Value e), Found = True, NeedsRefresh = key \<notin> revalidating c\<rparr>,
             c\<lparr>stales := stales c + 1, revalidating := insert key (revalidating c)\<rparr>)
          else (\<lparr>gr_Value = Some (Value e), Found = True, NeedsRefresh = False\<rparr>,
                c\<lparr>hits := hits c + 1\<rparr>))"

definition l1_Delete :: "string \<Rightarrow> 'v l1cache \<Rightarrow> 'v l1cache" where
  "l1_Delete key c = c\<lparr>entries := al_del key (entries c), revalidating := revalidating c - {key}\<rparr>"

definition l1_Stats :: "'v l1cache \<Rightarrow> nat \<times> nat \<times> nat \<times> nat" where
  "l1_Stats c = (length (entries c), hits c, misses c, stales c)"

text \<open>Closing a closed channel panics: \<open>None\<close>.\<close>

definition l1_Close :: "'v l1cache \<Rightarrow> 'v l1cache option" where
  "l1_Close c = (if stopped c then None else Some (c\<lparr>stopped := True\<rparr>))"

fun evict_oldest :: "int \<Rightarrow> (string \<times> 'v entry) list \<Rightarrow> string list \<Rightarrow> (string \<times> 'v entry) list \<times> string list" where
  "evict_oldest n es [] = (es, [])"
| "evict_oldest n es (oldest # rest) =
     (if int (length es) > n then evict_oldest n (al_del oldest es) rest else (es, oldest # rest))"

definition evictExpired :: "int \<Rightarrow> 'v l1cache \<Rightarrow> 'v l1cache" where
  "evictExpired now c =
     (let es = filter (\<lambda>(k, e). \<not> now > ExpiresAt e) (entries c);
          (es', ord) = evict_oldest (maxEntries c) es (order c)
      in c\<lparr>entries := es', order := filter (\<lambda>k. map_of es' k \<noteq> None) ord\<rparr>)"

definition janitor_tick :: "int \<Rightarrow> 'v l1cache \<Rightarrow> 'v l1cache" where
  "janitor_tick now c = (if stopped c then c else evictExpired now c)"

section \<open>Well-formedness\<close>

text \<open>The map has one entry per key and every cached key is in the order slice.\<close>

definition l1_wf :: "'v l1cache \<Rightarrow> bool" where
  "l1_wf c \<longleftrightarrow> distinct (al_keys (entries c)) \<and> dom (map_of (entries c)) \<subseteq> set (order c)"

lemma l1_wf_New: "l1_wf (l1_New n)"
  by (simp add: l1_wf_def l1_New_def)

lemma l1_wf_Set: "l1_wf c \<Longrightarrow> l1_wf (l1_Set now k v ttl st c)"
  by (auto simp: l1_wf_def l1_Set_def Let_def)

lemma l1_wf_Get: "l1_wf c \<Longrightarrow> l1_Get t1 t2 k c = (r, c') \<Longrightarrow> l1_wf c'"
  unfolding l1_wf_def l1_Get_def
  by (cases "map_of (entries c) k")
    (fastforce simp: subset_iff domIff split: if_splits)+

lemma l1_wf_Delete: "l1_wf c \<Longrightarrow> l1_wf (l1_Delete k c)"
  by (auto simp: l1_wf_def l1_Delete_def)

lemma set_al_del_subset: "set (al_del k m) \<subseteq> set m"
  by (auto simp: al_del_def)

lemma evict_oldest_spec:
  assumes "distinct (al_keys es)" "dom (map_of es) \<subseteq> set ord" "evict_oldest n es ord = (es', ord')" "0 \<le> n"
  shows "distinct (al_keys es') \<and> dom (map_of es') \<subseteq> set ord' \<and> int (length es') \<le> n
    \<and> set es' \<subseteq> set es \<and> (int (length es) \<le> n \<longrightarrow> es' = es)"
  using assms
proof (induction n es ord arbitrary: es' ord' rule: evict_oldest.induct)
  case (1 n es)
  then show ?case by (simp add: dom_map_of_conv_image_fst)
next
  case (2 n es k rest)
  show ?case
  proof (cases "int (length es) > n")
    case True
    have "distinct (al_keys (al_del k es))" "dom (map_of (al_del k es)) \<subseteq> set rest"
      using "2.prems"(1,2) by (simp, auto)
    moreover have "evict_oldest n (al_del k es) rest = (es', ord')"
      using "2.prems"(3) True by simp
    ultimately have "distinct (al_keys es') \<and> dom (map_of es') \<subseteq> set ord' \<and> int (length es') \<le> n
        \<and> set es' \<subseteq> set (al_del k es)"
      using "2.IH" [OF True] "2.prems"(4) by blast
    with True show ?thesis using set_al_del_subset [of k es] by auto
  next
    case False
    with "2.prems"(3) have "es' = es \<and> ord' = k # rest" by simp
    with False "2.prems"(1,2) show ?thesis by simp
  qed
qed

lemma evictExpired_spec:
  assumes "l1_wf c" "0 \<le> maxEntries c"
  shows "l1_wf (evictExpired now c)"
    and "int (length (entries (evictExpired now c))) \<le> maxEntries c"
    and "set (entries (evictExpired now c)) \<subseteq> {(k, e) \<in> set (entries c). \<not> IsExpired now e}"
    and "int (length (filter (\<lambda>(k, e). \<not> IsExpired now e) (entries c))) \<le> maxEntries c \<Longrightarrow>
            entries (evictExpired now c) = filter (\<lambda>(k, e). \<not> IsExpired now e) (entries c)"
proof -
  let ?es = "filter (\<lambda>(k, e). \<not> IsExpired now e) (entries c)"
  obtain es' ord where ev: "evict_oldest (maxEntries c) ?es (order c) = (es', ord)" by fastforce
  have "distinct (al_keys ?es)" "dom (map_of ?es) \<subseteq> set (order c)"
    using assms(1) by (auto simp: l1_wf_def dom_map_of_conv_image_fst)
  note s = evict_oldest_spec [OF this ev assms(2)]
  have c': "entries (evictExpired now c) = es'"
    "order (evictExpired now c) = filter (\<lambda>k. map_of es' k \<noteq> None) ord"
    using ev by (simp_all add: evictExpired_def IsExpired_def Let_def)
  show "l1_wf (evictExpired now c)"
    using s unfolding l1_wf_def c' by auto
  show "int (length (entries (evictExpired now c))) \<le> maxEntries c" using s c' by simp
  show "set (entries (evictExpired now c)) \<subseteq> {(k, e) \<in> set (entries c). \<not> IsExpired now e}"
    using s c' by auto
  show "int (length ?es) \<le> maxEntries c \<Longrightarrow> entries (evictExpired now c) = ?es"
    using s c' by simp
qed

section \<open>Reading\<close>

definition l1_look :: "'v l1cache \<Rightarrow> string \<Rightarrow> 'v option" where
  "l1_look c k = map_option Value (map_of (entries c) k)"

interpretation l1: value_cache l1_look
  "\<lambda>c k. case l1_Get t1 t2 k c of (r, c') \<Rightarrow> (gr_Value r, c')"
  "\<lambda>c k v. l1_Set now k v ttl st c" "\<lambda>c k. l1_Delete k c"
  by unfold_locales
    (auto simp: l1_look_def l1_Get_def l1_Set_def l1_Delete_def no_result_def Let_def
      split: option.splits if_splits)

text \<open>The life of an entry.  After \<open>Set\<close> at time \<open>now\<close>, a \<open>Get\<close> returns the value
  as a fresh hit until \<open>staleTTL\<close>, returns it asking the first reader to refresh until
  \<open>ttl\<close>, and misses after that, when the entry is removed.\<close>

theorem l1_entry_life:
  assumes "0 < st" "st < ttl"
  shows "(now \<le> t \<and> t \<le> now + st \<longrightarrow>
      fst (l1_Get t t k (l1_Set now k v ttl st c)) = \<lparr>gr_Value = Some v, Found = True, NeedsRefresh = False\<rparr>)
    \<and> (now + st < t \<and> t < now + ttl \<longrightarrow>
      fst (l1_Get t t k (l1_Set now k v ttl st c)) = \<lparr>gr_Value = Some v, Found = True, NeedsRefresh = True\<rparr>)
    \<and> (now + ttl < t \<longrightarrow>
      fst (l1_Get t t k (l1_Set now k v ttl st c)) = \<lparr>gr_Value = None, Found = False, NeedsRefresh = False\<rparr>
      \<and> l1_look (snd (l1_Get t t k (l1_Set now k v ttl st c))) k = None)"
  using assms
  by (simp add: l1_Get_def l1_Set_def l1_look_def no_result_def IsExpired_def IsStale_def Let_def)

theorem l1_entry_life_witness:
  "fst (l1_Get 50 50 ''q'' (l1_Set 0 ''q'' (2::nat) 60 45 (l1_New 10)))
     = \<lparr>gr_Value = Some 2, Found = True, NeedsRefresh = True\<rparr>"
  using l1_entry_life [of 45 60 0 50 "''q''" 2 "l1_New 10"] by simp

section \<open>One refresher\<close>

fun l1_reads :: "(int \<times> int \<times> string) list \<Rightarrow> 'v l1cache \<Rightarrow> 'v get_result list \<times> 'v l1cache" where
  "l1_reads [] c = ([], c)"
| "l1_reads ((t1, t2, k) # rs) c =
     (case l1_Get t1 t2 k c of (r, c') \<Rightarrow> (case l1_reads rs c' of (out, c'') \<Rightarrow> (r # out, c'')))"

lemma Get_revalidating: "l1_Get t1 t2 k c = (r, c') \<Longrightarrow> revalidating c \<subseteq> revalidating c'
   \<and> (NeedsRefresh r \<longrightarrow> k \<notin> revalidating c \<and> k \<in> revalidating c')"
  by (auto simp: l1_Get_def no_result_def split: option.splits if_splits)

lemma reads_no_refresh:
  "k \<in> revalidating c \<Longrightarrow> l1_reads rs c = (out, c') \<Longrightarrow> i < length rs \<Longrightarrow> snd (snd (rs ! i)) = k \<Longrightarrow>
     \<not> NeedsRefresh (out ! i)"
proof (induction rs arbitrary: c out i)
  case (Cons q rs)
  obtain t1 t2 k1 where q: "q = (t1, t2, k1)" by (cases q)
  obtain r c1 where g: "l1_Get t1 t2 k1 c = (r, c1)" by fastforce
  obtain out1 where o: "out = r # out1" "l1_reads rs c1 = (out1, c')"
    using Cons.prems(2) q g by (auto split: prod.splits)
  from Get_revalidating [OF g] Cons.prems(1) have "k \<in> revalidating c1" by blast
  with Cons.IH o(2) Cons.prems(3,4) Get_revalidating [OF g] Cons.prems(1) q o(1) show ?case
    by (cases i) auto
qed simp

text \<open>Stale-while-revalidate elects one refresher: in any sequence of reads of any
  keys at any times, without a \<open>Set\<close> or \<open>Delete\<close> in between, at most one read of a
  key is told to refresh it.\<close>

theorem l1_single_refresher:
  assumes "l1_reads rs c = (out, c')" "i < j" "j < length rs" "snd (snd (rs ! i)) = snd (snd (rs ! j))"
    and "NeedsRefresh (out ! i)"
  shows "\<not> NeedsRefresh (out ! j)"
  using assms
proof (induction rs arbitrary: c out i j)
  case (Cons q rs)
  obtain t1 t2 k1 where q: "q = (t1, t2, k1)" by (cases q)
  obtain r c1 where g: "l1_Get t1 t2 k1 c = (r, c1)" by fastforce
  obtain out1 where o: "out = r # out1" "l1_reads rs c1 = (out1, c')"
    using Cons.prems(1) q g by (auto split: prod.splits)
  obtain j' where j: "j = Suc j'" using Cons.prems(2) by (cases j) auto
  show ?case
  proof (cases i)
    case 0
    with Cons.prems q o g j have "k1 \<in> revalidating c1" "snd (snd (rs ! j')) = k1"
      using Get_revalidating [OF g] by auto
    with reads_no_refresh [OF _ o(2)] Cons.prems(3) j o(1) show ?thesis by auto
  next
    case (Suc i')
    with Cons.IH [OF o(2), of i' j'] Cons.prems j o(1) show ?thesis by auto
  qed
qed simp

theorem l1_single_refresher_witness:
  "\<not> NeedsRefresh (fst (l1_reads [(50, 50, ''q''), (51, 51, ''q'')] (l1_Set 0 ''q'' (1::nat) 60 45 (l1_New 10))) ! 1)"
  by (rule l1_single_refresher [where i = 0 and rs = "[(50, 50, ''q''), (51, 51, ''q'')]",
        OF surjective_pairing])
    (simp_all add: l1_Get_def l1_Set_def l1_New_def IsExpired_def IsStale_def Let_def)

section \<open>Eviction\<close>

text \<open>A janitor pass leaves a well-formed cache of at most \<open>maxEntries\<close> entries, all of
  them unexpired entries of the old cache, and evicts nothing unexpired when the unexpired
  entries already fit.\<close>

theorem l1_janitor_bounds:
  assumes "l1_wf c" and "0 \<le> maxEntries c"
  shows "l1_wf (evictExpired now c)
       \<and> int (length (entries (evictExpired now c))) \<le> maxEntries c
       \<and> set (entries (evictExpired now c)) \<subseteq> {(k, e) \<in> set (entries c). \<not> IsExpired now e}
       \<and> (int (length (filter (\<lambda>(k, e). \<not> IsExpired now e) (entries c))) \<le> maxEntries c \<longrightarrow>
            entries (evictExpired now c) = filter (\<lambda>(k, e). \<not> IsExpired now e) (entries c))"
  using evictExpired_spec [OF assms] by auto

definition l1_example :: "nat l1cache" where
  "l1_example = l1_Set 23 ''a'' 4 10 0 (l1_Set 22 ''c'' 3 10 0 (l1_Set 21 ''b'' 2 10 0
     (snd (l1_Get 20 20 ''a'' (l1_Set 0 ''a'' 1 10 0 (l1_New 2))))))"

lemma l1_example_wf: "l1_wf l1_example"
  unfolding l1_example_def
  by (intro l1_wf_Set l1_wf_Get [OF _ surjective_pairing] l1_wf_New)

theorem l1_janitor_bounds_witness:
  "int (length (entries (evictExpired 24 l1_example))) \<le> 2"
proof -
  have m: "maxEntries l1_example = 2"
    by (simp add: l1_example_def l1_Set_def l1_Get_def l1_New_def Let_def)
  with l1_janitor_bounds [OF l1_example_wf, of 24] show ?thesis by simp
qed

text \<open>Eviction is not oldest-first.  A key that expires, is dropped by a \<open>Get\<close> and is
  set again keeps its old place in the order slice, so the janitor evicts the newest entry:
  here \<open>b\<close> and \<open>c\<close> are older than \<open>a\<close> and survive it.\<close>

theorem l1_evicts_newest:
  "al_keys (entries l1_example) = [''b'', ''c'', ''a'']
   \<and> al_keys (entries (evictExpired 24 l1_example)) = [''b'', ''c'']"
  by (simp add: l1_example_def l1_Set_def l1_Get_def l1_New_def evictExpired_def IsExpired_def
      IsStale_def al_del_def Let_def)

end
