(* ===== verification/Guard.thy ===== *)
theory Guard
  imports Prelude
begin

text \<open>
  The interface the query service uses for its resilience wrappers: \<open>exec g f w\<close> runs
  the function \<open>f\<close> on the world \<open>w\<close> under the guard \<open>g\<close>, or refuses to.  The
  contract is that a refusal leaves the world untouched and is recognisable by its error,
  and that otherwise the result and the world are those of \<open>f\<close>.  The circuit breaker
  and the bulkhead are interpretations; \<open>nested_guard\<close> is one wrapped in the other, as
  \<open>bh.Do(..., chBreaker.Execute(...))\<close> is.
\<close>

locale call_guard =
  fixes exec :: "'g \<Rightarrow> ('w \<Rightarrow> (go_error + 'a) \<times> 'w) \<Rightarrow> 'w \<Rightarrow> (go_error + 'a) \<times> 'w \<times> 'g"
    and rejection :: "go_error \<Rightarrow> bool"
    and ok :: "'g \<Rightarrow> bool"
  assumes exec_refused_or_run:
      "ok g \<Longrightarrow> exec g f w = (r, w', g') \<Longrightarrow> (\<exists>e. r = Inl e \<and> rejection e \<and> w' = w) \<or> f w = (r, w')"
    and exec_ok: "ok g \<Longrightarrow> exec g f w = (r, w', g') \<Longrightarrow> ok g'"
begin

lemma exec_success_is_call:
  "ok g \<Longrightarrow> exec g f w = (Inr a, w', g') \<Longrightarrow> f w = (Inr a, w')"
  using exec_refused_or_run by fastforce

lemma exec_other_error_is_call:
  "ok g \<Longrightarrow> exec g f w = (Inl e, w', g') \<Longrightarrow> \<not> rejection e \<Longrightarrow> f w = (Inl e, w')"
  using exec_refused_or_run by fastforce

lemma exec_keeps:
  assumes "ok g" "exec g f w = (r, w', g')" "I w" "\<And>r' v. f w = (r', v) \<Longrightarrow> I v"
  shows "I w'"
  using exec_refused_or_run [OF assms(1,2)] assms(3,4) by blast

end

locale nested_guard =
  outer: call_guard exec1 rej1 ok1 + inner: call_guard exec2 rej2 ok2
  for exec1 :: "'g \<Rightarrow> ('w \<times> 'h \<Rightarrow> (go_error + 'a) \<times> ('w \<times> 'h)) \<Rightarrow> 'w \<times> 'h \<Rightarrow> (go_error + 'a) \<times> ('w \<times> 'h) \<times> 'g"
    and rej1 :: "go_error \<Rightarrow> bool" and ok1 :: "'g \<Rightarrow> bool"
    and exec2 :: "'h \<Rightarrow> ('w \<Rightarrow> (go_error + 'a) \<times> 'w) \<Rightarrow> 'w \<Rightarrow> (go_error + 'a) \<times> 'w \<times> 'h"
    and rej2 :: "go_error \<Rightarrow> bool" and ok2 :: "'h \<Rightarrow> bool"
begin

lemma nested_refused_or_run:
  assumes "ok1 g" "ok2 h"
    and "exec1 g (\<lambda>(v, k). case exec2 k f v of (r, v', k') \<Rightarrow> (r, v', k')) (w, h) = (r, (w', h'), g')"
  shows "(\<exists>e. r = Inl e \<and> (rej1 e \<or> rej2 e) \<and> w' = w) \<or> f w = (r, w')"
proof -
  obtain r2 v2 k2 where e2: "exec2 h f w = (r2, v2, k2)" by (cases "exec2 h f w") auto
  from outer.exec_refused_or_run [OF assms(1,3)]
  consider (out) e where "r = Inl e" "rej1 e" "w' = w"
    | (inn) "(r2, v2, k2) = (r, w', h')" using e2 by auto
  then show ?thesis
  proof cases
    case out then show ?thesis by blast
  next
    case inn
    with inner.exec_refused_or_run [OF assms(2) e2] show ?thesis by auto
  qed
qed

lemma nested_ok:
  assumes "ok1 g" "ok2 h"
    and "exec1 g (\<lambda>(v, k). case exec2 k f v of (r, v', k') \<Rightarrow> (r, v', k')) (w, h) = (r, (w', h'), g')"
  shows "ok1 g'" "ok2 h'"
proof -
  show "ok1 g'" by (rule outer.exec_ok [OF assms(1,3)])
  obtain r2 v2 k2 where e2: "exec2 h f w = (r2, v2, k2)" by (cases "exec2 h f w") auto
  have "ok2 k2" by (rule inner.exec_ok [OF assms(2) e2])
  with outer.exec_keeps [OF assms(1,3), of "\<lambda>(v, k). ok2 k"] assms(2) e2 show "ok2 h'" by auto
qed

end

end
