(* ===== verification/Breaker.thy ===== *)
theory Breaker
  imports Guard
begin

text \<open>
  Package \<open>internal/circuitbreaker\<close>: the breaker's configuration, counters and
  state machine.  Times are nanoseconds (\<open>int\<close>) and every reading of the clock is an
  argument.  A method body runs under the mutex, so each is one function on the breaker
  record; \<open>Execute\<close> takes the mutex twice and is the composition of \<open>allow\<close>, the
  guarded call and \<open>record\<close>.  Calls that overlap are sequences of these steps
  (\<open>cb_step\<close>).  The asynchronous \<open>OnStateChange\<close> calls are the list \<open>cb_notes\<close>.
\<close>

datatype cb_state = StateClosed | StateOpen | StateHalfOpen

fun cb_state_String :: "cb_state \<Rightarrow> string" where
  "cb_state_String StateClosed = ''closed''"
| "cb_state_String StateOpen = ''open''"
| "cb_state_String StateHalfOpen = ''half-open''"

record cb_config =
  MaxFailures :: int
  OpenTimeout :: int
  SuccessThreshold :: int

definition cb_second :: int where
  "cb_second = 1000000000"

definition withDefaults :: "cb_config \<Rightarrow> cb_config" where
  "withDefaults c = c\<lparr>
     MaxFailures := (if MaxFailures c \<le> 0 then 5 else MaxFailures c),
     OpenTimeout := (if OpenTimeout c \<le> 0 then 30 * cb_second else OpenTimeout c),
     SuccessThreshold := (if SuccessThreshold c \<le> 0 then 2 else SuccessThreshold c)\<rparr>"

record cb_counts =
  Requests :: nat
  TotalSuccesses :: nat
  TotalFailures :: nat
  ConsecutiveSuccesses :: nat
  ConsecutiveFailures :: nat

definition zero_counts :: cb_counts where
  "zero_counts = \<lparr>Requests = 0, TotalSuccesses = 0, TotalFailures = 0,
     ConsecutiveSuccesses = 0, ConsecutiveFailures = 0\<rparr>"

record breaker =
  cb_name :: string
  cb_cfg :: cb_config
  cb_st :: cb_state
  cb_cnt :: cb_counts
  openAt :: int
  cb_notes :: "(cb_state \<times> cb_state) list"

definition breaker_New :: "string \<Rightarrow> cb_config \<Rightarrow> breaker" where
  "breaker_New name cfg = \<lparr>cb_name = name, cb_cfg = withDefaults cfg, cb_st = StateClosed,
     cb_cnt = zero_counts, openAt = 0, cb_notes = []\<rparr>"

definition breaker_transition :: "int \<Rightarrow> cb_state \<Rightarrow> breaker \<Rightarrow> breaker" where
  "breaker_transition now nxt b =
     (if cb_st b = nxt then b
      else b\<lparr>cb_st := nxt, cb_cnt := zero_counts,
             openAt := (if nxt = StateOpen then now else openAt b),
             cb_notes := cb_notes b @ [(cb_st b, nxt)]\<rparr>)"

definition maybeTransitionToHalfOpen :: "int \<Rightarrow> breaker \<Rightarrow> breaker" where
  "maybeTransitionToHalfOpen now b =
     (if cb_st b = StateOpen \<and> now - openAt b \<ge> OpenTimeout (cb_cfg b)
      then breaker_transition now StateHalfOpen b else b)"

definition breaker_allow :: "int \<Rightarrow> breaker \<Rightarrow> go_error option \<times> breaker" where
  "breaker_allow now b =
     (let b' = maybeTransitionToHalfOpen now b in
      (case cb_st b' of
         StateClosed \<Rightarrow> (None, b')
       | StateHalfOpen \<Rightarrow>
           if Requests (cb_cnt b') = 0 then (None, b')
           else (Some (ErrOpen (cb_name b' @ '' (half-open, probe in progress)'')), b')
       | StateOpen \<Rightarrow> (Some (ErrOpen (cb_name b')), b')))"

definition count_failure :: "cb_counts \<Rightarrow> cb_counts" where
  "count_failure c = c\<lparr>Requests := Requests c + 1, TotalFailures := TotalFailures c + 1,
     ConsecutiveFailures := ConsecutiveFailures c + 1, ConsecutiveSuccesses := 0\<rparr>"

definition count_success :: "cb_counts \<Rightarrow> cb_counts" where
  "count_success c = c\<lparr>Requests := Requests c + 1, TotalSuccesses := TotalSuccesses c + 1,
     ConsecutiveSuccesses := ConsecutiveSuccesses c + 1, ConsecutiveFailures := 0\<rparr>"

definition breaker_record :: "int \<Rightarrow> bool \<Rightarrow> breaker \<Rightarrow> breaker" where
  "breaker_record now failed b =
     (if failed then
        let b' = b\<lparr>cb_cnt := count_failure (cb_cnt b)\<rparr> in
        (case cb_st b' of
           StateClosed \<Rightarrow>
             if int (ConsecutiveFailures (cb_cnt b')) \<ge> MaxFailures (cb_cfg b')
             then breaker_transition now StateOpen b' else b'
         | StateHalfOpen \<Rightarrow> breaker_transition now StateOpen b'
         | StateOpen \<Rightarrow> b')
      else
        let b' = b\<lparr>cb_cnt := count_success (cb_cnt b)\<rparr> in
        if cb_st b' = StateHalfOpen
           \<and> int (ConsecutiveSuccesses (cb_cnt b')) \<ge> SuccessThreshold (cb_cfg b')
        then breaker_transition now StateClosed b' else b')"

text \<open>\<open>Execute\<close>: \<open>f\<close> is the guarded call on the outside world \<open>'w\<close>; \<open>t0\<close> is the
  clock in \<open>allow\<close> and \<open>t1\<close> the clock in \<open>record\<close>.\<close>

definition breaker_Execute ::
  "int \<Rightarrow> int \<Rightarrow> breaker \<Rightarrow> ('w \<Rightarrow> (go_error + 'a) \<times> 'w) \<Rightarrow> 'w \<Rightarrow> (go_error + 'a) \<times> 'w \<times> breaker" where
  "breaker_Execute t0 t1 b f w =
     (case breaker_allow t0 b of
        (Some e, b') \<Rightarrow> (Inl e, w, b')
      | (None, b') \<Rightarrow>
          (let (r, w') = f w in
           (r, w', breaker_record t1 (case r of Inl _ \<Rightarrow> True | Inr _ \<Rightarrow> False) b')))"

definition breaker_State :: "int \<Rightarrow> breaker \<Rightarrow> cb_state \<times> breaker" where
  "breaker_State now b = (let b' = maybeTransitionToHalfOpen now b in (cb_st b', b'))"

definition breaker_Counts :: "breaker \<Rightarrow> cb_counts" where
  "breaker_Counts b = cb_cnt b"

definition breaker_Reset :: "int \<Rightarrow> breaker \<Rightarrow> breaker" where
  "breaker_Reset now b = breaker_transition now StateClosed b"

text \<open>\<open>Execute\<close> meets the guard contract; its rejections are the \<open>ErrOpen\<close> errors.\<close>

definition is_ErrOpen :: "go_error \<Rightarrow> bool" where
  "is_ErrOpen e = (case e of ErrOpen _ \<Rightarrow> True | _ \<Rightarrow> False)"

interpretation breaker_guard: call_guard "breaker_Execute t0 t1" is_ErrOpen "\<lambda>_. True"
  by unfold_locales
    (auto simp: breaker_Execute_def breaker_allow_def Let_def is_ErrOpen_def
      split: prod.splits cb_state.splits if_splits option.splits)

section \<open>Sequential runs\<close>

text \<open>A run of calls: each is the two clock readings and whether the guarded call would
  fail.  The result lists, for each call, whether the guarded call was made.\<close>

fun breaker_run :: "breaker \<Rightarrow> (int \<times> int \<times> bool) list \<Rightarrow> bool list \<times> breaker" where
  "breaker_run b [] = ([], b)"
| "breaker_run b ((t0, t1, failed) # cs) =
     (case breaker_Execute t0 t1 b
             (\<lambda>made. (if failed then Inl (Errorf ''call failed'') else Inr (), True)) False of
        (_, made, b') \<Rightarrow> (case breaker_run b' cs of (ms, b'') \<Rightarrow> (made # ms, b'')))"

lemma transition_simps [simp]:
  "cb_cfg (breaker_transition now s b) = cb_cfg b"
  "cb_name (breaker_transition now s b) = cb_name b"
  "cb_st (breaker_transition now s b) = s"
  "cb_cnt (breaker_transition now s b) = (if cb_st b = s then cb_cnt b else zero_counts)"
  "openAt (breaker_transition now s b) = (if cb_st b \<noteq> s \<and> s = StateOpen then now else openAt b)"
  by (simp_all add: breaker_transition_def)

lemma zero_counts_simps [simp]:
  "Requests zero_counts = 0" "TotalSuccesses zero_counts = 0" "TotalFailures zero_counts = 0"
  "ConsecutiveSuccesses zero_counts = 0" "ConsecutiveFailures zero_counts = 0"
  by (simp_all add: zero_counts_def)

lemma count_simps [simp]:
  "Requests (count_failure c) = Suc (Requests c)"
  "TotalSuccesses (count_failure c) = TotalSuccesses c"
  "TotalFailures (count_failure c) = Suc (TotalFailures c)"
  "ConsecutiveSuccesses (count_failure c) = 0"
  "ConsecutiveFailures (count_failure c) = Suc (ConsecutiveFailures c)"
  "Requests (count_success c) = Suc (Requests c)"
  "TotalSuccesses (count_success c) = Suc (TotalSuccesses c)"
  "TotalFailures (count_success c) = TotalFailures c"
  "ConsecutiveSuccesses (count_success c) = Suc (ConsecutiveSuccesses c)"
  "ConsecutiveFailures (count_success c) = 0"
  by (simp_all add: count_failure_def count_success_def)

text \<open>The six cases of \<open>record\<close>.\<close>

lemma record_closed_fail:
  "cb_st b = StateClosed \<Longrightarrow> breaker_record now True b =
     (if int (ConsecutiveFailures (cb_cnt b)) + 1 \<ge> MaxFailures (cb_cfg b)
      then breaker_transition now StateOpen (b\<lparr>cb_cnt := count_failure (cb_cnt b)\<rparr>)
      else b\<lparr>cb_cnt := count_failure (cb_cnt b)\<rparr>)"
  by (simp add: breaker_record_def Let_def add.commute)

lemma record_half_fail:
  "cb_st b = StateHalfOpen \<Longrightarrow> breaker_record now True b =
     breaker_transition now StateOpen (b\<lparr>cb_cnt := count_failure (cb_cnt b)\<rparr>)"
  by (simp add: breaker_record_def Let_def)

lemma record_open_fail:
  "cb_st b = StateOpen \<Longrightarrow> breaker_record now True b = b\<lparr>cb_cnt := count_failure (cb_cnt b)\<rparr>"
  by (simp add: breaker_record_def Let_def)

lemma record_half_ok:
  "cb_st b = StateHalfOpen \<Longrightarrow> breaker_record now False b =
     (if int (ConsecutiveSuccesses (cb_cnt b)) + 1 \<ge> SuccessThreshold (cb_cfg b)
      then breaker_transition now StateClosed (b\<lparr>cb_cnt := count_success (cb_cnt b)\<rparr>)
      else b\<lparr>cb_cnt := count_success (cb_cnt b)\<rparr>)"
  by (simp add: breaker_record_def Let_def add.commute)

lemma record_ok:
  "cb_st b \<noteq> StateHalfOpen \<Longrightarrow> breaker_record now False b = b\<lparr>cb_cnt := count_success (cb_cnt b)\<rparr>"
  by (simp add: breaker_record_def Let_def)

lemmas record_cases = record_closed_fail record_half_fail record_open_fail record_half_ok record_ok

text \<open>The cases of \<open>allow\<close>.\<close>

lemma breaker_allow_closed: "cb_st b = StateClosed \<Longrightarrow> breaker_allow now b = (None, b)"
  by (simp add: breaker_allow_def maybeTransitionToHalfOpen_def)

lemma allow_open_early:
  "cb_st b = StateOpen \<Longrightarrow> now - openAt b < OpenTimeout (cb_cfg b) \<Longrightarrow>
     breaker_allow now b = (Some (ErrOpen (cb_name b)), b)"
  by (simp add: breaker_allow_def maybeTransitionToHalfOpen_def)

lemma half_open_after_timeout:
  "cb_st b = StateOpen \<Longrightarrow> now - openAt b \<ge> OpenTimeout (cb_cfg b) \<Longrightarrow>
     breaker_allow now b = (None, breaker_transition now StateHalfOpen b)"
  by (simp add: breaker_allow_def maybeTransitionToHalfOpen_def Let_def)

lemma allow_half_blocked:
  "cb_st b = StateHalfOpen \<Longrightarrow> 0 < Requests (cb_cnt b) \<Longrightarrow> breaker_allow now b =
     (Some (ErrOpen (cb_name b @ '' (half-open, probe in progress)'')), b)"
  by (simp add: breaker_allow_def maybeTransitionToHalfOpen_def Let_def)

lemma breaker_run_Cons:
  assumes "breaker_allow t0 b = (None, b')"
  shows "breaker_run b ((t0, t1, failed) # cs)
    = (True # fst (breaker_run (breaker_record t1 failed b') cs),
       snd (breaker_run (breaker_record t1 failed b') cs))"
  using assms by (simp add: breaker_Execute_def split: prod.splits)

lemma breaker_run_Cons_rejected:
  assumes "breaker_allow t0 b = (Some e, b')"
  shows "breaker_run b ((t0, t1, failed) # cs)
    = (False # fst (breaker_run b' cs), snd (breaker_run b' cs))"
  using assms by (simp add: breaker_Execute_def split: prod.splits)

declare breaker_run.simps(2) [simp del]

lemma breaker_record_fail_closed:
  assumes "cb_st b = StateClosed" "int (ConsecutiveFailures (cb_cnt b)) + 1 < MaxFailures (cb_cfg b)"
  shows "cb_st (breaker_record now True b) = StateClosed"
    and "ConsecutiveFailures (cb_cnt (breaker_record now True b)) = Suc (ConsecutiveFailures (cb_cnt b))"
    and "cb_cfg (breaker_record now True b) = cb_cfg b"
  using assms by (simp_all add: record_cases)

lemma breaker_record_fail_trips:
  assumes "cb_st b = StateClosed" "int (ConsecutiveFailures (cb_cnt b)) + 1 \<ge> MaxFailures (cb_cfg b)"
  shows "cb_st (breaker_record now True b) = StateOpen"
    and "openAt (breaker_record now True b) = now"
    and "cb_cnt (breaker_record now True b) = zero_counts"
  using assms by (simp_all add: record_cases)

section \<open>Tripping\<close>

text \<open>A closed breaker that has seen \<open>c\<close> consecutive failures stays closed and makes
  every call while further failing calls keep the total below \<open>MaxFailures\<close>, and the
  failure that reaches it opens the breaker, with the opening time of that call's
  \<open>record\<close>.\<close>

theorem breaker_trips_at_MaxFailures:
  assumes "cb_st b = StateClosed"
    and "int (ConsecutiveFailures (cb_cnt b)) + int (length cs) + 1 = MaxFailures (cb_cfg b)"
    and "\<forall>(t0, t1, failed) \<in> set cs. failed"
  shows "cb_st (snd (breaker_run b cs)) = StateClosed
       \<and> fst (breaker_run b cs) = replicate (length cs) True
       \<and> cb_st (snd (breaker_run b (cs @ [(t0, t1, True)]))) = StateOpen
       \<and> openAt (snd (breaker_run b (cs @ [(t0, t1, True)]))) = t1"
  using assms
proof (induction cs arbitrary: b)
  case Nil
  then show ?case
    by (simp add: breaker_run_Cons [OF breaker_allow_closed] breaker_record_fail_trips)
next
  case (Cons c cs)
  obtain u0 u1 where c: "c = (u0, u1, True)"
    using Cons.prems(3) by (cases c) auto
  have "int (ConsecutiveFailures (cb_cnt b)) + 1 < MaxFailures (cb_cfg b)"
    using Cons.prems(2) by simp
  note b' = breaker_record_fail_closed [OF Cons.prems(1) this, of u1]
  have "\<forall>(t0, t1, failed) \<in> set cs. failed" using Cons.prems(3) by auto
  with b' Cons.prems(2) have "cb_st (snd (breaker_run (breaker_record u1 True b) cs)) = StateClosed
       \<and> fst (breaker_run (breaker_record u1 True b) cs) = replicate (length cs) True
       \<and> cb_st (snd (breaker_run (breaker_record u1 True b) (cs @ [(t0, t1, True)]))) = StateOpen
       \<and> openAt (snd (breaker_run (breaker_record u1 True b) (cs @ [(t0, t1, True)]))) = t1"
    by (intro Cons.IH) simp_all
  with c show ?case
    by (simp add: breaker_run_Cons [OF breaker_allow_closed [OF Cons.prems(1)]])
qed

definition cb_example_config :: cb_config where
  "cb_example_config = \<lparr>MaxFailures = 2, OpenTimeout = 30, SuccessThreshold = 2\<rparr>"

theorem breaker_trips_at_MaxFailures_witness:
  "cb_st (snd (breaker_run (breaker_New ''ch'' cb_example_config) [(0, 1, True)])) = StateClosed
   \<and> openAt (snd (breaker_run (breaker_New ''ch'' cb_example_config) ([(0, 1, True)] @ [(2, 3, True)]))) = 3"
  using breaker_trips_at_MaxFailures
    [of "breaker_New ''ch'' cb_example_config" "[(0, 1, True)]" 2 3]
  by (simp add: breaker_New_def cb_example_config_def withDefaults_def zero_counts_def)

section \<open>Failing fast\<close>

text \<open>Before \<open>OpenTimeout\<close> has elapsed an open breaker rejects the call with
  \<open>ErrOpen\<close>, does not run the guarded function (the world is unchanged) and does not
  change itself.\<close>

theorem breaker_open_fails_fast:
  assumes "cb_st b = StateOpen" and "t0 - openAt b < OpenTimeout (cb_cfg b)"
  shows "breaker_Execute t0 t1 b f w = (Inl (ErrOpen (cb_name b)), w, b)"
  using assms by (simp add: breaker_Execute_def allow_open_early)

lemma cb_example_open:
  defines "b \<equiv> snd (breaker_run (breaker_New ''ch'' cb_example_config) [(0, 1, True), (2, 3, True)])"
  shows "cb_st b = StateOpen" "openAt b = 3" "cb_cfg b = cb_example_config" "cb_name b = ''ch''"
  unfolding b_def
  by (simp_all add: breaker_run_Cons [OF breaker_allow_closed] record_closed_fail breaker_New_def
      cb_example_config_def withDefaults_def)

theorem breaker_open_fails_fast_witness:
  "breaker_Execute 20 21 (snd (breaker_run (breaker_New ''ch'' cb_example_config) [(0, 1, True), (2, 3, True)]))
     (\<lambda>w. (Inr (), Suc w)) (7::nat)
   = (Inl (ErrOpen ''ch''), 7, snd (breaker_run (breaker_New ''ch'' cb_example_config) [(0, 1, True), (2, 3, True)]))"
  using breaker_open_fails_fast
    [of "snd (breaker_run (breaker_New ''ch'' cb_example_config) [(0, 1, True), (2, 3, True)])"
      20 21 "\<lambda>w. (Inr (), Suc w)" 7] cb_example_open
  by (simp add: cb_example_config_def)

section \<open>Half-open\<close>

lemma half_open_blocked_run:
  assumes "cb_st b = StateHalfOpen" "0 < Requests (cb_cnt b)"
  shows "breaker_run b cs = (replicate (length cs) False, b)"
  using assms
  by (induction cs) (auto simp: breaker_run_Cons_rejected [OF allow_half_blocked])

text \<open>With a success threshold of two or more (the default, and the value the query
  service configures) an open breaker never closes again: the probe after the timeout is
  made and succeeds, and from then on every call at any time is rejected, although no
  probe is in progress.\<close>

theorem breaker_probe_success_wedges:
  assumes "cb_st b = StateOpen" and "t0 - openAt b \<ge> OpenTimeout (cb_cfg b)"
    and "SuccessThreshold (cb_cfg b) \<ge> 2"
  shows "fst (breaker_run b ((t0, t1, False) # cs)) = True # replicate (length cs) False
       \<and> cb_st (snd (breaker_run b ((t0, t1, False) # cs))) = StateHalfOpen"
proof -
  let ?b = "breaker_record t1 False (breaker_transition t0 StateHalfOpen b)"
  have "cb_st ?b = StateHalfOpen" "0 < Requests (cb_cnt ?b)"
    using assms(1,3) by (simp_all add: record_half_ok)
  then show ?thesis
    by (simp add: breaker_run_Cons [OF half_open_after_timeout [OF assms(1,2)]] half_open_blocked_run)
qed

theorem breaker_probe_success_wedges_witness:
  "fst (breaker_run (snd (breaker_run (breaker_New ''ch'' cb_example_config) [(0, 1, True), (2, 3, True)]))
      [(40, 41, False), (1000, 1001, False), (10 ^ 18, 10 ^ 18, False)]) = [True, False, False]"
  using breaker_probe_success_wedges
    [of "snd (breaker_run (breaker_New ''ch'' cb_example_config) [(0, 1, True), (2, 3, True)])"
      40 41 "[(1000, 1001, False), (10 ^ 18, 10 ^ 18, False)]"] cb_example_open
  by (simp add: cb_example_config_def numeral_2_eq_2)

text \<open>With a threshold of one the probe decides: success closes the breaker with
  fresh counters, failure reopens it at the time the failure is recorded.\<close>

theorem breaker_probe_decides:
  assumes "cb_st b = StateOpen" and "t0 - openAt b \<ge> OpenTimeout (cb_cfg b)"
    and "SuccessThreshold (cb_cfg b) = 1"
  shows "fst (breaker_run b [(t0, t1, failed)]) = [True]
       \<and> cb_st (snd (breaker_run b [(t0, t1, failed)])) = (if failed then StateOpen else StateClosed)
       \<and> cb_cnt (snd (breaker_run b [(t0, t1, failed)])) = zero_counts
       \<and> (failed \<longrightarrow> openAt (snd (breaker_run b [(t0, t1, failed)])) = t1)"
  using assms(1,3)
  by (cases failed)
    (simp_all add: breaker_run_Cons [OF half_open_after_timeout [OF assms(1,2)]] record_half_ok
      record_half_fail)

theorem breaker_probe_decides_witness:
  "cb_st (snd (breaker_run ((breaker_New ''ch'' (cb_example_config\<lparr>SuccessThreshold := 1\<rparr>))\<lparr>cb_st := StateOpen, openAt := 3\<rparr>)
      [(40, 41, False)])) = StateClosed"
  using breaker_probe_decides
    [of "(breaker_New ''ch'' (cb_example_config\<lparr>SuccessThreshold := 1\<rparr>))\<lparr>cb_st := StateOpen, openAt := 3\<rparr>" 40 41 False]
  by (simp add: breaker_New_def cb_example_config_def withDefaults_def)

section \<open>Overlapping calls\<close>

text \<open>A state is the breaker and the number of admitted calls that have not been recorded
  yet; \<open>enter\<close>, \<open>reject\<close> and \<open>finish\<close> are the mutex sections of \<open>Execute\<close>.\<close>

inductive cb_step :: "breaker \<times> nat \<Rightarrow> breaker \<times> nat \<Rightarrow> bool" where
  enter: "breaker_allow t b = (None, b') \<Longrightarrow> cb_step (b, n) (b', Suc n)"
| reject: "breaker_allow t b = (Some e, b') \<Longrightarrow> cb_step (b, n) (b', n)"
| finish: "cb_step (b, Suc n) (breaker_record t failed b, n)"
| look: "breaker_State t b = (s, b') \<Longrightarrow> cb_step (b, n) (b', n)"
| reset: "cb_step (b, n) (breaker_Reset t b, n)"

inductive_cases cb_stepE: "cb_step (b, n) (b', n')"

inductive cb_reachable :: "string \<Rightarrow> cb_config \<Rightarrow> breaker \<times> nat \<Rightarrow> bool" for name cfg where
  init: "cb_reachable name cfg (breaker_New name cfg, 0)"
| step: "cb_reachable name cfg s \<Longrightarrow> cb_step s s' \<Longrightarrow> cb_reachable name cfg s'"

text \<open>The invariant: the configuration is positive, a closed breaker is below the failure
  limit, a half-open breaker has no failure on its counters and is below the success
  threshold, and the counters fit together.\<close>

definition cb_inv :: "breaker \<Rightarrow> bool" where
  "cb_inv b \<longleftrightarrow>
     0 < MaxFailures (cb_cfg b) \<and> 0 < OpenTimeout (cb_cfg b) \<and> 0 < SuccessThreshold (cb_cfg b)
   \<and> (cb_st b = StateClosed \<longrightarrow> int (ConsecutiveFailures (cb_cnt b)) < MaxFailures (cb_cfg b))
   \<and> (cb_st b = StateHalfOpen \<longrightarrow> TotalFailures (cb_cnt b) = 0
        \<and> int (ConsecutiveSuccesses (cb_cnt b)) < SuccessThreshold (cb_cfg b))
   \<and> Requests (cb_cnt b) = TotalSuccesses (cb_cnt b) + TotalFailures (cb_cnt b)
   \<and> ConsecutiveSuccesses (cb_cnt b) \<le> TotalSuccesses (cb_cnt b)
   \<and> ConsecutiveFailures (cb_cnt b) \<le> TotalFailures (cb_cnt b)
   \<and> (ConsecutiveSuccesses (cb_cnt b) = 0 \<or> ConsecutiveFailures (cb_cnt b) = 0)"

lemma cb_inv_New: "cb_inv (breaker_New name cfg)"
  by (simp add: cb_inv_def breaker_New_def withDefaults_def cb_second_def)

lemma cb_inv_transition: "cb_inv b \<Longrightarrow> cb_inv (breaker_transition now s b)"
  by (auto simp: cb_inv_def)

lemma cb_inv_half: "cb_inv b \<Longrightarrow> cb_inv (maybeTransitionToHalfOpen now b)"
  by (simp add: maybeTransitionToHalfOpen_def cb_inv_transition)

lemma cb_inv_allow: "cb_inv b \<Longrightarrow> breaker_allow now b = (r, b') \<Longrightarrow> cb_inv b'"
  using cb_inv_half [of b now]
  by (auto simp: breaker_allow_def Let_def split: cb_state.splits if_splits)

lemma cb_inv_record_fail: "cb_inv b \<Longrightarrow> cb_inv (breaker_record now True b)"
  by (cases "cb_st b") (auto simp: cb_inv_def record_cases)

lemma cb_inv_record_ok: "cb_inv b \<Longrightarrow> cb_inv (breaker_record now False b)"
  by (cases "cb_st b") (auto simp: cb_inv_def record_cases)

lemma cb_inv_record: "cb_inv b \<Longrightarrow> cb_inv (breaker_record now failed b)"
  by (cases failed) (simp_all add: cb_inv_record_fail cb_inv_record_ok)

lemma cb_inv_step: "cb_step s s' \<Longrightarrow> cb_inv (fst s) \<Longrightarrow> cb_inv (fst s')"
  by (induction rule: cb_step.induct)
    (auto simp: cb_inv_allow cb_inv_record breaker_State_def cb_inv_half breaker_Reset_def
      cb_inv_transition Let_def)

lemma cb_reachable_inv: "cb_reachable name cfg s \<Longrightarrow> cb_inv (fst s)"
  by (induction rule: cb_reachable.induct) (auto simp: cb_inv_New intro: cb_inv_step)

text \<open>C40: However calls overlap, in every reachable state the counters satisfy the
  invariant; in particular a closed breaker has fewer consecutive failures than
  \<open>MaxFailures\<close> and a half-open one has recorded no failure.\<close>

theorem breaker_reachable_invariant:
  assumes "cb_reachable name cfg (b, inflight)"
  shows "cb_inv b"
  using cb_reachable_inv [OF assms] by simp

theorem breaker_reachable_invariant_witness:
  "cb_inv (breaker_record 5 True (breaker_New ''ch'' cb_example_config))"
proof (rule breaker_reachable_invariant)
  have "breaker_allow 4 (breaker_New ''ch'' cb_example_config) = (None, breaker_New ''ch'' cb_example_config)"
    by (rule breaker_allow_closed) (simp add: breaker_New_def)
  then have "cb_reachable ''ch'' cb_example_config (breaker_New ''ch'' cb_example_config, Suc 0)"
    by (rule cb_reachable.step [OF cb_reachable.init cb_step.enter])
  then show "cb_reachable ''ch'' cb_example_config (breaker_record 5 True (breaker_New ''ch'' cb_example_config), 0)"
    by (rule cb_reachable.step [OF _ cb_step.finish])
qed

end
