(* ===== verification/Bulkhead.thy ===== *)
theory Bulkhead
  imports Guard "HOL-Library.Multiset"
begin

text \<open>
  Package \<open>internal/bulkhead\<close>.  A buffered channel used as a semaphore is its number
  of buffered elements; \<open>semaphores\<close> is the lazily filled map.  \<open>Acquire\<close> is two
  separate non-blocking sends, so it is split into the two sections that other goroutines
  can interleave with.  The abstract state of a bulkhead is the multiset of tenants that
  hold a slot.
\<close>

record bulkhead =
  semaphores :: "string \<rightharpoonup> nat"
  bh_global :: nat
  maxPerTenant :: nat
  maxGlobal :: nat
  activeTotal :: int
  rejectedTotal :: int

definition bulkhead_New :: "int \<Rightarrow> int \<Rightarrow> bulkhead" where
  "bulkhead_New perTenant glob =
     (let perTenant' = (if perTenant \<le> 0 then 50 else perTenant);
          glob' = (if glob \<le> 0 then 500 else glob)
      in \<lparr>semaphores = Map.empty, bh_global = 0, maxPerTenant = nat perTenant',
          maxGlobal = nat glob', activeTotal = 0, rejectedTotal = 0\<rparr>)"

definition bh_getOrCreate :: "string \<Rightarrow> bulkhead \<Rightarrow> nat \<times> bulkhead" where
  "bh_getOrCreate t b =
     (case semaphores b t of
        Some n \<Rightarrow> (n, b)
      | None \<Rightarrow> (0, b\<lparr>semaphores := (semaphores b)(t \<mapsto> 0)\<rparr>))"

definition bh_acquire_global :: "bulkhead \<Rightarrow> go_error option \<times> bulkhead" where
  "bh_acquire_global b =
     (if bh_global b < maxGlobal b then (None, b\<lparr>bh_global := bh_global b + 1\<rparr>)
      else (Some (ErrCapacityExceeded (''global limit '' @ itoa (int (maxGlobal b)) @ '' reached'')),
            b\<lparr>rejectedTotal := rejectedTotal b + 1\<rparr>))"

definition bh_acquire_tenant :: "string \<Rightarrow> bulkhead \<Rightarrow> go_error option \<times> bulkhead" where
  "bh_acquire_tenant t b =
     (case bh_getOrCreate t b of (n, b') \<Rightarrow>
        if n < maxPerTenant b' then
          (None, b'\<lparr>semaphores := (semaphores b')(t \<mapsto> n + 1), activeTotal := activeTotal b' + 1\<rparr>)
        else
          (Some (ErrCapacityExceeded (''tenant '' @ t @ '' limit '' @ itoa (int (maxPerTenant b')) @ '' reached'')),
           b'\<lparr>bh_global := bh_global b' - 1, rejectedTotal := rejectedTotal b' + 1\<rparr>))"

definition bh_Acquire :: "string \<Rightarrow> bulkhead \<Rightarrow> go_error option \<times> bulkhead" where
  "bh_Acquire t b =
     (case bh_acquire_global b of
        (Some e, b') \<Rightarrow> (Some e, b')
      | (None, b') \<Rightarrow> bh_acquire_tenant t b')"

text \<open>The receives of \<open>Release\<close> are non-blocking: on an empty channel they do nothing
  (truncated subtraction), but \<open>activeTotal\<close> is decremented all the same.\<close>

definition bh_Release :: "string \<Rightarrow> bulkhead \<Rightarrow> bulkhead" where
  "bh_Release t b =
     (case bh_getOrCreate t b of (n, b') \<Rightarrow>
        b'\<lparr>semaphores := (semaphores b')(t \<mapsto> n - 1), bh_global := bh_global b' - 1,
           activeTotal := activeTotal b' - 1\<rparr>)"

definition bh_Do ::
  "string \<Rightarrow> bulkhead \<Rightarrow> ('w \<Rightarrow> (go_error + 'a) \<times> 'w) \<Rightarrow> 'w \<Rightarrow> (go_error + 'a) \<times> 'w \<times> bulkhead" where
  "bh_Do t b f w =
     (case bh_Acquire t b of
        (Some e, b') \<Rightarrow> (Inl e, w, b')
      | (None, b') \<Rightarrow> (let (r, w') = f w in (r, w', bh_Release t b')))"

definition bh_ActiveCount :: "bulkhead \<Rightarrow> int" where
  "bh_ActiveCount b = activeTotal b"

definition bh_RejectedCount :: "bulkhead \<Rightarrow> int" where
  "bh_RejectedCount b = rejectedTotal b"

definition bh_TenantActive :: "string \<Rightarrow> bulkhead \<Rightarrow> nat" where
  "bh_TenantActive t b = (case semaphores b t of None \<Rightarrow> 0 | Some n \<Rightarrow> n)"

definition is_ErrCapacity :: "go_error \<Rightarrow> bool" where
  "is_ErrCapacity e = (case e of ErrCapacityExceeded _ \<Rightarrow> True | _ \<Rightarrow> False)"

section \<open>Abstraction: who holds a slot\<close>

text \<open>\<open>bh_rel b p H\<close>: the tenants in the multiset \<open>H\<close> hold a slot and \<open>p\<close> calls of
  \<open>Acquire\<close> are between their two sends.\<close>

definition bh_rel :: "bulkhead \<Rightarrow> nat \<Rightarrow> string multiset \<Rightarrow> bool" where
  "bh_rel b p H \<longleftrightarrow>
     (\<forall>t. bh_TenantActive t b = count H t)
   \<and> (\<forall>t. count H t \<le> maxPerTenant b)
   \<and> bh_global b = p + size H \<and> bh_global b \<le> maxGlobal b
   \<and> activeTotal b = int (size H)"

lemma bh_rel_New: "bh_rel (bulkhead_New perTenant glob) 0 {#}"
  by (simp add: bh_rel_def bulkhead_New_def bh_TenantActive_def Let_def)

lemma getOrCreate_rel:
  assumes "bh_rel b p H" "bh_getOrCreate t b = (n, b')"
  shows "n = count H t" "bh_rel b' p H" "semaphores b' t = Some n"
    "maxPerTenant b' = maxPerTenant b" "maxGlobal b' = maxGlobal b" "rejectedTotal b' = rejectedTotal b"
proof -
  have "n = bh_TenantActive t b \<and> semaphores b' t = Some n \<and> maxPerTenant b' = maxPerTenant b
      \<and> maxGlobal b' = maxGlobal b \<and> rejectedTotal b' = rejectedTotal b \<and> bh_global b' = bh_global b
      \<and> activeTotal b' = activeTotal b \<and> (\<forall>u. bh_TenantActive u b' = bh_TenantActive u b)"
    using assms(2) by (auto simp: bh_getOrCreate_def bh_TenantActive_def split: option.splits if_splits)
  with assms(1) show "n = count H t" "bh_rel b' p H" "semaphores b' t = Some n"
    "maxPerTenant b' = maxPerTenant b" "maxGlobal b' = maxGlobal b" "rejectedTotal b' = rejectedTotal b"
    by (simp_all add: bh_rel_def)
qed

lemma TenantActive_upd [simp]:
  "bh_TenantActive u (b\<lparr>semaphores := (semaphores b)(t \<mapsto> n), activeTotal := a\<rparr>)
     = (if u = t then n else bh_TenantActive u b)"
  "bh_TenantActive u (b\<lparr>semaphores := (semaphores b)(t \<mapsto> n), bh_global := g, activeTotal := a\<rparr>)
     = (if u = t then n else bh_TenantActive u b)"
  "bh_TenantActive u (b\<lparr>bh_global := g, rejectedTotal := r\<rparr>) = bh_TenantActive u b"
  "bh_TenantActive u (b\<lparr>rejectedTotal := r\<rparr>) = bh_TenantActive u b"
  "bh_TenantActive u (b\<lparr>bh_global := g\<rparr>) = bh_TenantActive u b"
  by (simp_all add: bh_TenantActive_def)

lemma acquire_global_rel:
  assumes "bh_rel b p H"
  shows "p + size H < maxGlobal b \<Longrightarrow>
      \<exists>b'. bh_acquire_global b = (None, b') \<and> bh_rel b' (Suc p) H
         \<and> maxPerTenant b' = maxPerTenant b \<and> maxGlobal b' = maxGlobal b \<and> rejectedTotal b' = rejectedTotal b"
    and "\<not> p + size H < maxGlobal b \<Longrightarrow>
      \<exists>m b'. bh_acquire_global b = (Some (ErrCapacityExceeded m), b') \<and> bh_rel b' p H
         \<and> maxPerTenant b' = maxPerTenant b \<and> maxGlobal b' = maxGlobal b \<and> rejectedTotal b' = rejectedTotal b + 1"
  using assms by (auto simp: bh_acquire_global_def bh_rel_def)

lemma acquire_tenant_rel:
  assumes "bh_rel b (Suc p) H"
  shows "count H t < maxPerTenant b \<Longrightarrow>
      \<exists>b'. bh_acquire_tenant t b = (None, b') \<and> bh_rel b' p (add_mset t H)
         \<and> maxPerTenant b' = maxPerTenant b \<and> maxGlobal b' = maxGlobal b \<and> rejectedTotal b' = rejectedTotal b"
    and "\<not> count H t < maxPerTenant b \<Longrightarrow>
      \<exists>m b'. bh_acquire_tenant t b = (Some (ErrCapacityExceeded m), b') \<and> bh_rel b' p H
         \<and> maxPerTenant b' = maxPerTenant b \<and> maxGlobal b' = maxGlobal b \<and> rejectedTotal b' = rejectedTotal b + 1"
proof -
  obtain n b1 where g: "bh_getOrCreate t b = (n, b1)" by fastforce
  note r = getOrCreate_rel [OF assms g]
  show "count H t < maxPerTenant b \<Longrightarrow> \<exists>b'. bh_acquire_tenant t b = (None, b') \<and> bh_rel b' p (add_mset t H)
         \<and> maxPerTenant b' = maxPerTenant b \<and> maxGlobal b' = maxGlobal b \<and> rejectedTotal b' = rejectedTotal b"
    using r by (auto simp: bh_acquire_tenant_def g bh_rel_def)
  show "\<not> count H t < maxPerTenant b \<Longrightarrow> \<exists>m b'. bh_acquire_tenant t b = (Some (ErrCapacityExceeded m), b') \<and> bh_rel b' p H
         \<and> maxPerTenant b' = maxPerTenant b \<and> maxGlobal b' = maxGlobal b \<and> rejectedTotal b' = rejectedTotal b + 1"
    using r by (auto simp: bh_acquire_tenant_def g bh_rel_def)
qed

lemma Release_rel:
  assumes "bh_rel b p H" "t \<in># H"
  shows "bh_rel (bh_Release t b) p (H - {#t#})"
proof -
  obtain n b1 where g: "bh_getOrCreate t b = (n, b1)" by fastforce
  note r = getOrCreate_rel [OF assms(1) g]
  have "0 < count H t" "0 < size H" using assms(2) by (simp, metis gr0I size_eq_0_iff_empty empty_iff set_mset_empty)
  moreover have "count H t - 1 \<le> maxPerTenant b1" using r(2) by (simp add: bh_rel_def le_diff_conv le_SucI)
  ultimately show ?thesis
    using r assms(2) by (auto simp: bh_Release_def g bh_rel_def size_Diff_singleton)
qed

lemma Acquire_rel:
  assumes "bh_rel b 0 H"
  shows "if size H < maxGlobal b \<and> count H t < maxPerTenant b
         then \<exists>b'. bh_Acquire t b = (None, b') \<and> bh_rel b' 0 (add_mset t H)
                \<and> rejectedTotal b' = rejectedTotal b
         else \<exists>m b'. bh_Acquire t b = (Some (ErrCapacityExceeded m), b') \<and> bh_rel b' 0 H
                \<and> rejectedTotal b' = rejectedTotal b + 1"
proof (cases "size H < maxGlobal b")
  case True
  then obtain b1 where b1: "bh_acquire_global b = (None, b1)" "bh_rel b1 (Suc 0) H"
      "maxPerTenant b1 = maxPerTenant b" "rejectedTotal b1 = rejectedTotal b"
    using acquire_global_rel(1) [OF assms] by auto
  show ?thesis
    using acquire_tenant_rel [OF b1(2), of t] True b1 by (auto simp: bh_Acquire_def)
next
  case False
  then show ?thesis
    using acquire_global_rel(2) [OF assms] by (auto simp: bh_Acquire_def)
qed

text \<open>\<open>Acquire\<close> refines adding a holder: it succeeds exactly when fewer than
  \<open>maxGlobal\<close> slots are held in total and fewer than \<open>maxPerTenant\<close> by this tenant;
  otherwise it fails with \<open>ErrCapacityExceeded\<close>, no slot changes hands and the
  rejection is counted.\<close>

theorem bulkhead_Acquire_refines:
  assumes "bh_rel b 0 H"
  shows "if size H < maxGlobal b \<and> count H t < maxPerTenant b
         then \<exists>b'. bh_Acquire t b = (None, b') \<and> bh_rel b' 0 (add_mset t H)
                \<and> rejectedTotal b' = rejectedTotal b
         else \<exists>m b'. bh_Acquire t b = (Some (ErrCapacityExceeded m), b') \<and> bh_rel b' 0 H
                \<and> rejectedTotal b' = rejectedTotal b + 1"
  by (rule Acquire_rel [OF assms])

theorem bulkhead_Acquire_refines_witness:
  "\<exists>m b'. bh_Acquire ''a'' (snd (bh_Acquire ''a'' (bulkhead_New 1 5))) = (Some (ErrCapacityExceeded m), b')
        \<and> bh_rel b' 0 {#''a''#} \<and> rejectedTotal b' = 1"
proof -
  let ?b = "snd (bh_Acquire ''a'' (bulkhead_New 1 5))"
  have "bh_rel ?b 0 {#''a''#} \<and> maxPerTenant ?b = 1 \<and> maxGlobal ?b = 5 \<and> rejectedTotal ?b = 0"
    by (auto simp: bh_Acquire_def bh_acquire_global_def bh_acquire_tenant_def bh_getOrCreate_def
        bulkhead_New_def bh_rel_def bh_TenantActive_def)
  then show ?thesis
    using bulkhead_Acquire_refines [of ?b "{#''a''#}" "''a''"] by simp
qed

lemma Do_rel:
  assumes "bh_rel b 0 H" and "bh_Do t b f w = (r, w', b')"
  shows "bh_rel b' 0 H
       \<and> (if size H < maxGlobal b \<and> count H t < maxPerTenant b then (r, w') = f w
          else (\<exists>m. r = Inl (ErrCapacityExceeded m)) \<and> w' = w)"
proof (cases "size H < maxGlobal b \<and> count H t < maxPerTenant b")
  case True
  then obtain b1 where b1: "bh_Acquire t b = (None, b1)" "bh_rel b1 0 (add_mset t H)"
    using Acquire_rel [OF assms(1), of t] by auto
  have "bh_rel (bh_Release t b1) 0 H"
    using Release_rel [OF b1(2), of t] by simp
  with True assms(2) b1 show ?thesis
    by (auto simp: bh_Do_def split: prod.splits)
next
  case False
  then show ?thesis
    using Acquire_rel [OF assms(1), of t] assms(2) by (auto simp: bh_Do_def)
qed

text \<open>\<open>Do\<close> is balanced: whatever the guarded function does, afterwards the same
  tenants hold slots as before, and the function is run exactly when a slot was free.\<close>

theorem bulkhead_Do_balanced:
  assumes "bh_rel b 0 H" and "bh_Do t b f w = (r, w', b')"
  shows "bh_rel b' 0 H
       \<and> (if size H < maxGlobal b \<and> count H t < maxPerTenant b then (r, w') = f w
          else (\<exists>m. r = Inl (ErrCapacityExceeded m)) \<and> w' = w)"
  by (rule Do_rel [OF assms])

theorem bulkhead_Do_balanced_witness:
  "bh_rel (snd (snd (bh_Do ''a'' (bulkhead_New 20 200) (\<lambda>w. (Inr (), Suc w)) (3::nat)))) 0 {#}"
proof -
  obtain r w' b' where d: "bh_Do ''a'' (bulkhead_New 20 200) (\<lambda>w. (Inr (), Suc w)) (3::nat) = (r, w', b')"
    by (cases "bh_Do ''a'' (bulkhead_New 20 200) (\<lambda>w. (Inr (), Suc w)) (3::nat)") auto
  from bulkhead_Do_balanced [OF bh_rel_New d] d show ?thesis by simp
qed

interpretation bulkhead_guard: call_guard "bh_Do t" is_ErrCapacity "\<lambda>b. \<exists>H. bh_rel b 0 H"
proof (unfold_locales, goal_cases)
  case (1 g f w r w' g')
  then obtain H where "bh_rel g 0 H" by blast
  from Do_rel [OF this 1(2)] show ?case
    by (auto simp: is_ErrCapacity_def split: if_splits)
next
  case (2 g f w r w' g')
  then obtain H where "bh_rel g 0 H" by blast
  from Do_rel [OF this 2(2)] show ?case by blast
qed

section \<open>Interleavings\<close>

text \<open>The mutex-free sections of \<open>Acquire\<close> and \<open>Release\<close> as steps; the ghost
  components count the calls between the two sends and collect the holders.\<close>

inductive bh_step :: "bulkhead \<times> nat \<times> string multiset \<Rightarrow> bulkhead \<times> nat \<times> string multiset \<Rightarrow> bool" where
  global_ok: "bh_acquire_global b = (None, b') \<Longrightarrow> bh_step (b, p, H) (b', Suc p, H)"
| global_full: "bh_acquire_global b = (Some e, b') \<Longrightarrow> bh_step (b, p, H) (b', p, H)"
| tenant_ok: "bh_acquire_tenant t b = (None, b') \<Longrightarrow> bh_step (b, Suc p, H) (b', p, add_mset t H)"
| tenant_full: "bh_acquire_tenant t b = (Some e, b') \<Longrightarrow> bh_step (b, Suc p, H) (b', p, H)"
| release: "t \<in># H \<Longrightarrow> bh_step (b, p, H) (bh_Release t b, p, H - {#t#})"

inductive bh_reachable :: "int \<Rightarrow> int \<Rightarrow> bulkhead \<times> nat \<times> string multiset \<Rightarrow> bool" for k n where
  init: "bh_reachable k n (bulkhead_New k n, 0, {#})"
| step: "bh_reachable k n s \<Longrightarrow> bh_step s s' \<Longrightarrow> bh_reachable k n s'"

lemma bh_step_rel:
  assumes "bh_step (b, p, H) (b', p', H')" "bh_rel b p H"
  shows "bh_rel b' p' H' \<and> maxPerTenant b' = maxPerTenant b \<and> maxGlobal b' = maxGlobal b"
  using assms
proof (cases rule: bh_step.cases)
  case global_ok
  then show ?thesis using acquire_global_rel [OF assms(2)] by (cases "p + size H < maxGlobal b") auto
next
  case (global_full e)
  then show ?thesis using acquire_global_rel [OF assms(2)] by (cases "p + size H < maxGlobal b") auto
next
  case (tenant_ok t)
  then show ?thesis using acquire_tenant_rel [of b p' H t] assms(2)
    by (cases "count H t < maxPerTenant b") auto
next
  case (tenant_full t e)
  then show ?thesis using acquire_tenant_rel [of b p' H t] assms(2)
    by (cases "count H t < maxPerTenant b") auto
next
  case (release t)
  then show ?thesis using Release_rel [OF assms(2), of t]
    by (auto simp: bh_Release_def bh_getOrCreate_def split: option.splits)
qed

lemma bh_reachable_rel:
  "bh_reachable k n s \<Longrightarrow> (case s of (b, p, H) \<Rightarrow>
     bh_rel b p H \<and> maxPerTenant b = maxPerTenant (bulkhead_New k n) \<and> maxGlobal b = maxGlobal (bulkhead_New k n))"
proof (induction rule: bh_reachable.induct)
  case init
  show ?case by (simp add: bh_rel_New)
next
  case (step s s')
  then show ?case using bh_step_rel by (cases s; cases s') fastforce
qed

text \<open>However the sends and receives of concurrent calls interleave, no tenant ever
  holds more than its limit, the slots held never exceed the global limit, and
  \<open>ActiveCount\<close> and \<open>TenantActive\<close> report exactly the slots held.\<close>

theorem bulkhead_limits_hold:
  assumes "bh_reachable k n (b, p, H)"
  shows "bh_TenantActive t b = count H t
       \<and> bh_TenantActive t b \<le> (if k \<le> 0 then 50 else nat k)
       \<and> bh_ActiveCount b = int (size H)
       \<and> size H + p \<le> (if n \<le> 0 then 500 else nat n)"
  using bh_reachable_rel [OF assms]
  by (auto simp: bh_rel_def bh_ActiveCount_def bulkhead_New_def Let_def split: if_splits)

theorem bulkhead_limits_hold_witness:
  "bh_ActiveCount (snd (bh_Acquire ''a'' (bulkhead_New 20 200))) = int (size {#''a''#})"
proof -
  obtain b1 where b1: "bh_acquire_global (bulkhead_New 20 200) = (None, b1)"
    by (simp add: bh_acquire_global_def bulkhead_New_def)
  obtain b2 where b2: "bh_acquire_tenant ''a'' b1 = (None, b2)"
    using b1 by (auto simp: bh_acquire_tenant_def bh_getOrCreate_def bh_acquire_global_def bulkhead_New_def)
  have "bh_reachable 20 200 (b1, Suc 0, {#})"
    by (rule bh_reachable.step [OF bh_reachable.init bh_step.global_ok [OF b1]])
  then have "bh_reachable 20 200 (b2, 0, add_mset ''a'' {#})"
    by (rule bh_reachable.step [OF _ bh_step.tenant_ok [OF b2]])
  from bulkhead_limits_hold [OF this, of "''a''"] b1 b2 show ?thesis
    by (simp add: bh_Acquire_def)
qed

end
