(* ===== verification/Query.thy ===== *)
theory Query
  imports Dates Http L1Cache Redis Breaker Bulkhead
begin

text \<open>
  Package \<open>internal/querying\<close>, the query service: SQL construction, the cache key,
  the two cache tiers, and the four cached queries run through single-flight, the
  bulkhead and the circuit breaker.  Parameters: the ClickHouse connection and the
  conversion of its rows by \<open>Scan\<close>, the Redis client, SHA-256 (on the SQL text and the
  encoding of the arguments) and what single-flight hands to a caller that joins a call
  in flight.  The server's time zone is taken to be UTC.
\<close>

section \<open>Requests and responses\<close>

record event_count_request =
  cr_AppID :: string
  cr_EventName :: string
  cr_FromMs :: int
  cr_ToMs :: int
  cr_Granularity :: string
  cr_GroupBy :: "string list"
  cr_Filters :: "(string \<times> string) list"

record data_point =
  dp_TimestampMs :: int
  dp_Value :: f64
  dp_Dimensions :: "(string \<times> string) list"

record event_count_response =
  Points :: "data_point list"
  Total :: int

record funnel_request =
  fr_AppID :: string
  fr_Steps :: "string list"
  fr_WindowSeconds :: int
  fr_FromMs :: int
  fr_ToMs :: int

record funnel_step =
  fs_EventName :: string
  UserCount :: int
  ConversionRate :: f64
  DropOffRate :: f64

record retention_request =
  rr_AppID :: string
  rr_FromMs :: int
  rr_ToMs :: int
  rr_DayNs :: "int list option"

record retention_cohort =
  InstallDate :: string
  CohortSize :: int
  DayNRates :: "(string \<times> f64) list"

record dau_request =
  dr_AppID :: string
  dr_FromMs :: int
  dr_ToMs :: int
  dr_Granularity :: string

section \<open>Encoding the responses\<close>

definition point_fields :: "data_point \<Rightarrow> (string \<times> json option) list" where
  "point_fields p =
     [(''timestamp_ms'', fint (dp_TimestampMs p)), (''value'', Some (JNum (dp_Value p))),
      (''dimensions'', if dp_Dimensions p = [] then None else Some (jmap (dp_Dimensions p)))]"

definition decode_point :: "(string \<times> json) list \<Rightarrow> data_point option" where
  "decode_point m = do {
     t \<leftarrow> to_int 0 (jvals ''timestamp_ms'' m); v \<leftarrow> to_float 0 (jvals ''value'' m);
     d \<leftarrow> decode_smap (to_string []) (jvals ''dimensions'' m);
     Some \<lparr>dp_TimestampMs = t, dp_Value = v, dp_Dimensions = d\<rparr> }"

definition count_fields :: "event_count_response \<Rightarrow> (string \<times> json option) list" where
  "count_fields r =
     [(''points'', Some (nil_array (map (\<lambda>p. JObj (obj_fields (point_fields p))) (Points r)))),
      (''total'', fint (Total r))]"

definition encode_count :: "event_count_response \<Rightarrow> json" where
  "encode_count r = JObj (obj_fields (count_fields r))"

definition decode_count :: "json \<Rightarrow> event_count_response option" where
  "decode_count j = do {
     m \<leftarrow> jobj j;
     ps \<leftarrow> decode_list decode_point (jvals ''points'' m); t \<leftarrow> to_int 0 (jvals ''total'' m);
     Some \<lparr>Points = ps, Total = t\<rparr> }"

definition step_fields :: "funnel_step \<Rightarrow> (string \<times> json option) list" where
  "step_fields s =
     [(''event_name'', fstr (fs_EventName s)), (''user_count'', fint (UserCount s)),
      (''conversion_rate'', Some (JNum (ConversionRate s))),
      (''drop_off_rate'', Some (JNum (DropOffRate s)))]"

definition decode_step :: "(string \<times> json) list \<Rightarrow> funnel_step option" where
  "decode_step m = do {
     n \<leftarrow> to_string [] (jvals ''event_name'' m); u \<leftarrow> to_int 0 (jvals ''user_count'' m);
     c \<leftarrow> to_float 0 (jvals ''conversion_rate'' m); d \<leftarrow> to_float 0 (jvals ''drop_off_rate'' m);
     Some \<lparr>fs_EventName = n, UserCount = u, ConversionRate = c, DropOffRate = d\<rparr> }"

text \<open>A \<open>FunnelResponse\<close> is its list of steps, a \<open>RetentionResponse\<close> its list of
  cohorts.\<close>

definition encode_funnel :: "funnel_step list \<Rightarrow> json" where
  "encode_funnel ss = JObj [(''steps'', nil_array (map (\<lambda>s. JObj (obj_fields (step_fields s))) ss))]"

definition decode_funnel :: "json \<Rightarrow> funnel_step list option" where
  "decode_funnel j = do { m \<leftarrow> jobj j; decode_list decode_step (jvals ''steps'' m) }"

definition cohort_fields :: "retention_cohort \<Rightarrow> (string \<times> json option) list" where
  "cohort_fields c =
     [(''install_date'', fstr (InstallDate c)), (''cohort_size'', fint (CohortSize c)),
      (''day_n_rates'', Some (JObj (map (\<lambda>(k, q). (k, JNum q)) (DayNRates c))))]"

definition decode_cohort :: "(string \<times> json) list \<Rightarrow> retention_cohort option" where
  "decode_cohort m = do {
     i \<leftarrow> to_string [] (jvals ''install_date'' m); n \<leftarrow> to_int 0 (jvals ''cohort_size'' m);
     r \<leftarrow> decode_smap (to_float 0) (jvals ''day_n_rates'' m);
     Some \<lparr>InstallDate = i, CohortSize = n, DayNRates = r\<rparr> }"

definition encode_retention :: "retention_cohort list \<Rightarrow> json" where
  "encode_retention cs =
     JObj [(''cohorts'', nil_array (map (\<lambda>c. JObj (obj_fields (cohort_fields c))) cs))]"

definition decode_retention :: "json \<Rightarrow> retention_cohort list option" where
  "decode_retention j = do { m \<leftarrow> jobj j; decode_list decode_cohort (jvals ''cohorts'' m) }"

section \<open>SQL builders\<close>

definition sql_line :: "nat \<Rightarrow> string \<Rightarrow> string" where
  "sql_line tabs s = CHR 0x0A # replicate tabs (CHR 0x09) @ s"

definition quoted :: "string \<Rightarrow> string" where
  "quoted s = [quote_char] @ s @ [quote_char]"

definition granularityFn :: "string \<Rightarrow> string" where
  "granularityFn g =
     (if g = ''minute'' then ''toStartOfMinute'' else if g = ''hour'' then ''toStartOfHour''
      else if g = ''week'' then ''toStartOfWeek'' else if g = ''month'' then ''toStartOfMonth''
      else ''toDate'')"

definition inClause :: "string list \<Rightarrow> string" where
  "inClause items = str_join '', '' (map (\<lambda>item. quoted (double_quotes item)) items)"

text \<open>A query argument is a string, a time, of which the code keeps milliseconds, or an int.\<close>

datatype sql_arg = AStr string | ATime int | AInt int

definition buildEventCountSQL :: "event_count_request \<Rightarrow> string \<times> sql_arg list" where
  "buildEventCountSQL req =
     (sql_line 2 (''SELECT '' @ granularityFn (cr_Granularity req) @ ''(event_time) AS ts, count() AS cnt'')
      @ sql_line 2 ''FROM events''
      @ sql_line 2 ''WHERE app_id = ? AND event_name = ?''
      @ sql_line 2 ''  AND event_time BETWEEN ? AND ?''
      @ sql_line 2 ''GROUP BY ts'' @ sql_line 2 ''ORDER BY ts'',
      [AStr (cr_AppID req), AStr (cr_EventName req), ATime (cr_FromMs req), ATime (cr_ToMs req)])"

definition buildFunnelSQL :: "funnel_request \<Rightarrow> string \<times> sql_arg list" where
  "buildFunnelSQL req =
     (let conditions = map (\<lambda>step. ''event_name = '' @ quoted (double_quotes step)) (fr_Steps req);
          condStr = str_join ('','' @ [CHR 0x0A] @ ''        '') conditions
      in (sql_line 2 ''SELECT''
          @ sql_line 3 (''windowFunnel('' @ itoa (fr_WindowSeconds req) @ '')(toUnixTimestamp(event_time),'')
          @ sql_line 4 condStr @ sql_line 3 '') AS level,'' @ sql_line 3 ''count() AS users''
          @ sql_line 2 ''FROM events'' @ sql_line 2 ''WHERE'' @ sql_line 3 ''app_id = ?''
          @ sql_line 3 ''AND event_time BETWEEN ? AND ?''
          @ sql_line 3 (''AND event_name IN ('' @ inClause (fr_Steps req) @ '')'')
          @ sql_line 2 ''GROUP BY user_id'',
          [AStr (fr_AppID req), ATime (fr_FromMs req), ATime (fr_ToMs req)]))"

definition buildDAUSQL :: "dau_request \<Rightarrow> string \<times> sql_arg list" where
  "buildDAUSQL req =
     (sql_line 2 (''SELECT '' @ granularityFn (dr_Granularity req)
        @ ''(event_time) AS period, uniqHLL12(user_id) AS dau'')
      @ sql_line 2 ''FROM events'' @ sql_line 2 ''WHERE app_id = ?''
      @ sql_line 2 (''  AND event_name = '' @ quoted ''app_opened'')
      @ sql_line 2 ''  AND event_time BETWEEN ? AND ?''
      @ sql_line 2 ''GROUP BY period'' @ sql_line 2 ''ORDER BY period'',
      [AStr (dr_AppID req), ATime (dr_FromMs req), ATime (dr_ToMs req)])"

definition day_column :: "int \<Rightarrow> string" where
  "day_column n = ''countDistinctIf(user_id, dateDiff('' @ quoted ''day''
     @ '', toDate(install_time), toDate(return_time)) = '' @ itoa n @ '') AS day'' @ itoa n"

definition retention_sql :: "retention_request \<Rightarrow> string \<times> sql_arg list" where
  "retention_sql req =
     (sql_line 5 ''SELECT'' @ sql_line 6 ''toDate(install_time) AS install_date,''
      @ sql_line 6 ''count(DISTINCT user_id) AS cohort_size,''
      @ sql_line 6 (day_column 1 @ '','') @ sql_line 6 (day_column 3 @ '','')
      @ sql_line 6 (day_column 7 @ '','') @ sql_line 6 (day_column 14 @ '','')
      @ sql_line 6 (day_column 30)
      @ sql_line 5 ''FROM ('' @ sql_line 6 ''SELECT'' @ sql_line 7 ''user_id,''
      @ sql_line 7 (''minIf(event_time, event_name = '' @ quoted ''app_installed'' @ '') AS install_time,'')
      @ sql_line 7 ''event_time AS return_time'' @ sql_line 6 ''FROM events'' @ sql_line 6 ''WHERE''
      @ sql_line 7 ''app_id = ?'' @ sql_line 7 ''AND event_time BETWEEN ? AND ?''
      @ sql_line 7 (''AND event_name IN ('' @ quoted ''app_installed'' @ '', '' @ quoted ''app_opened'' @ '')'')
      @ sql_line 6 ''GROUP BY user_id, return_time'' @ sql_line 5 '')''
      @ sql_line 5 ''WHERE install_time > 0'' @ sql_line 5 ''GROUP BY install_date''
      @ sql_line 5 ''ORDER BY install_date'',
      [AStr (rr_AppID req), ATime (rr_FromMs req), ATime (rr_ToMs req)])"

section \<open>The cache key\<close>

definition hex_digit :: "nat \<Rightarrow> char" where
  "hex_digit n = (if n < 10 then digit n else char_of (87 + n))"

definition hex_encode :: "8 word list \<Rightarrow> string" where
  "hex_encode bs = concat (map (\<lambda>b. [hex_digit (unat b div 16), hex_digit (unat b mod 16)]) bs)"

fun arg_json :: "sql_arg \<Rightarrow> json" where
  "arg_json (AStr s) = JStr s"
| "arg_json (ATime ms) = JStr (format_rfc3339 ms)"
| "arg_json (AInt i) = JNum (of_int i)"

text \<open>\<open>sha\<close> is SHA-256 of the SQL text followed, unless \<open>args\<close> is nil, by the JSON
  text of \<open>args\<close>, here its syntax tree.\<close>

type_synonym hasher = "string \<Rightarrow> json option \<Rightarrow> 8 word list"

definition cacheKey :: "hasher \<Rightarrow> string \<Rightarrow> sql_arg list option \<Rightarrow> string" where
  "cacheKey sha sql args =
     ''qcache:'' @ take 16 (hex_encode (sha sql (map_option (\<lambda>as. JArr (map arg_json as)) args)))"

definition retention_key_text :: "retention_request \<Rightarrow> string" where
  "retention_key_text req = ''retention:'' @ rr_AppID req @ '':'' @ itoa (rr_FromMs req) @ '':''
     @ itoa (rr_ToMs req)"

section \<open>The service\<close>

text \<open>\<open>'row\<close> is a result row; the \<open>scan\<close> fields are \<open>rows.Scan\<close> into the variables of
  each query, \<open>None\<close> a conversion error (the code skips the row).  Times are scanned as
  their Unix milliseconds.\<close>

record ('s, 'c, 'row) q_env =
  q_R :: "('s, json) redis"
  q_Query :: "'c \<Rightarrow> string \<Rightarrow> sql_arg list \<Rightarrow> (go_error + 'row list) \<times> 'c"
  scan_count :: "'row \<Rightarrow> (int \<times> f64) option"
  scan_level :: "'row \<Rightarrow> (int \<times> int) option"
  scan_dau :: "'row \<Rightarrow> (int \<times> 64 word) option"
  scan_cohort :: "'row \<Rightarrow> (int \<times> int \<times> int \<times> int \<times> int \<times> int \<times> int) option"
  q_sha :: hasher

record ('s, 'c) qservice =
  q_l1 :: "json l1cache"
  q_redis :: 's
  q_ch :: 'c
  q_breaker :: breaker
  q_bh :: bulkhead

definition q_sec :: int where "q_sec = 1000000000"

definition cacheL2TTL :: int where "cacheL2TTL = 5 * 60 * q_sec"
definition cacheL1TTL :: int where "cacheL1TTL = 60 * q_sec"
definition cacheL1Stale :: int where "cacheL1Stale = 45 * q_sec"
definition l1MaxEntries :: int where "l1MaxEntries = 10000"

definition NewService :: "'c \<Rightarrow> 's \<Rightarrow> ('s, 'c) qservice" where
  "NewService ch redis = \<lparr>q_l1 = l1_New l1MaxEntries, q_redis = redis, q_ch = ch,
     q_breaker = breaker_New ''clickhouse'' \<lparr>MaxFailures = 5, OpenTimeout = 30 * q_sec, SuccessThreshold = 2\<rparr>,
     q_bh = bulkhead_New 20 200\<rparr>"

definition q_Close :: "('s, 'c) qservice \<Rightarrow> ('s, 'c) qservice option" where
  "q_Close st = map_option (\<lambda>c. st\<lparr>q_l1 := c\<rparr>) (l1_Close (q_l1 st))"

section \<open>Results from rows\<close>

text \<open>\<open>int64(val)\<close> truncates towards zero.\<close>

definition go_trunc :: "f64 \<Rightarrow> int" where
  "go_trunc q = (if 0 \<le> q then \<lfloor>q\<rfloor> else \<lceil>q\<rceil>)"

fun count_rows :: "('row \<Rightarrow> (int \<times> f64) option) \<Rightarrow> 'row list \<Rightarrow> data_point list \<Rightarrow> int \<Rightarrow> data_point list \<times> int" where
  "count_rows scan [] points tot = (points, tot)"
| "count_rows scan (row # rows) points tot =
     (case scan row of
        None \<Rightarrow> count_rows scan rows points tot
      | Some (ts, val) \<Rightarrow> count_rows scan rows
          (points @ [\<lparr>dp_TimestampMs = i64 ts, dp_Value = val, dp_Dimensions = []\<rparr>])
          (i64 (tot + i64 (go_trunc val))))"

definition count_result :: "('row \<Rightarrow> (int \<times> f64) option) \<Rightarrow> 'row list \<Rightarrow> event_count_response" where
  "count_result scan rows = (case count_rows scan rows [] 0 of (points, tot) \<Rightarrow>
     \<lparr>Points = points, Total = tot\<rparr>)"

text \<open>\<open>levelCounts[level] += count\<close>; the sum over the map is the same in any iteration
  order.\<close>

fun level_counts :: "('row \<Rightarrow> (int \<times> int) option) \<Rightarrow> 'row list \<Rightarrow> (int \<times> int) list \<Rightarrow> (int \<times> int) list" where
  "level_counts scan [] m = m"
| "level_counts scan (row # rows) m =
     (case scan row of
        None \<Rightarrow> level_counts scan rows m
      | Some (level, cnt) \<Rightarrow> level_counts scan rows
          (al_set level (i64 ((case map_of m level of None \<Rightarrow> 0 | Some c \<Rightarrow> c) + cnt)) m))"

definition users_at :: "(int \<times> int) list \<Rightarrow> nat \<Rightarrow> int" where
  "users_at m i = foldl (\<lambda>userCount (lvl, cnt). if lvl \<ge> int i + 1 then i64 (userCount + cnt) else userCount) 0 m"

text \<open>One turn of the loop that fills in the rates.  The rational quotient by zero is
  0 where Go's is infinite or NaN; \<open>funnel_steps\<close> divides by positive counts unless a count
  overflows or is negative.\<close>

definition rate_turn :: "funnel_step list \<Rightarrow> nat \<Rightarrow> funnel_step list" where
  "rate_turn steps i =
     (if i = 0 \<and> UserCount (steps ! 0) > 0 then steps[i := (steps ! i)\<lparr>ConversionRate := 1\<rparr>]
      else if i > 0 \<and> UserCount (steps ! (i - 1)) > 0 then
        steps[i := (steps ! i)\<lparr>ConversionRate :=
                of_int (UserCount (steps ! i)) / of_int (UserCount (steps ! 0))\<rparr>,
              i - 1 := (steps ! (i - 1))\<lparr>DropOffRate :=
                1 - of_int (UserCount (steps ! i)) / of_int (UserCount (steps ! (i - 1)))\<rparr>]
      else steps)"

definition funnel_steps :: "string list \<Rightarrow> (int \<times> int) list \<Rightarrow> funnel_step list" where
  "funnel_steps names m =
     foldl rate_turn
       (map (\<lambda>(i, name). \<lparr>fs_EventName = name, UserCount = users_at m i, ConversionRate = 0,
                          DropOffRate = 0\<rparr>) (enumerate 0 names))
       [0..<length names]"

fun dau_rows :: "('row \<Rightarrow> (int \<times> 64 word) option) \<Rightarrow> 'row list \<Rightarrow> data_point list" where
  "dau_rows scan [] = []"
| "dau_rows scan (row # rows) =
     (case scan row of
        None \<Rightarrow> dau_rows scan rows
      | Some (date, n) \<Rightarrow>
          \<lparr>dp_TimestampMs = i64 date, dp_Value = of_nat (unat n), dp_Dimensions = []\<rparr> # dau_rows scan rows)"

definition safeDivide :: "int \<Rightarrow> int \<Rightarrow> f64" where
  "safeDivide numerator denominator =
     (if denominator = 0 then 0 else of_int numerator / of_int denominator)"

text \<open>The map of rates in the key order \<open>json.Marshal\<close> writes it in.\<close>

fun cohort_rows ::
  "('row \<Rightarrow> (int \<times> int \<times> int \<times> int \<times> int \<times> int \<times> int) option) \<Rightarrow> 'row list \<Rightarrow> retention_cohort list" where
  "cohort_rows scan [] = []"
| "cohort_rows scan (row # rows) =
     (case scan row of
        None \<Rightarrow> cohort_rows scan rows
      | Some (installDate, sz, d1, d3, d7, d14, d30) \<Rightarrow>
          if sz = 0 then cohort_rows scan rows
          else \<lparr>InstallDate = format_date installDate, CohortSize = sz,
                 DayNRates = [(''day_1'', safeDivide d1 sz), (''day_14'', safeDivide d14 sz),
                              (''day_3'', safeDivide d3 sz), (''day_30'', safeDivide d30 sz),
                              (''day_7'', safeDivide d7 sz)]\<rparr> # cohort_rows scan rows)"

section \<open>The tiers\<close>

text \<open>The clock readings of one query, in the order the code takes them: 0 and 1 in
  \<open>l1.Get\<close>, 2 at the Redis \<open>GET\<close>, 3 in \<open>l1.Set\<close> after an L2 hit, 4 and 5 in the
  breaker, 6 in \<open>l1.Set\<close> and 7 at the Redis \<open>SET\<close> of \<open>populateCaches\<close>.\<close>

type_synonym clock = "nat \<Rightarrow> int"

definition from_l1 ::
  "clock \<Rightarrow> (json \<Rightarrow> 'a option) \<Rightarrow> string \<Rightarrow> ('s, 'c) qservice \<Rightarrow> ('a \<times> bool) option \<times> ('s, 'c) qservice" where
  "from_l1 clk dec key st =
     (case l1_Get (clk 0) (clk 1) key (q_l1 st) of (res, c) \<Rightarrow>
        ((case gr_Value res of None \<Rightarrow> None
          | Some v \<Rightarrow> (case dec v of None \<Rightarrow> None | Some a \<Rightarrow> Some (a, NeedsRefresh res))),
         st\<lparr>q_l1 := c\<rparr>))"

definition from_l2 ::
  "('s, 'c, 'row) q_env \<Rightarrow> clock \<Rightarrow> ('a \<Rightarrow> json) \<Rightarrow> (json \<Rightarrow> 'a option) \<Rightarrow> string \<Rightarrow> ('s, 'c) qservice
     \<Rightarrow> 'a option \<times> ('s, 'c) qservice" where
  "from_l2 env clk enc dec key st =
     (case redis_GetJSON (q_R env) dec (q_redis st) (clk 2) key of
        Inl _ \<Rightarrow> (None, st)
      | Inr a \<Rightarrow> (Some a, st\<lparr>q_l1 := l1_Set (clk 3) key (enc a) cacheL1TTL cacheL1Stale (q_l1 st)\<rparr>))"

definition populate ::
  "('s, 'c, 'row) q_env \<Rightarrow> clock \<Rightarrow> ('a \<Rightarrow> json) \<Rightarrow> int \<Rightarrow> string \<Rightarrow> 'a \<Rightarrow> ('s, 'c) qservice \<Rightarrow> ('s, 'c) qservice" where
  "populate env clk enc l2ttl key a st =
     st\<lparr>q_l1 := l1_Set (clk 6) key (enc a) cacheL1TTL cacheL1Stale (q_l1 st),
        q_redis := snd (redis_SetJSON (q_R env) (\<lambda>a. Some (enc a)) (q_redis st) (clk 7) key a l2ttl)\<rparr>"

definition populateCaches ::
  "('s, 'c, 'row) q_env \<Rightarrow> clock \<Rightarrow> ('a \<Rightarrow> json) \<Rightarrow> string \<Rightarrow> 'a \<Rightarrow> ('s, 'c) qservice \<Rightarrow> ('s, 'c) qservice" where
  "populateCaches env clk enc key a st = populate env clk enc cacheL2TTL key a st"

text \<open>\<open>s.bh.Do(req.AppID, func() { return s.chBreaker.Execute(f) })\<close>.\<close>

definition guarded ::
  "clock \<Rightarrow> string \<Rightarrow> ('c \<Rightarrow> (go_error + 'a) \<times> 'c) \<Rightarrow> ('s, 'c) qservice \<Rightarrow> (go_error + 'a) \<times> ('s, 'c) qservice" where
  "guarded clk app f st =
     (case bh_Do app (q_bh st)
             (\<lambda>(ch, br). case breaker_Execute (clk 4) (clk 5) br f ch of (r, ch', br') \<Rightarrow> (r, (ch', br')))
             (q_ch st, q_breaker st) of
        (r, (ch', br'), bh') \<Rightarrow> (r, st\<lparr>q_ch := ch', q_breaker := br', q_bh := bh'\<rparr>))"

text \<open>The shape of the four queries: L1, L2, then one guarded call whose result fills both
  caches.  \<open>joined\<close> is \<open>Some r\<close> when single-flight finds a call for this key in flight,
  whose result \<open>r\<close> the caller then shares.  The \<open>bool\<close> is \<open>NeedsRefresh\<close>.\<close>

definition serve ::
  "('s, 'c, 'row) q_env \<Rightarrow> clock \<Rightarrow> (go_error + 'a) option \<Rightarrow> ('a \<Rightarrow> json) \<Rightarrow> (json \<Rightarrow> 'a option) \<Rightarrow> int
     \<Rightarrow> string \<Rightarrow> string \<Rightarrow> ('c \<Rightarrow> (go_error + 'a) \<times> 'c) \<Rightarrow> ('s, 'c) qservice
     \<Rightarrow> (go_error + 'a) \<times> bool \<times> ('s, 'c) qservice" where
  "serve env clk joined enc dec l2ttl app key f st =
     (case from_l1 clk dec key st of
        (Some (a, refresh), st1) \<Rightarrow> (Inr a, refresh, st1)
      | (None, st1) \<Rightarrow>
          (case from_l2 env clk enc dec key st1 of
             (Some a, st2) \<Rightarrow> (Inr a, False, st2)
           | (None, st2) \<Rightarrow>
               (case joined of
                  Some r \<Rightarrow> (r, False, st2)
                | None \<Rightarrow>
                    (case guarded clk app f st2 of
                       (Inl e, st3) \<Rightarrow> (Inl e, False, st3)
                     | (Inr a, st3) \<Rightarrow> (Inr a, False, populate env clk enc l2ttl key a st3)))))"

section \<open>The queries\<close>

text \<open>A query function run on the connection: the error is wrapped with \<open>what\<close>.\<close>

definition ch_run ::
  "('s, 'c, 'row) q_env \<Rightarrow> string \<Rightarrow> string \<Rightarrow> sql_arg list \<Rightarrow> ('row list \<Rightarrow> 'a) \<Rightarrow> 'c \<Rightarrow> (go_error + 'a) \<times> 'c" where
  "ch_run env what sql args result ch =
     (case q_Query env ch sql args of
        (Inl _, ch') \<Rightarrow> (Inl (Errorf what), ch')
      | (Inr rows, ch') \<Rightarrow> (Inr (result rows), ch'))"

text \<open>The second component is the refresh the query starts: its key, SQL and arguments.\<close>

definition EventCount ::
  "('s, 'c, 'row) q_env \<Rightarrow> clock \<Rightarrow> (go_error + event_count_response) option \<Rightarrow> event_count_request
     \<Rightarrow> ('s, 'c) qservice
     \<Rightarrow> (go_error + event_count_response) \<times> (string \<times> string \<times> sql_arg list) option \<times> ('s, 'c) qservice" where
  "EventCount env clk joined req st =
     (case buildEventCountSQL req of (sql, args) \<Rightarrow>
      (case serve env clk joined encode_count decode_count cacheL2TTL (cr_AppID req)
              (cacheKey (q_sha env) sql (Some args))
              (ch_run env ''event count query'' sql args (count_result (scan_count env))) st of
         (r, refresh, st') \<Rightarrow>
           (r, if refresh then Some (cacheKey (q_sha env) sql (Some args), sql, args) else None, st')))"

text \<open>The refresh goes to ClickHouse without the bulkhead and the breaker.\<close>

definition refreshEventCount ::
  "('s, 'c, 'row) q_env \<Rightarrow> clock \<Rightarrow> string \<Rightarrow> string \<Rightarrow> sql_arg list \<Rightarrow> ('s, 'c) qservice \<Rightarrow> ('s, 'c) qservice" where
  "refreshEventCount env clk key sql args st =
     (case q_Query env (q_ch st) sql args of
        (Inl _, ch') \<Rightarrow> st\<lparr>q_ch := ch', q_l1 := l1_Delete key (q_l1 st)\<rparr>
      | (Inr rows, ch') \<Rightarrow>
          populateCaches env clk encode_count key (count_result (scan_count env) rows) (st\<lparr>q_ch := ch'\<rparr>))"

definition Funnel ::
  "('s, 'c, 'row) q_env \<Rightarrow> clock \<Rightarrow> (go_error + funnel_step list) option \<Rightarrow> funnel_request
     \<Rightarrow> ('s, 'c) qservice \<Rightarrow> (go_error + funnel_step list) \<times> ('s, 'c) qservice" where
  "Funnel env clk joined req st =
     (if length (fr_Steps req) < 2 \<or> length (fr_Steps req) > 10
      then (Inl (Errorf ''funnel requires 2-10 steps''), st)
      else
        (case buildFunnelSQL req of (sql, args) \<Rightarrow>
         (case serve env clk joined encode_funnel decode_funnel cacheL2TTL (fr_AppID req)
                 (cacheKey (q_sha env) sql (Some args))
                 (ch_run env ''funnel query'' sql args
                    (\<lambda>rows. funnel_steps (fr_Steps req) (level_counts (scan_level env) rows []))) st of
            (r, _, st') \<Rightarrow> (r, st'))))"

definition DAU ::
  "('s, 'c, 'row) q_env \<Rightarrow> clock \<Rightarrow> (go_error + event_count_response) option \<Rightarrow> dau_request
     \<Rightarrow> ('s, 'c) qservice \<Rightarrow> (go_error + event_count_response) \<times> ('s, 'c) qservice" where
  "DAU env clk joined req st =
     (case buildDAUSQL req of (sql, args) \<Rightarrow>
      (case serve env clk joined encode_count decode_count cacheL2TTL (dr_AppID req)
              (cacheKey (q_sha env) sql (Some args))
              (ch_run env ''DAU query'' sql args
                 (\<lambda>rows. \<lparr>Points = dau_rows (scan_dau env) rows, Total = 0\<rparr>)) st of
         (r, _, st') \<Rightarrow> (r, st')))"

definition retention_ttl :: int where "retention_ttl = 10 * 60 * q_sec"

definition Retention ::
  "('s, 'c, 'row) q_env \<Rightarrow> clock \<Rightarrow> (go_error + retention_cohort list) option \<Rightarrow> retention_request
     \<Rightarrow> ('s, 'c) qservice \<Rightarrow> (go_error + retention_cohort list) \<times> ('s, 'c) qservice" where
  "Retention env clk joined req st =
     (case retention_sql req of (sql, args) \<Rightarrow>
      (case serve env clk joined encode_retention decode_retention retention_ttl (rr_AppID req)
              (cacheKey (q_sha env) (retention_key_text req) None)
              (ch_run env ''retention query'' sql args (cohort_rows (scan_cohort env))) st of
         (r, _, st') \<Rightarrow> (r, st')))"

section \<open>What is cached decodes to what was computed\<close>

lemma wf_point_fields: "wf_fields (point_fields p)"
  unfolding wf_fields_def point_fields_def by (simp add: to_lower_def to_lower_char_def)

lemma wf_count_fields: "wf_fields (count_fields r)"
  unfolding wf_fields_def count_fields_def by (simp add: to_lower_def to_lower_char_def)

lemma wf_step_fields: "wf_fields (step_fields r)"
  unfolding wf_fields_def step_fields_def by (simp add: to_lower_def to_lower_char_def)

lemma wf_cohort_fields: "wf_fields (cohort_fields r)"
  unfolding wf_fields_def cohort_fields_def by (simp add: to_lower_def to_lower_char_def)

lemma to_float_field [wire_simps]: "to_float z (vals_of (Some (Some (JNum q)))) = Some q"
  by (simp add: vals_of_def)

lemma decode_list_fields:
  assumes "\<And>x. x \<in> set xs \<Longrightarrow> dec (obj_fields (fs x)) = Some x"
  shows "decode_list dec (vals_of (Some (Some (nil_array (map (\<lambda>x. JObj (obj_fields (fs x))) xs))))) = Some xs"
proof (cases "xs = []")
  case True
  then show ?thesis by (simp add: decode_list_def nil_array_def vals_of_def)
next
  case False
  have "those (map (\<lambda>x. dec (obj_fields (fs x))) xs) = Some (map (\<lambda>x. x) xs)"
    by (rule those_map_Some) (rule assms)
  with False show ?thesis
    by (simp add: decode_list_def nil_array_def vals_of_def jobj_def comp_def)
qed

definition plain_point :: "data_point \<Rightarrow> bool" where
  "plain_point p \<longleftrightarrow> in_i64 (dp_TimestampMs p) \<and> dp_Dimensions p = []"

lemma point_decodes: "plain_point p \<Longrightarrow> decode_point (obj_fields (point_fields p)) = Some p"
  unfolding decode_point_def jvals_obj_fields [OF wf_point_fields]
  by (simp add: point_fields_def plain_point_def wire_simps decode_smap_def)
    (simp add: vals_of_def)

lemma count_decodes:
  assumes "list_all plain_point (Points r)" "in_i64 (Total r)"
  shows "decode_count (encode_count r) = Some r"
proof -
  have "decode_list decode_point (vals_of (Some (Some (nil_array
      (map (\<lambda>p. JObj (obj_fields (point_fields p))) (Points r)))))) = Some (Points r)"
    by (rule decode_list_fields) (use assms(1) in \<open>simp add: point_decodes list_all_iff\<close>)
  with assms(2) show ?thesis
    unfolding decode_count_def encode_count_def
    by (simp add: jobj_def jvals_obj_fields [OF wf_count_fields])
      (simp add: count_fields_def wire_simps)
qed

lemma count_rows_plain:
  "list_all plain_point ps \<Longrightarrow> in_i64 n \<Longrightarrow>
     list_all plain_point (fst (count_rows scan rows ps n)) \<and> in_i64 (snd (count_rows scan rows ps n))"
proof (induction rows arbitrary: ps n)
  case (Cons row rows)
  show ?case
  proof (cases "scan row")
    case None
    with Cons show ?thesis by simp
  next
    case (Some tv)
    obtain ts v where tv: "tv = (ts, v)" by (cases tv)
    have "list_all plain_point (ps @ [\<lparr>dp_TimestampMs = i64 ts, dp_Value = v, dp_Dimensions = []\<rparr>])"
      using Cons.prems(1) by simp (simp add: plain_point_def)
    from Cons.IH [OF this in_i64_i64] show ?thesis by (simp add: Some tv)
  qed
qed simp

lemma count_result_decodes: "decode_count (encode_count (count_result scan rows)) = Some (count_result scan rows)"
proof (rule count_decodes)
  have r: "list_all plain_point (fst (count_rows scan rows [] 0)) \<and> in_i64 (snd (count_rows scan rows [] 0))"
    by (rule count_rows_plain) (simp_all add: in_i64_def)
  then show "list_all plain_point (Points (count_result scan rows))" "in_i64 (Total (count_result scan rows))"
    by (simp_all add: count_result_def case_prod_unfold)
qed

section \<open>The guard\<close>

interpretation ch_guard: nested_guard "bh_Do t" is_ErrCapacity "\<lambda>b. \<exists>H. bh_rel b 0 H"
  "breaker_Execute t0 t1" is_ErrOpen "\<lambda>_. True"
  by unfold_locales

lemma guarded_cases:
  assumes "bh_rel (q_bh st) 0 H" "guarded clk app f st = (r, st')"
  shows "(\<exists>H'. bh_rel (q_bh st') 0 H')
    \<and> ((\<exists>e. r = Inl e \<and> (is_ErrCapacity e \<or> is_ErrOpen e) \<and> q_ch st' = q_ch st) \<or> f (q_ch st) = (r, q_ch st'))
    \<and> q_l1 st' = q_l1 st \<and> q_redis st' = q_redis st"
proof -
  obtain ch' br' bh' where d: "bh_Do app (q_bh st)
      (\<lambda>(ch, br). case breaker_Execute (clk 4) (clk 5) br f ch of (r, ch', br') \<Rightarrow> (r, (ch', br')))
      (q_ch st, q_breaker st) = (r, (ch', br'), bh')"
    and st': "st' = st\<lparr>q_ch := ch', q_breaker := br', q_bh := bh'\<rparr>"
    using assms(2) by (auto simp: guarded_def split: prod.splits)
  have ok: "\<exists>H. bh_rel (q_bh st) 0 H" using assms(1) by blast
  show ?thesis
    using ch_guard.nested_refused_or_run [OF ok TrueI d] ch_guard.nested_ok(1) [OF ok TrueI d] st'
    by auto
qed

section \<open>What the tiers hold\<close>

text \<open>A Redis that returns only what was stored: after a \<open>SET\<close>, failed or not, a key reads
  as before or, if it is the key set, as the new value.\<close>

definition redis_honest :: "('s, 'v) redis \<Rightarrow> bool" where
  "redis_honest R \<longleftrightarrow>
     (\<forall>s now k v ttl e s' t j u. raw_Set R s now k v ttl = (e, s') \<longrightarrow> now \<le> t \<longrightarrow>
        raw_Get R s' t j = Inr u \<longrightarrow> raw_Get R s t j = Inr u \<or> (j = k \<and> u = v))"

lemma mem_redis_honest: "redis_honest (mem_redis :: ('v mem, 'v) redis)"
  by (auto simp: redis_honest_def mem_redis_def mem_get_def split: option.splits if_splits)

definition tiers_hold :: "(string \<Rightarrow> json \<Rightarrow> bool) \<Rightarrow> ('s, json) redis \<Rightarrow> int \<Rightarrow> ('s, 'c) qservice \<Rightarrow> bool" where
  "tiers_hold P R now st \<longleftrightarrow> l1.faithful P (q_l1 st)
     \<and> (\<forall>t k v. now \<le> t \<longrightarrow> raw_Get R (q_redis st) t k = Inr v \<longrightarrow> P k v)"

lemma tiers_hold_later: "tiers_hold P R now st \<Longrightarrow> now \<le> now' \<Longrightarrow> tiers_hold P R now' st"
  unfolding tiers_hold_def by (meson order_trans)

lemma from_l1_sound:
  assumes "tiers_hold P R now st" "from_l1 clk dec key st = (r, st')"
  shows "tiers_hold P R now st'" "r = Some (a, rf) \<Longrightarrow> \<exists>v. P key v \<and> dec v = Some a"
    "q_bh st' = q_bh st"
proof -
  obtain res c where g: "l1_Get (clk 0) (clk 1) key (q_l1 st) = (res, c)" by fastforce
  have f: "(case l1_Get (clk 0) (clk 1) key (q_l1 st) of (r, c') \<Rightarrow> (gr_Value r, c')) = (gr_Value res, c)"
    unfolding g by simp
  have P: "l1.faithful P (q_l1 st)" using assms(1) by (simp add: tiers_hold_def)
  note c = l1.faithful_fetch [OF P f]
  show "tiers_hold P R now st'" using assms c g by (auto simp: tiers_hold_def from_l1_def)
  show "r = Some (a, rf) \<Longrightarrow> \<exists>v. P key v \<and> dec v = Some a"
    using assms(2) c g by (auto simp: from_l1_def split: option.splits)
  show "q_bh st' = q_bh st" using assms(2) g by (auto simp: from_l1_def)
qed

lemma tiers_hold_l1_Set:
  "tiers_hold P R now st \<Longrightarrow> P key v \<Longrightarrow> tiers_hold P R now (st\<lparr>q_l1 := l1_Set t key v ttl stale (q_l1 st)\<rparr>)"
  by (simp add: tiers_hold_def l1.faithful_put)

lemma from_l2_sound:
  assumes "tiers_hold P R now st" "now \<le> clk 2" "q_R env = R"
    and "from_l2 env clk enc dec key st = (r, st')"
    and stable: "\<forall>v a. P key v \<longrightarrow> dec v = Some a \<longrightarrow> P key (enc a)"
  shows "tiers_hold P R now st'" "r = Some a \<Longrightarrow> \<exists>v. P key v \<and> dec v = Some a" "q_bh st' = q_bh st"
proof -
  have v: "\<exists>v. P key v \<and> dec v = Some a" if "redis_GetJSON R dec (q_redis st) (clk 2) key = Inr a" for a
    using that assms(1,2) by (auto simp: redis_GetJSON_def tiers_hold_def split: sum.splits option.splits)
  show "tiers_hold P R now st'" "r = Some a \<Longrightarrow> \<exists>v. P key v \<and> dec v = Some a" "q_bh st' = q_bh st"
    using assms(1,3,4) v stable
    by (fastforce simp: from_l2_def intro: tiers_hold_l1_Set split: sum.splits)+
qed

lemma populate_sound:
  assumes "tiers_hold P R now st" "now \<le> now'" "clk 7 \<le> now'" "q_R env = R" "redis_honest R" "P key (enc a)"
  shows "tiers_hold P R now' (populate env clk enc ttl key a st)"
proof -
  obtain e s' where s: "raw_Set R (q_redis st) (clk 7) key (enc a) ttl = (e, s')" by fastforce
  have "raw_Get R s' t j = Inr u \<Longrightarrow> now' \<le> t \<Longrightarrow> P j u" for t j u
  proof -
    assume u: "raw_Get R s' t j = Inr u" "now' \<le> t"
    with assms(2,3) have le: "clk 7 \<le> t" "now \<le> t" by auto
    from assms(5) [unfolded redis_honest_def, rule_format, OF s le(1) u(1)] show "P j u"
      using assms(1,6) le(2) by (auto simp: tiers_hold_def)
  qed
  with assms(1,4,6) s show ?thesis
    by (auto simp: populate_def redis_SetJSON_def tiers_hold_def l1.faithful_put)
qed

lemma serve_sound:
  assumes "tiers_hold P R now st" "\<And>i. now \<le> clk i" "\<And>i. clk i \<le> now'" "q_R env = R" "redis_honest R"
    and "bh_rel (q_bh st) 0 H"
    and stable: "\<forall>v a. P key v \<longrightarrow> dec v = Some a \<longrightarrow> P key (enc a)"
    and run: "\<And>c a c'. f c = (Inr a, c') \<Longrightarrow> P key (enc a) \<and> Q a"
    and cached: "\<And>v a. P key v \<Longrightarrow> dec v = Some a \<Longrightarrow> Q a"
    and shared: "\<And>a. joined = Some (Inr a) \<Longrightarrow> Q a"
    and s: "serve env clk joined enc dec ttl app key f st = (r, rf, st')"
  shows "tiers_hold P R now' st' \<and> (\<exists>H'. bh_rel (q_bh st') 0 H') \<and> (\<forall>a. r = Inr a \<longrightarrow> Q a)"
proof -
  have le: "now \<le> now'" using assms(2,3) [of 0] by simp
  obtain o1 st1 where l1: "from_l1 clk dec key st = (o1, st1)" by fastforce
  note s1 = from_l1_sound [OF assms(1) l1]
  obtain o2 st2 where l2: "from_l2 env clk enc dec key st1 = (o2, st2)" by fastforce
  note s2 = from_l2_sound [OF s1(1) assms(2) assms(4) l2 stable]
  obtain r3 st3 where g: "guarded clk app f st2 = (r3, st3)" by fastforce
  have "bh_rel (q_bh st2) 0 H" using s1(3) s2(3) assms(6) by simp
  note s3 = guarded_cases [OF this g]
  have h3: "tiers_hold P R now st3" using s2(1) s3 by (simp add: tiers_hold_def)
  show ?thesis
  proof (cases o1)
    case (Some p)
    then obtain a rf' where "o1 = Some (a, rf')" by (cases p) auto
    with s l1 s1 cached tiers_hold_later [OF s1(1) le] assms(6) show ?thesis
      by (auto simp: serve_def)
  next
    case None
    show ?thesis
    proof (cases o2)
      case (Some a)
      with s l1 l2 None s1 s2 cached tiers_hold_later [OF s2(1) le] assms(6) show ?thesis
        by (auto simp: serve_def)
    next
      case n2: None
      show ?thesis
      proof (cases joined)
        case (Some j)
        with s l1 l2 None n2 s1 s2 shared tiers_hold_later [OF s2(1) le] assms(6) show ?thesis
          by (auto simp: serve_def)
      next
        case nj: None
        show ?thesis
        proof (cases r3)
          case (Inl e)
          with s l1 l2 None n2 nj g s3 tiers_hold_later [OF h3 le] show ?thesis
            by (auto simp: serve_def)
        next
          case (Inr a)
          with s3 have f: "f (q_ch st2) = (Inr a, q_ch st3)" by auto
          from run [OF f] have "tiers_hold P R now' (populate env clk enc ttl key a st3)"
            by (intro populate_sound [OF h3 le assms(3,4,5)]) simp
          with s l1 l2 None n2 nj g s3 Inr run [OF f] show ?thesis
            by (auto simp: serve_def populate_def)
        qed
      qed
    qed
  qed
qed

section \<open>Runs of the service\<close>

datatype q_op =
    OpCount "(go_error + event_count_response) option" event_count_request
  | OpFunnel "(go_error + funnel_step list) option" funnel_request
  | OpDAU "(go_error + event_count_response) option" dau_request
  | OpRetention "(go_error + retention_cohort list) option" retention_request
  | OpRefresh string string "sql_arg list"
  | OpJanitor int

fun q_apply :: "('s, 'c, 'row) q_env \<Rightarrow> clock \<Rightarrow> q_op \<Rightarrow> ('s, 'c) qservice \<Rightarrow> ('s, 'c) qservice" where
  "q_apply env clk (OpCount j req) st = snd (snd (EventCount env clk j req st))"
| "q_apply env clk (OpFunnel j req) st = snd (Funnel env clk j req st)"
| "q_apply env clk (OpDAU j req) st = snd (DAU env clk j req st)"
| "q_apply env clk (OpRetention j req) st = snd (Retention env clk j req st)"
| "q_apply env clk (OpRefresh key sql args) st = refreshEventCount env clk key sql args st"
| "q_apply env clk (OpJanitor t) st = st\<lparr>q_l1 := janitor_tick t (q_l1 st)\<rparr>"

definition sql_key :: "hasher \<Rightarrow> string \<times> sql_arg list \<Rightarrow> string" where
  "sql_key sha q = cacheKey sha (fst q) (Some (snd q))"

definition count_key :: "hasher \<Rightarrow> event_count_request \<Rightarrow> string" where
  "count_key sha req = sql_key sha (buildEventCountSQL req)"

text \<open>Operations that do not collide with \<open>req\<close>: those that use its cache key ask the
  same SQL with the same arguments, and share only results of it.  \<open>A\<close> are the row lists
  ClickHouse answers that query with.\<close>

fun harmless :: "('s, 'c, 'row) q_env \<Rightarrow> 'row list set \<Rightarrow> event_count_request \<Rightarrow> q_op \<Rightarrow> bool" where
  "harmless env A req (OpCount j req') \<longleftrightarrow>
     (count_key (q_sha env) req' = count_key (q_sha env) req \<longrightarrow>
        buildEventCountSQL req' = buildEventCountSQL req
        \<and> (\<forall>a. j = Some (Inr a) \<longrightarrow> a \<in> count_result (scan_count env) ` A))"
| "harmless env A req (OpFunnel j req') \<longleftrightarrow> sql_key (q_sha env) (buildFunnelSQL req') \<noteq> count_key (q_sha env) req"
| "harmless env A req (OpDAU j req') \<longleftrightarrow> sql_key (q_sha env) (buildDAUSQL req') \<noteq> count_key (q_sha env) req"
| "harmless env A req (OpRetention j req') \<longleftrightarrow>
     cacheKey (q_sha env) (retention_key_text req') None \<noteq> count_key (q_sha env) req"
| "harmless env A req (OpRefresh key sql args) \<longleftrightarrow>
     (key = count_key (q_sha env) req \<longrightarrow> (sql, args) = buildEventCountSQL req)"
| "harmless env A req (OpJanitor t) \<longleftrightarrow> True"

inductive q_run ::
  "('s, 'c, 'row) q_env \<Rightarrow> 'row list set \<Rightarrow> event_count_request \<Rightarrow> int \<Rightarrow> ('s, 'c) qservice \<Rightarrow> bool"
  for env A req where
  start: "(\<And>t v. raw_Get (q_R env) s t (count_key (q_sha env) req) \<noteq> Inr v) \<Longrightarrow>
     q_run env A req now (NewService ch s)"
| op: "q_run env A req now st \<Longrightarrow> harmless env A req o' \<Longrightarrow> (\<And>i. now \<le> clk i \<and> clk i \<le> now') \<Longrightarrow>
     q_run env A req now' (q_apply env clk o' st)"

text \<open>\<open>A\<close> holds whatever ClickHouse answers the query of \<open>req\<close> with.\<close>

definition replies_in :: "('s, 'c, 'row) q_env \<Rightarrow> 'row list set \<Rightarrow> event_count_request \<Rightarrow> bool" where
  "replies_in env A req \<longleftrightarrow> (\<forall>c rows c'.
     q_Query env c (fst (buildEventCountSQL req)) (snd (buildEventCountSQL req)) = (Inr rows, c') \<longrightarrow> rows \<in> A)"

definition own :: "('s, 'c, 'row) q_env \<Rightarrow> 'row list set \<Rightarrow> event_count_request \<Rightarrow> string \<Rightarrow> json \<Rightarrow> bool" where
  "own env A req k v \<longleftrightarrow>
     (k = count_key (q_sha env) req \<longrightarrow> v \<in> (\<lambda>rows. encode_count (count_result (scan_count env) rows)) ` A)"

lemma ch_run_Inr: "ch_run env what sql args g c = (Inr a, c') \<Longrightarrow>
    \<exists>rows. q_Query env c sql args = (Inr rows, c') \<and> a = g rows"
  by (auto simp: ch_run_def split: prod.splits sum.splits)

lemma serve_other_key:
  assumes "tiers_hold (own env A req) (q_R env) now st" "\<And>i. now \<le> clk i \<and> clk i \<le> now'" "redis_honest (q_R env)"
    and "bh_rel (q_bh st) 0 H" "key \<noteq> count_key (q_sha env) req"
    and "serve env clk joined enc dec ttl app key f st = (r, rf, st')"
  shows "tiers_hold (own env A req) (q_R env) now' st' \<and> (\<exists>H'. bh_rel (q_bh st') 0 H')"
  using serve_sound [where Q = "\<lambda>_. True", OF assms(1) _ _ refl assms(3,4) _ _ _ _ assms(6), of now'] assms(2,5)
  by (auto simp: own_def)

lemma serve_own_key:
  assumes "tiers_hold (own env A req) (q_R env) now st" "\<And>i. now \<le> clk i \<and> clk i \<le> now'" "redis_honest (q_R env)"
    and "bh_rel (q_bh st) 0 H" "buildEventCountSQL req = (sql, args)"
    and replies: "\<And>c rows c'. q_Query env c sql args = (Inr rows, c') \<Longrightarrow> rows \<in> A"
    and shared: "\<And>a. joined = Some (Inr a) \<Longrightarrow> a \<in> count_result (scan_count env) ` A"
    and s: "serve env clk joined encode_count decode_count ttl app (count_key (q_sha env) req)
      (ch_run env what sql args (count_result (scan_count env))) st = (r, rf, st')"
  shows "tiers_hold (own env A req) (q_R env) now' st' \<and> (\<exists>H'. bh_rel (q_bh st') 0 H')
    \<and> (\<forall>a. r = Inr a \<longrightarrow> a \<in> count_result (scan_count env) ` A)"
proof (rule serve_sound [OF assms(1) _ _ refl assms(3,4) _ _ _ shared s])
  show "\<forall>v a. own env A req (count_key (q_sha env) req) v \<longrightarrow> decode_count v = Some a \<longrightarrow>
      own env A req (count_key (q_sha env) req) (encode_count a)"
    by (auto simp: own_def count_result_decodes)
  show "a \<in> count_result (scan_count env) ` A"
    if "own env A req (count_key (q_sha env) req) v" "decode_count v = Some a" for v a
    using that by (auto simp: own_def count_result_decodes)
  show "own env A req (count_key (q_sha env) req) (encode_count a) \<and> a \<in> count_result (scan_count env) ` A"
    if "ch_run env what sql args (count_result (scan_count env)) c = (Inr a, c')" for c a c'
    using ch_run_Inr [OF that] replies by (auto simp: own_def)
qed (use assms(2) in auto)

definition l1_ok :: "'v l1cache \<Rightarrow> bool" where
  "l1_ok c \<longleftrightarrow> l1_wf c \<and> 0 \<le> maxEntries c"

lemma l1_ok_Set: "l1_ok c \<Longrightarrow> l1_ok (l1_Set now k v ttl stale c)"
  by (simp add: l1_ok_def l1_wf_Set) (simp add: l1_Set_def Let_def)

lemma l1_ok_Delete: "l1_ok c \<Longrightarrow> l1_ok (l1_Delete k c)"
  by (simp add: l1_ok_def l1_wf_Delete) (simp add: l1_Delete_def)

lemma l1_ok_Get: "l1_ok c \<Longrightarrow> l1_ok (snd (l1_Get t1 t2 k c))"
  using l1_wf_Get [of c t1 t2 k "fst (l1_Get t1 t2 k c)" "snd (l1_Get t1 t2 k c)"]
  by (simp add: l1_ok_def) (simp add: l1_Get_def split: option.splits)

lemma janitor_keeps:
  assumes "l1_ok c"
  shows "l1_ok (janitor_tick t c)" "l1.faithful P c \<Longrightarrow> l1.faithful P (janitor_tick t c)"
proof -
  have ok: "l1_wf c" "0 \<le> maxEntries c" using assms by (simp_all add: l1_ok_def)
  note s = evictExpired_spec [OF ok, of t]
  have "maxEntries (evictExpired t c) = maxEntries c"
    by (simp add: evictExpired_def Let_def split: prod.splits)
  with assms s show "l1_ok (janitor_tick t c)" by (simp add: l1_ok_def janitor_tick_def)
  have "l1_look (evictExpired t c) k = Some v \<Longrightarrow> l1_look c k = Some v" for k v
  proof -
    assume "l1_look (evictExpired t c) k = Some v"
    then obtain e where "(k, e) \<in> set (entries (evictExpired t c))" "v = Value e"
      by (auto simp: l1_look_def dest: map_of_SomeD)
    with s(3) ok(1) show ?thesis by (auto simp: l1_look_def l1_wf_def)
  qed
  then show "l1.faithful P c \<Longrightarrow> l1.faithful P (janitor_tick t c)"
    by (auto simp: l1.faithful_def janitor_tick_def)
qed

lemma serve_l1_ok:
  assumes "l1_ok (q_l1 st)" "serve env clk joined enc dec ttl app key f st = (r, rf, st')"
  shows "l1_ok (q_l1 st')"
proof -
  obtain o1 st1 where l1: "from_l1 clk dec key st = (o1, st1)" by fastforce
  obtain o2 st2 where l2: "from_l2 env clk enc dec key st1 = (o2, st2)" by fastforce
  obtain r3 st3 where g: "guarded clk app f st2 = (r3, st3)" by fastforce
  have 1: "l1_ok (q_l1 st1)"
    using l1_ok_Get [OF assms(1), of "clk 0" "clk 1" key] l1 by (auto simp: from_l1_def case_prod_unfold)
  then have 2: "l1_ok (q_l1 st2)"
    using l2 by (auto simp: from_l2_def l1_ok_Set split: sum.splits)
  then have 3: "l1_ok (q_l1 st3)"
    using g by (auto simp: guarded_def split: prod.splits)
  show ?thesis
    using assms(2) l1 l2 g 1 2 3
    by (auto simp: serve_def populate_def l1_ok_Set split: option.splits sum.splits)
qed

text \<open>The invariant of the runs.\<close>

definition q_inv :: "('s, 'c, 'row) q_env \<Rightarrow> 'row list set \<Rightarrow> event_count_request \<Rightarrow> int \<Rightarrow> ('s, 'c) qservice \<Rightarrow> bool" where
  "q_inv env A req now st \<longleftrightarrow> tiers_hold (own env A req) (q_R env) now st
     \<and> (\<exists>H. bh_rel (q_bh st) 0 H) \<and> l1_ok (q_l1 st)"

lemma q_inv_other:
  assumes "q_inv env A req now st" "\<And>i. now \<le> clk i \<and> clk i \<le> now'" "redis_honest (q_R env)"
    and "key \<noteq> count_key (q_sha env) req"
  shows "q_inv env A req now' (snd (snd (serve env clk joined enc dec ttl app key f st)))"
proof -
  obtain r rf st' where s: "serve env clk joined enc dec ttl app key f st = (r, rf, st')"
    by (cases "serve env clk joined enc dec ttl app key f st") auto
  have "q_inv env A req now' st'"
    using assms(1) serve_other_key [OF _ assms(2,3) _ assms(4) s] serve_l1_ok [OF _ s]
    unfolding q_inv_def by blast
  then show ?thesis by (simp add: s)
qed

lemma q_inv_own:
  assumes "q_inv env A req now st" "\<And>i. now \<le> clk i \<and> clk i \<le> now'" "redis_honest (q_R env)"
    and replies: "replies_in env A req"
    and "harmless env A req (OpCount joined req')" "count_key (q_sha env) req' = count_key (q_sha env) req"
    and "EventCount env clk joined req' st = (r, rf, st')"
  shows "q_inv env A req now' st'" "r = Inr a \<Longrightarrow> a \<in> count_result (scan_count env) ` A"
proof -
  obtain sql args where b: "buildEventCountSQL req = (sql, args)" by fastforce
  with assms(5,6) have b': "buildEventCountSQL req' = (sql, args)" by simp
  have k: "cacheKey (q_sha env) sql (Some args) = count_key (q_sha env) req"
    by (simp add: count_key_def sql_key_def b)
  obtain rf' where s: "serve env clk joined encode_count decode_count cacheL2TTL (cr_AppID req')
      (count_key (q_sha env) req) (ch_run env ''event count query'' sql args (count_result (scan_count env))) st
      = (r, rf', st')"
    using assms(7) by (auto simp: EventCount_def b' k split: prod.splits)
  obtain H where h: "tiers_hold (own env A req) (q_R env) now st" "bh_rel (q_bh st) 0 H" "l1_ok (q_l1 st)"
    using assms(1) by (auto simp: q_inv_def)
  have "a \<in> count_result (scan_count env) ` A" if "joined = Some (Inr a)" for a
    using assms(5,6) that by simp
  note s' = serve_own_key [OF h(1) assms(2,3) h(2) b _ this s]
  show "q_inv env A req now' st'" "r = Inr a \<Longrightarrow> a \<in> count_result (scan_count env) ` A"
    using s' serve_l1_ok [OF h(3) s] replies b by (auto simp: q_inv_def replies_in_def)
qed

lemma q_inv_refresh:
  assumes "q_inv env A req now st" "\<And>i. now \<le> clk i \<and> clk i \<le> now'" "redis_honest (q_R env)"
    and replies: "replies_in env A req"
    and "harmless env A req (OpRefresh key sql args)"
  shows "q_inv env A req now' (refreshEventCount env clk key sql args st)"
proof -
  obtain r ch' where q: "q_Query env (q_ch st) sql args = (r, ch')" by fastforce
  have le: "now \<le> now'" "clk 7 \<le> now'" using assms(2) [of 0] assms(2) [of 7] by auto
  have h: "tiers_hold (own env A req) (q_R env) now (st\<lparr>q_ch := ch'\<rparr>)" "l1_ok (q_l1 st)"
    using assms(1) by (simp_all add: q_inv_def tiers_hold_def)
  show ?thesis
  proof (cases r)
    case (Inl e)
    have "tiers_hold (own env A req) (q_R env) now' (st\<lparr>q_ch := ch', q_l1 := l1_Delete key (q_l1 st)\<rparr>)"
      using tiers_hold_later [OF h(1) le(1)] l1.faithful_drop by (auto simp: tiers_hold_def)
    with Inl q assms(1) h(2) show ?thesis
      by (auto simp: q_inv_def refreshEventCount_def l1_ok_Delete)
  next
    case (Inr rows)
    have "own env A req key (encode_count (count_result (scan_count env) rows))"
      using assms(5) q Inr replies by (cases "buildEventCountSQL req") (auto simp: own_def replies_in_def)
    from populate_sound [where enc = encode_count and clk = clk, OF h(1) le refl assms(3) this] Inr q assms(1) h(2) show ?thesis
      by (auto simp: q_inv_def refreshEventCount_def populateCaches_def populate_def l1_ok_Set)
  qed
qed

lemma q_run_inv:
  assumes "q_run env A req now st" "redis_honest (q_R env)"
    and replies: "replies_in env A req"
  shows "q_inv env A req now st"
  using assms(1)
proof induction
  case (start s now ch)
  then show ?case
    by (auto simp: q_inv_def tiers_hold_def own_def NewService_def l1.faithful_def l1_look_def l1_New_def
        l1_ok_def l1_wf_def l1MaxEntries_def intro: bh_rel_New)
next
  case (op now st o' clk now')
  note inv = op.IH op.hyps(3) assms(2)
  note other = q_inv_other [where clk = clk, OF inv]
  show ?case
  proof (cases o')
    case (OpCount j req')
    obtain r rf st' where e: "EventCount env clk j req' st = (r, rf, st')" by (cases "EventCount env clk j req' st") auto
    show ?thesis
    proof (cases "count_key (q_sha env) req' = count_key (q_sha env) req")
      case True
      from q_inv_own(1) [OF inv replies op.hyps(2) [unfolded OpCount] True e] show ?thesis by (simp add: OpCount e)
    next
      case False
      have k: "cacheKey (q_sha env) (fst (buildEventCountSQL req')) (Some (snd (buildEventCountSQL req')))
          \<noteq> count_key (q_sha env) req"
        using False by (simp add: count_key_def sql_key_def)
      from other [OF k] show ?thesis by (simp add: OpCount EventCount_def case_prod_unfold)
    qed
  next
    case (OpFunnel j req')
    have k: "cacheKey (q_sha env) (fst (buildFunnelSQL req')) (Some (snd (buildFunnelSQL req')))
        \<noteq> count_key (q_sha env) req"
      using op.hyps(2) by (simp add: OpFunnel sql_key_def)
    have "q_inv env A req now' st"
      using op.IH tiers_hold_later [of _ _ now st now'] op.hyps(3) [of 0] by (auto simp: q_inv_def)
    then show ?thesis by (simp add: OpFunnel Funnel_def case_prod_unfold other [OF k])
  next
    case (OpDAU j req')
    have k: "cacheKey (q_sha env) (fst (buildDAUSQL req')) (Some (snd (buildDAUSQL req')))
        \<noteq> count_key (q_sha env) req"
      using op.hyps(2) by (simp add: OpDAU sql_key_def)
    show ?thesis
      using other [OF k] by (simp add: OpDAU DAU_def case_prod_unfold)
  next
    case (OpRetention j req')
    have k: "cacheKey (q_sha env) (retention_key_text req') None \<noteq> count_key (q_sha env) req"
      using op.hyps(2) by (simp add: OpRetention)
    show ?thesis
      using other [OF k] by (simp add: OpRetention Retention_def case_prod_unfold)
  next
    case (OpRefresh key sql args)
    from q_inv_refresh [OF inv replies op.hyps(2) [unfolded OpRefresh]] show ?thesis by (simp add: OpRefresh)
  next
    case (OpJanitor t)
    have "now \<le> now'" using op.hyps(3) [of 0] by simp
    then have "tiers_hold (own env A req) (q_R env) now' st" "l1_ok (q_l1 st)" "\<exists>H. bh_rel (q_bh st) 0 H"
      using op.IH by (auto simp: q_inv_def intro: tiers_hold_later)
    with janitor_keeps [where c = "q_l1 st" and t = t] show ?thesis
      by (simp add: OpJanitor q_inv_def tiers_hold_def)
  qed
qed


definition q_example :: "('s, json) redis \<Rightarrow> ('s, nat, int \<times> f64) q_env" where
  "q_example R = \<lparr>q_R = R, q_Query = (\<lambda>n sql args. (Inr [(5, 3)], n + 1)), scan_count = Some,
     scan_level = (\<lambda>_. None), scan_dau = (\<lambda>_. None), scan_cohort = (\<lambda>_. None),
     q_sha = (\<lambda>sql args. [])\<rparr>"

definition q_example_req :: event_count_request where
  "q_example_req = \<lparr>cr_AppID = ''a'', cr_EventName = ''buy'', cr_FromMs = 0, cr_ToMs = 9,
     cr_Granularity = ''day'', cr_GroupBy = [], cr_Filters = []\<rparr>"

lemma q_example_runs:
  "fst (EventCount (q_example mem_redis) (\<lambda>_. 7) None q_example_req (NewService 0 mem_empty))
     = Inr \<lparr>Points = [\<lparr>dp_TimestampMs = 5, dp_Value = 3, dp_Dimensions = []\<rparr>], Total = 3\<rparr>"
  by (simp add: EventCount_def serve_def from_l1_def from_l2_def guarded_def NewService_def q_example_def
      l1_Get_def l1_New_def no_result_def redis_GetJSON_def mem_redis_def mem_get_def mem_empty_def
      bh_Do_def bh_Acquire_def bh_acquire_global_def bh_acquire_tenant_def bh_getOrCreate_def bulkhead_New_def
      breaker_Execute_def breaker_allow_def maybeTransitionToHalfOpen_def breaker_New_def ch_run_def
      count_result_def i64_def go_trunc_def Let_def case_prod_unfold)




section \<open>Funnel counts and rates\<close>

text \<open>The total of the counts of the levels from \<open>l\<close> on.\<close>

definition total_from :: "int \<Rightarrow> (int \<times> int) list \<Rightarrow> int" where
  "total_from l ps = sum_list (map snd (filter (\<lambda>(lvl, cnt). l \<le> lvl) ps))"

definition counts_fit :: "(int \<times> int) list \<Rightarrow> bool" where
  "counts_fit ps \<longleftrightarrow> (\<forall>p \<in> set ps. 0 \<le> snd p) \<and> sum_list (map snd ps) < 2 ^ 63"

definition scanned :: "('row \<Rightarrow> 'b option) \<Rightarrow> 'row list \<Rightarrow> 'b list" where
  "scanned scan rows = List.map_filter scan rows"

lemma scanned_simps [simp]:
  "scanned scan [] = []"
  "scanned scan (row # rows) = (case scan row of None \<Rightarrow> scanned scan rows | Some b \<Rightarrow> b # scanned scan rows)"
  by (simp_all add: scanned_def List.map_filter_simps split: option.splits)

lemma total_from_simps [simp]:
  "total_from l [] = 0"
  "total_from l ((lvl, cnt) # ps) = (if l \<le> lvl then cnt + total_from l ps else total_from l ps)"
  by (simp_all add: total_from_def)

lemma total_from_bounds: "\<forall>p \<in> set ps. 0 \<le> snd p \<Longrightarrow> 0 \<le> total_from l ps \<and> total_from l ps \<le> sum_list (map snd ps)"
  by (induction ps) (auto simp: total_from_def)

lemma total_from_antimono: "\<forall>p \<in> set ps. 0 \<le> snd p \<Longrightarrow> l \<le> l' \<Longrightarrow> total_from l' ps \<le> total_from l ps"
proof (induction ps)
  case (Cons p ps)
  then show ?case by (cases p) auto
qed simp

lemma sum_snd_nonneg: "\<forall>p \<in> set ps. 0 \<le> snd p \<Longrightarrow> 0 \<le> sum_list (map snd ps)"
  for ps :: "(int \<times> int) list"
  by (induction ps) auto

lemma users_at_total:
  assumes "counts_fit ps"
  shows "users_at ps i = total_from (int i + 1) ps"
proof -
  have "\<forall>p \<in> set ps. 0 \<le> snd p \<Longrightarrow> 0 \<le> acc \<Longrightarrow> acc + sum_list (map snd ps) < 2 ^ 63 \<Longrightarrow>
    foldl (\<lambda>userCount (lvl, cnt). if lvl \<ge> int i + 1 then i64 (userCount + cnt) else userCount) acc ps
      = acc + total_from (int i + 1) ps" for acc
  proof (induction ps arbitrary: acc)
    case (Cons p ps)
    obtain lvl cnt where p: "p = (lvl, cnt)" by (cases p)
    have "0 \<le> sum_list (map snd ps)" using Cons.prems(1) by (intro sum_snd_nonneg) simp
    with Cons.prems p have "in_i64 (acc + cnt)" by (simp add: in_i64_def)
    with Cons p show ?case by simp
  qed simp
  from this [of 0] assms show ?thesis by (simp add: users_at_def counts_fit_def)
qed

lemma al_set_absent: "k \<notin> fst ` set m \<Longrightarrow> al_set k v m = m @ [(k, v)]"
  by (induction m) auto

lemma total_from_append [simp]: "total_from l (ps @ qs) = total_from l ps + total_from l qs"
  by (simp add: total_from_def)

lemma total_from_al_set:
  assumes "distinct (al_keys m)"
  shows "total_from l (al_set k ((case map_of m k of None \<Rightarrow> 0 | Some c \<Rightarrow> c) + d) m)
       = total_from l m + (if l \<le> k then d else 0)"
    and "sum_list (map snd (al_set k ((case map_of m k of None \<Rightarrow> 0 | Some c \<Rightarrow> c) + d) m)) = sum_list (map snd m) + d"
  using assms
proof (induction m)
  case (Cons p m)
  obtain k' c where p: "p = (k', c)" by (cases p)
  { case 1 with Cons.IH(1) p show ?case by auto }
  { case 2 with Cons.IH(2) p show ?case by auto }
qed auto

lemma counts_fit_al_set:
  assumes "distinct (al_keys m)" "counts_fit m" "0 \<le> d" "sum_list (map snd m) + d < 2 ^ 63"
  shows "i64 ((case map_of m k of None \<Rightarrow> 0 | Some c \<Rightarrow> c) + d) = (case map_of m k of None \<Rightarrow> 0 | Some c \<Rightarrow> c) + d"
    and "counts_fit (al_set k ((case map_of m k of None \<Rightarrow> 0 | Some c \<Rightarrow> c) + d) m)"
proof -
  let ?c = "case map_of m k of None \<Rightarrow> 0 | Some c \<Rightarrow> c"
  have c0: "0 \<le> ?c" using assms(2) by (fastforce simp: counts_fit_def split: option.splits dest: map_of_SomeD)
  have "\<forall>p \<in> set (al_set k v m). p \<in> set m \<or> p = (k, v)" for v
    by (induction m) (auto split: if_splits)
  with c0 assms(2,3) have nn: "\<forall>p \<in> set (al_set k (?c + d) m). 0 \<le> snd p"
    by (fastforce simp: counts_fit_def)
  then show fit: "counts_fit (al_set k (?c + d) m)"
    using assms(4) total_from_al_set(2) [OF assms(1), of k d] by (simp add: counts_fit_def)
  have "(k, ?c + d) \<in> set (al_set k (?c + d) m)" by (rule al_set_mem)
  then have "?c + d \<le> sum_list (map snd (al_set k (?c + d) m))"
    using nn by (intro member_le_sum_list) (auto intro: rev_image_eqI)
  with assms(3,4) c0 total_from_al_set(2) [OF assms(1), of k d]
  have "in_i64 (?c + d)" by (simp add: in_i64_def)
  then show "i64 (?c + d) = ?c + d" by simp
qed

lemma level_counts_total:
  assumes "distinct (al_keys m)" "counts_fit m" "\<forall>p \<in> set (scanned scan rows). 0 \<le> snd p"
    "sum_list (map snd m) + sum_list (map snd (scanned scan rows)) < 2 ^ 63"
  shows "counts_fit (level_counts scan rows m)
       \<and> total_from l (level_counts scan rows m) = total_from l m + total_from l (scanned scan rows)"
  using assms
proof (induction rows arbitrary: m)
  case (Cons row rows)
  show ?case
  proof (cases "scan row")
    case None
    with Cons show ?thesis by simp
  next
    case (Some p)
    obtain lvl cnt where p: "p = (lvl, cnt)" by (cases p)
    have nn: "0 \<le> cnt" "0 \<le> sum_list (map snd (scanned scan rows))"
      using Cons.prems(3) Some p by (simp_all add: sum_snd_nonneg)
    with Cons.prems(4) Some p have b: "sum_list (map snd m) + cnt < 2 ^ 63" by simp
    note f = counts_fit_al_set [OF Cons.prems(1,2) nn(1) b, of lvl]
    note u = total_from_al_set [OF Cons.prems(1)]
    from Cons.IH [OF distinct_al_set [OF Cons.prems(1)] f(2)] show ?thesis
      using Cons.prems(3,4) Some p by (simp add: f(1) u)
  qed
qed simp

text \<open>The loop over the rates, for counts that do not increase.\<close>

definition rates_ok :: "(nat \<Rightarrow> int) \<Rightarrow> nat \<Rightarrow> funnel_step list \<Rightarrow> bool" where
  "rates_ok c n steps \<longleftrightarrow> length steps = n \<and> (\<forall>j < n. UserCount (steps ! j) = c j
     \<and> 0 \<le> ConversionRate (steps ! j) \<and> ConversionRate (steps ! j) \<le> 1
     \<and> 0 \<le> DropOffRate (steps ! j) \<and> DropOffRate (steps ! j) \<le> 1)"

lemma share_bounds: "0 \<le> a \<Longrightarrow> a \<le> b \<Longrightarrow> 0 < b \<Longrightarrow>
    (0 :: f64) \<le> of_int a / of_int b \<and> (of_int a / of_int b :: f64) \<le> 1"
  by (simp add: divide_le_eq)

lemma rate_turn_ok:
  assumes "rates_ok c n steps" "i < n" "\<And>j. 0 \<le> c j" "\<And>j k. j \<le> k \<Longrightarrow> c k \<le> c j"
  shows "rates_ok c n (rate_turn steps i)"
proof (cases "i = 0")
  case True
  with assms(1,2) show ?thesis
    by (auto simp: rates_ok_def rate_turn_def nth_list_update)
next
  case False
  have u: "UserCount (steps ! 0) = c 0" "UserCount (steps ! i) = c i" "UserCount (steps ! (i - 1)) = c (i - 1)"
    using assms(1,2) by (simp_all add: rates_ok_def)
  show ?thesis
  proof (cases "c (i - 1) > 0")
    case True
    then have "0 < c 0" using assms(4) [of 0 "i - 1"] by simp
    note s = share_bounds [OF assms(3) [of i] assms(4) [of 0 i] this]
      share_bounds [OF assms(3) [of i] assms(4) [of "i - 1" i] True]
    with assms(1,2) False True show ?thesis
      by (auto simp: rates_ok_def rate_turn_def nth_list_update u)
  next
    case cf: False
    with assms(1) False u show ?thesis by (simp add: rate_turn_def)
  qed
qed

lemma rate_loop_ok:
  assumes "rates_ok c n steps" "\<And>j. 0 \<le> c j" "\<And>j k. j \<le> k \<Longrightarrow> c k \<le> c j" "k \<le> n"
  shows "rates_ok c n (foldl rate_turn steps [0..<k])"
  using assms(4) by (induction k) (simp_all add: assms(1) rate_turn_ok [OF _ _ assms(2,3)])

text \<open>C35: when the counts are not negative and their sum fits an \<open>int64\<close>, step \<open>i\<close> of a
  funnel has the total count of the rows of level at least \<open>i + 1\<close>, so the counts never
  increase from step to step, and every conversion and drop-off rate is between 0
  and 1.\<close>

theorem funnel_counts_and_rates:
  assumes "counts_fit (scanned scan rows)" and "i < length names"
  shows "UserCount (funnel_steps names (level_counts scan rows []) ! i) = total_from (int i + 1) (scanned scan rows)
    \<and> 0 \<le> ConversionRate (funnel_steps names (level_counts scan rows []) ! i)
    \<and> ConversionRate (funnel_steps names (level_counts scan rows []) ! i) \<le> 1
    \<and> 0 \<le> DropOffRate (funnel_steps names (level_counts scan rows []) ! i)
    \<and> DropOffRate (funnel_steps names (level_counts scan rows []) ! i) \<le> 1
    \<and> total_from (int i + 2) (scanned scan rows) \<le> total_from (int i + 1) (scanned scan rows)"
proof -
  let ?m = "level_counts scan rows []" and ?c = "\<lambda>j. total_from (int j + 1) (scanned scan rows)"
  have nn: "\<forall>p \<in> set (scanned scan rows). 0 \<le> snd p" using assms(1) by (simp add: counts_fit_def)
  have m: "counts_fit ?m \<and> total_from l ?m = total_from l [] + total_from l (scanned scan rows)" for l
    by (rule level_counts_total) (use assms(1) in \<open>simp_all add: counts_fit_def\<close>)
  have u: "users_at ?m j = ?c j" for j
    using m users_at_total [of ?m j] by simp
  have "rates_ok ?c (length names) (funnel_steps names ?m)"
    unfolding funnel_steps_def
    by (rule rate_loop_ok)
      (auto simp: rates_ok_def u nth_enumerate_eq total_from_bounds [OF nn] intro!: total_from_antimono [OF nn])
  then show ?thesis
    using assms(2) total_from_antimono [OF nn, of "int i + 1" "int i + 2"] by (simp add: rates_ok_def)
qed

theorem funnel_counts_and_rates_witness:
  "UserCount (funnel_steps [''a'', ''b''] (level_counts Some [(2, 3), (1, 4), (2, 1)] []) ! 1) = 4"
  using funnel_counts_and_rates [of Some "[(2, 3), (1, 4), (2, 1)]" 1 "[''a'', ''b'']"]
  by (simp add: counts_fit_def)

text \<open>The days a retention request asks for are not used.\<close>

lemma retention_ignores_days: "Retention env clk j (req\<lparr>rr_DayNs := d\<rparr>) st = Retention env clk j req st"
  by (simp add: Retention_def retention_sql_def retention_key_text_def)

text \<open>A stale entry is served without touching Redis or ClickHouse, and the refresh that it
  starts skips the bulkhead and the breaker.\<close>

lemma refresh_unguarded:
  "q_bh (refreshEventCount env clk key sql args st) = q_bh st
   \<and> q_breaker (refreshEventCount env clk key sql args st) = q_breaker st"
  by (auto simp: refreshEventCount_def populateCaches_def populate_def split: prod.splits sum.splits)

end
