(* ===== verification/Analytics.thy ===== *)
theory Analytics
  imports Query
begin

text \<open>
  \<open>internal/querying/analytics.go\<close>: the uncached analytics queries of the service.  Each
  is the SQL with its positional arguments, and the result computed from the rows.  The
  ClickHouse connection and the conversion of its rows are the parameter \<open>an_env\<close>; times
  are Unix milliseconds, dates are in UTC.
\<close>

record ('c, 'row) an_env =
  an_Query :: "'c \<Rightarrow> string \<Rightarrow> sql_arg list \<Rightarrow> (go_error + 'row list) \<times> 'c"
  an_QueryRow :: "'c \<Rightarrow> string \<Rightarrow> sql_arg list \<Rightarrow> 'row \<times> 'c"
  sc_path :: "'row \<Rightarrow> (string \<times> int) option"
  sc_revenue :: "'row \<Rightarrow> (int \<times> f64 \<times> int \<times> int) option"
  sc_ltv :: "'row \<Rightarrow> (int \<times> int \<times> int \<times> f64) option"
  sc_profile :: "'row \<Rightarrow> (int \<times> int \<times> int \<times> int \<times> f64 \<times> string \<times> string) option"
  sc_freq :: "'row \<Rightarrow> string \<times> int"
  sc_event :: "'row \<Rightarrow> (string \<times> int \<times> string \<times> string \<times> (string \<times> string) list) option"
  sc_attr :: "'row \<Rightarrow> (int \<times> string \<times> string \<times> string \<times> int \<times> int \<times> f64) option"
  sc_variant :: "'row \<Rightarrow> (string \<times> int \<times> int \<times> f64) option"
  sc_breakdown :: "'row \<Rightarrow> (int \<times> string \<times> int \<times> int) option"
  sc_realtime :: "'row \<Rightarrow> (int \<times> int) option"
  sc_count :: "'row \<Rightarrow> int option"

text \<open>\<open>time.RFC3339\<close>, to the second.\<close>

definition rfc3339_sec :: "int \<Rightarrow> string" where
  "rfc3339_sec ms = format_rfc3339 (ms div 1000 * 1000)"

text \<open>The rows whose \<open>Scan\<close> succeeds, in order: the others are skipped.\<close>

definition scan_rows :: "('row \<Rightarrow> 'b option) \<Rightarrow> 'row list \<Rightarrow> 'b list" where
  "scan_rows scan rows = List.map_filter scan rows"

definition percent :: "int \<Rightarrow> int \<Rightarrow> f64" where
  "percent n d = (if d > 0 then 100 * of_int n / of_int d else 0)"

section \<open>Paths\<close>

record filter_spec =
  fl_Property :: string
  fl_Operator :: string
  fl_Value :: string

record path_request =
  pq_AppID :: string
  pq_StartEvent :: string
  pq_EndEvent :: string
  pq_MaxSteps :: int
  pq_TopN :: int
  pq_FromMs :: int
  pq_ToMs :: int
  pq_Filters :: "filter_spec list"

record path_node =
  pn_EventName :: string
  pn_Count :: int
  pn_Percentage :: f64
  pn_DropOff :: f64

record path_response =
  ps_RootEvent :: string
  ps_TotalUsers :: int
  ps_Paths :: "path_node list list"

definition path_defaults :: "path_request \<Rightarrow> path_request" where
  "path_defaults req = req\<lparr>
     pq_MaxSteps := (if pq_MaxSteps req = 0 then 5 else pq_MaxSteps req),
     pq_TopN := (if pq_TopN req = 0 then 10 else pq_TopN req),
     pq_StartEvent := (if pq_StartEvent req = [] then ''session_start'' else pq_StartEvent req)\<rparr>"

definition paths_sql :: "path_request \<Rightarrow> string \<times> sql_arg list" where
  "paths_sql req =
     (sql_line 2 ''WITH sessions AS (''
      @ sql_line 3 ''SELECT''
      @ sql_line 4 ''session_id,''
      @ sql_line 4 ''groupArray(event_name) AS path''
      @ sql_line 3 ''FROM (''
      @ sql_line 4 ''SELECT session_id, event_name, event_time''
      @ sql_line 4 ''FROM events''
      @ sql_line 4 ''WHERE app_id = ?''
      @ sql_line 4 ''  AND event_time BETWEEN ? AND ?''
      @ sql_line 4 ''  AND session_id IN (''
      @ sql_line 5 ''SELECT DISTINCT session_id FROM events''
      @ sql_line 5 ''WHERE app_id = ? AND event_name = ?''
      @ sql_line 5 ''  AND event_time BETWEEN ? AND ?''
      @ sql_line 4 ''  )''
      @ sql_line 4 ''ORDER BY session_id, event_time''
      @ sql_line 4 ''LIMIT 10000000''
      @ sql_line 3 '')''
      @ sql_line 3 ''GROUP BY session_id''
      @ sql_line 2 ''),''
      @ sql_line 2 ''trimmed AS (''
      @ sql_line 3 ''SELECT arraySlice(''
      @ sql_line 4 (''arraySlice(path, indexOf(path, ?) , '' @ itoa (pq_MaxSteps req) @ ''),'')
      @ sql_line 4 (''1, '' @ itoa (pq_MaxSteps req))
      @ sql_line 3 '') AS path_steps''
      @ sql_line 3 ''FROM sessions''
      @ sql_line 3 ''WHERE has(path, ?)''
      @ sql_line 2 '')''
      @ sql_line 2 ''SELECT''
      @ sql_line 3 (''arrayStringConcat(path_steps, '' @ quoted '' -> '' @ '') AS path_str,'')
      @ sql_line 3 ''count() AS cnt''
      @ sql_line 2 ''FROM trimmed''
      @ sql_line 2 ''WHERE length(path_steps) > 0''
      @ sql_line 2 ''GROUP BY path_str''
      @ sql_line 2 ''ORDER BY cnt DESC''
      @ sql_line 2 ''LIMIT ?''
      @ sql_line 1 [],
      [AStr (pq_AppID req), ATime (pq_FromMs req), ATime (pq_ToMs req), AStr (pq_AppID req),
       AStr (pq_StartEvent req), ATime (pq_FromMs req), ATime (pq_ToMs req), AStr (pq_StartEvent req),
       AStr (pq_StartEvent req), AInt (pq_TopN req)])"

text \<open>\<open>splitPath\<close>: the loop over \<open>i\<close> with the start of the current part.  A separator
  that overlaps the one before makes the slice bounds cross, which panics: \<open>None\<close>.\<close>

definition arrow :: string where "arrow = '' -> ''"

function split_loop :: "string \<Rightarrow> nat \<Rightarrow> nat \<Rightarrow> string list \<Rightarrow> string list option" where
  "split_loop path start i parts =
     (if i + 3 < length path then
        if take 4 (drop i path) = arrow then
          if start \<le> i then split_loop path (i + 4) (i + 1) (parts @ [take (i - start) (drop start path)])
          else None
        else split_loop path start (i + 1) parts
      else Some (parts @ [drop start path]))"
  by pat_completeness auto
termination by (relation "measure (\<lambda>(path, start, i, parts). length path - i)") auto

declare split_loop.simps [simp del]

definition splitPath :: "string \<Rightarrow> string list option" where
  "splitPath path = split_loop path 0 0 []"

definition path_nodes :: "int \<Rightarrow> int \<Rightarrow> string list \<Rightarrow> path_node list" where
  "path_nodes totalUsers cnt parts =
     map (\<lambda>(i, p). \<lparr>pn_EventName = p, pn_Count = cnt, pn_Percentage = percent cnt totalUsers,
        pn_DropOff = (if i + 1 < length parts then percent cnt totalUsers else 0)\<rparr>) (enumerate 0 parts)"

text \<open>\<open>None\<close> is the panic of \<open>splitPath\<close>.\<close>

definition path_result :: "string \<Rightarrow> (string \<times> int) list \<Rightarrow> path_response option" where
  "path_result startEvent pathStrings =
     (let totalUsers = foldl (\<lambda>n (_, cnt). i64 (n + cnt)) 0 pathStrings in
      map_option (\<lambda>ps. \<lparr>ps_RootEvent = startEvent, ps_TotalUsers = totalUsers, ps_Paths = ps\<rparr>)
        (those (map (\<lambda>(p, cnt). map_option (path_nodes totalUsers cnt) (splitPath p)) pathStrings)))"

definition Paths ::
  "('c, 'row) an_env \<Rightarrow> path_request \<Rightarrow> 'c \<Rightarrow> (go_error + path_response) option \<times> 'c" where
  "Paths env req0 ch =
     (let req = path_defaults req0; (sql, args) = paths_sql req in
      (case an_Query env ch sql args of
         (Inl _, ch') \<Rightarrow> (Some (Inl (Errorf ''paths query'')), ch')
       | (Inr rows, ch') \<Rightarrow>
           (map_option Inr (path_result (pq_StartEvent req) (scan_rows (sc_path env) rows)), ch')))"

section \<open>Revenue\<close>

record revenue_request =
  rv_AppID :: string
  rv_FromMs :: int
  rv_ToMs :: int
  rv_Granularity :: string
  rv_RevenueEvent :: string
  rv_RevenueProp :: string
  rv_CurrencyProp :: string

record revenue_point =
  rp_Bucket :: string
  rp_TotalRevenue :: f64
  rp_TxCount :: int
  rp_UniquePayors :: int
  rp_ARPU :: f64
  rp_ARPPU :: f64

record revenue_response =
  rs_AppID :: string
  rs_Currency :: string
  rs_TotalLTV :: f64
  rs_Points :: "revenue_point list"

definition revenue_defaults :: "revenue_request \<Rightarrow> revenue_request" where
  "revenue_defaults req = req\<lparr>
     rv_RevenueEvent := (if rv_RevenueEvent req = [] then ''purchase'' else rv_RevenueEvent req),
     rv_RevenueProp := (if rv_RevenueProp req = [] then ''revenue'' else rv_RevenueProp req),
     rv_Granularity := (if rv_Granularity req = [] then ''day'' else rv_Granularity req)\<rparr>"

definition revenue_sql :: "revenue_request \<Rightarrow> string \<times> sql_arg list" where
  "revenue_sql req =
     (sql_line 2 ''SELECT''
      @ sql_line 3 (granularityFn (rv_Granularity req) @ ''(event_time) AS bucket,'')
      @ sql_line 3 (''sumIf(toFloat64OrZero(props['' @ quoted (rv_RevenueProp req) @ '']), event_name = ?) AS total_revenue,'')
      @ sql_line 3 ''countIf(event_name = ?) AS tx_count,''
      @ sql_line 3 ''uniqIf(user_id, event_name = ?) AS unique_payors''
      @ sql_line 2 ''FROM events''
      @ sql_line 2 ''WHERE app_id = ?''
      @ sql_line 2 ''  AND event_time BETWEEN ? AND ?''
      @ sql_line 2 ''GROUP BY bucket''
      @ sql_line 2 ''ORDER BY bucket''
      @ sql_line 1 [],
      [AStr (rv_RevenueEvent req), AStr (rv_RevenueEvent req), AStr (rv_RevenueEvent req),
       AStr (rv_AppID req), ATime (rv_FromMs req), ATime (rv_ToMs req)])"

definition revenue_point_of :: "int \<times> f64 \<times> int \<times> int \<Rightarrow> revenue_point" where
  "revenue_point_of row = (case row of (bucket, totalRev, txCount, uniquePayors) \<Rightarrow>
     \<lparr>rp_Bucket = format_date bucket, rp_TotalRevenue = totalRev, rp_TxCount = txCount,
      rp_UniquePayors = uniquePayors, rp_ARPU = 0,
      rp_ARPPU = (if uniquePayors > 0 then totalRev / of_int uniquePayors else 0)\<rparr>)"

definition Revenue ::
  "('c, 'row) an_env \<Rightarrow> revenue_request \<Rightarrow> 'c \<Rightarrow> (go_error + revenue_response) \<times> 'c" where
  "Revenue env req0 ch =
     (let req = revenue_defaults req0; (sql, args) = revenue_sql req in
      (case an_Query env ch sql args of
         (Inl _, ch') \<Rightarrow> (Inl (Errorf ''revenue query''), ch')
       | (Inr rows, ch') \<Rightarrow>
           (let points = map revenue_point_of (scan_rows (sc_revenue env) rows) in
            (Inr \<lparr>rs_AppID = rv_AppID req, rs_Currency = ''USD'',
                  rs_TotalLTV = foldl (\<lambda>a p. a + rp_TotalRevenue p) 0 points, rs_Points = points\<rparr>, ch'))))"

section \<open>Lifetime value\<close>

record ltv_request =
  lt_AppID :: string
  lt_FromMs :: int
  lt_ToMs :: int
  lt_Days :: "int list"
  lt_RevenueEvent :: string
  lt_RevenueProp :: string

record ltv_point =
  lp_CohortDate :: string
  lp_Users :: int
  lp_LTVByDay :: "(string \<times> f64) list"

definition ltv_defaults :: "ltv_request \<Rightarrow> ltv_request" where
  "ltv_defaults req = req\<lparr>
     lt_RevenueEvent := (if lt_RevenueEvent req = [] then ''purchase'' else lt_RevenueEvent req),
     lt_RevenueProp := (if lt_RevenueProp req = [] then ''revenue'' else lt_RevenueProp req),
     lt_Days := (if lt_Days req = [] then [1, 7, 14, 30, 60, 90] else lt_Days req)\<rparr>"

definition ltv_sql :: "ltv_request \<Rightarrow> string \<times> sql_arg list" where
  "ltv_sql req =
     (sql_line 2 ''WITH installs AS (''
      @ sql_line 3 ''SELECT user_id, min(event_time) AS install_date''
      @ sql_line 3 ''FROM events''
      @ sql_line 3 (''WHERE app_id = ? AND event_name IN ('' @ quoted ''app_install'' @ '', '' @ quoted ''first_open'' @ '', '' @ quoted ''session_start'' @ '')'')
      @ sql_line 3 ''  AND event_time BETWEEN ? AND ?''
      @ sql_line 3 ''GROUP BY user_id''
      @ sql_line 2 ''),''
      @ sql_line 2 ''revenue AS (''
      @ sql_line 3 (''SELECT user_id, event_time, toFloat64OrZero(props['' @ quoted (lt_RevenueProp req) @ '']) AS amount'')
      @ sql_line 3 ''FROM events''
      @ sql_line 3 ''WHERE app_id = ? AND event_name = ?''
      @ sql_line 3 ''  AND event_time BETWEEN ? AND ?''
      @ sql_line 2 '')''
      @ sql_line 2 ''SELECT''
      @ sql_line 3 ''toDate(i.install_date) AS cohort_date,''
      @ sql_line 3 ''count(DISTINCT i.user_id) AS cohort_users,''
      @ sql_line 3 (''dateDiff('' @ quoted ''day'' @ '', i.install_date, r.event_time) AS day_n,'')
      @ sql_line 3 ''avg(r.amount) AS avg_ltv''
      @ sql_line 2 ''FROM installs i''
      @ sql_line 2 ''JOIN revenue r ON i.user_id = r.user_id''
      @ sql_line 2 ''GROUP BY cohort_date, day_n''
      @ sql_line 2 ''ORDER BY cohort_date, day_n''
      @ sql_line 1 [],
      [AStr (lt_AppID req), ATime (lt_FromMs req), ATime (lt_ToMs req), AStr (lt_AppID req),
       AStr (lt_RevenueEvent req), ATime (lt_FromMs req), ATime (lt_ToMs req)])"

definition ltv_row :: "(string \<times> ltv_point) list \<Rightarrow> int \<times> int \<times> int \<times> f64 \<Rightarrow> (string \<times> ltv_point) list" where
  "ltv_row m row = (case row of (cohortDate, cohortUsers, dayN, avgLTV) \<Rightarrow>
     (let key = format_date cohortDate;
          p = (case map_of m key of Some p \<Rightarrow> p
               | None \<Rightarrow> \<lparr>lp_CohortDate = key, lp_Users = cohortUsers, lp_LTVByDay = []\<rparr>)
      in al_set key (p\<lparr>lp_LTVByDay := al_set (''day_'' @ itoa dayN) avgLTV (lp_LTVByDay p)\<rparr>) m))"

text \<open>\<open>iter\<close> is the order in which Go iterates over the map.\<close>

definition LTVCohort ::
  "('c, 'row) an_env \<Rightarrow> (ltv_point list \<Rightarrow> ltv_point list) \<Rightarrow> ltv_request \<Rightarrow> 'c \<Rightarrow> (go_error + ltv_point list) \<times> 'c" where
  "LTVCohort env iter req0 ch =
     (let req = ltv_defaults req0; (sql, args) = ltv_sql req in
      (case an_Query env ch sql args of
         (Inl _, ch') \<Rightarrow> (Inl (Errorf ''ltv cohort query''), ch')
       | (Inr rows, ch') \<Rightarrow>
           (Inr (iter (map snd (foldl ltv_row [] (scan_rows (sc_ltv env) rows)))), ch')))"

section \<open>Users\<close>

record event_freq =
  ef_EventName :: string
  ef_Count :: int

record user_profile =
  up_AppID :: string
  up_UserID :: string
  up_FirstSeen :: string
  up_LastSeen :: string
  up_TotalEvents :: int
  up_TotalSessions :: int
  up_TotalRevenue :: f64
  up_Country :: string
  up_City :: string
  up_Properties :: "(string \<times> string) list"
  up_TopEvents :: "event_freq list"

definition profile_sql :: string where
  "profile_sql =
     sql_line 2 ''SELECT''
      @ sql_line 3 ''min(event_time) AS first_seen,''
      @ sql_line 3 ''max(event_time) AS last_seen,''
      @ sql_line 3 ''count() AS total_events,''
      @ sql_line 3 ''uniq(session_id) AS total_sessions,''
      @ sql_line 3 (''sumIf(toFloat64OrZero(props['' @ quoted ''revenue'' @ '']), event_name = '' @ quoted ''purchase'' @ '') AS total_revenue,'')
      @ sql_line 3 ''anyLast(geo_country) AS country,''
      @ sql_line 3 ''anyLast(geo_city) AS city''
      @ sql_line 2 ''FROM events''
      @ sql_line 2 ''WHERE app_id = ? AND user_id = ?''
      @ sql_line 1 []"

definition profile_top_sql :: string where
  "profile_top_sql =
     sql_line 2 ''SELECT event_name, count() AS cnt''
      @ sql_line 2 ''FROM events''
      @ sql_line 2 ''WHERE app_id = ? AND user_id = ?''
      @ sql_line 2 ''GROUP BY event_name''
      @ sql_line 2 ''ORDER BY cnt DESC''
      @ sql_line 2 ''LIMIT 10''
      @ sql_line 1 []"

definition top_events :: "('c, 'row) an_env \<Rightarrow> string \<Rightarrow> sql_arg list \<Rightarrow> 'c \<Rightarrow> event_freq list \<times> 'c" where
  "top_events env sql args ch =
     (case an_Query env ch sql args of
        (Inl _, ch') \<Rightarrow> ([], ch')
      | (Inr rows, ch') \<Rightarrow>
          (map (\<lambda>row. \<lparr>ef_EventName = fst (sc_freq env row), ef_Count = snd (sc_freq env row)\<rparr>) rows, ch'))"

definition UserProfile ::
  "('c, 'row) an_env \<Rightarrow> string \<Rightarrow> string \<Rightarrow> 'c \<Rightarrow> (go_error + user_profile) \<times> 'c" where
  "UserProfile env appID userID ch =
     (let args = [AStr appID, AStr userID]; (row, ch1) = an_QueryRow env ch profile_sql args in
      (case sc_profile env row of
         None \<Rightarrow> (Inl (Errorf ''user profile''), ch1)
       | Some (firstSeen, lastSeen, events, sessions, revenue, country, city) \<Rightarrow>
           (let (top, ch2) = top_events env profile_top_sql args ch1 in
            (Inr \<lparr>up_AppID = appID, up_UserID = userID, up_FirstSeen = rfc3339_sec firstSeen,
                  up_LastSeen = rfc3339_sec lastSeen, up_TotalEvents = events, up_TotalSessions = sessions,
                  up_TotalRevenue = revenue, up_Country = country, up_City = city, up_Properties = [],
                  up_TopEvents = top\<rparr>, ch2))))"

record user_event =
  ue_EventName :: string
  ue_EventTime :: string
  ue_SessionID :: string
  ue_Country :: string
  ue_Props :: "(string \<times> string) list"

definition timeline_limit :: "int \<Rightarrow> int" where
  "timeline_limit n = (if n = 0 \<or> n > 500 then 500 else n)"

definition timeline_sql :: "string \<Rightarrow> string \<Rightarrow> int \<Rightarrow> int \<Rightarrow> int \<Rightarrow> string \<times> sql_arg list" where
  "timeline_sql appID userID fromMs toMs n =
     (sql_line 2 ''SELECT event_name, event_time, session_id, geo_country, props''
      @ sql_line 2 ''FROM events''
      @ sql_line 2 ''WHERE app_id = ? AND user_id = ?''
      @ sql_line 2 ''  AND event_time BETWEEN ? AND ?''
      @ sql_line 2 ''ORDER BY event_time DESC''
      @ sql_line 2 ''LIMIT ?''
      @ sql_line 1 [],
      [AStr appID, AStr userID, ATime fromMs, ATime toMs, AInt (timeline_limit n)])"

definition UserTimeline ::
  "('c, 'row) an_env \<Rightarrow> string \<Rightarrow> string \<Rightarrow> int \<Rightarrow> int \<Rightarrow> int \<Rightarrow> 'c \<Rightarrow> (go_error + user_event list) \<times> 'c" where
  "UserTimeline env appID userID fromMs toMs n ch =
     (let (sql, args) = timeline_sql appID userID fromMs toMs n in
      (case an_Query env ch sql args of
         (Inl _, ch') \<Rightarrow> (Inl (Errorf ''user timeline''), ch')
       | (Inr rows, ch') \<Rightarrow>
           (Inr (map (\<lambda>(name, ts, session, country, props).
              \<lparr>ue_EventName = name, ue_EventTime = rfc3339_sec ts, ue_SessionID = session, ue_Country = country,
               ue_Props = props\<rparr>) (scan_rows (sc_event env) rows)), ch')))"

section \<open>Attribution\<close>

record attribution_request =
  at_AppID :: string
  at_FromMs :: int
  at_ToMs :: int
  at_Model :: string
  at_Granularity :: string

record attribution_point =
  ap_Bucket :: string
  ap_Source :: string
  ap_Medium :: string
  ap_Campaign :: string
  ap_Users :: int
  ap_Conversions :: int
  ap_Revenue :: f64
  ap_ConversionPct :: f64

definition attribution_sql :: "attribution_request \<Rightarrow> string \<times> sql_arg list" where
  "attribution_sql req =
     (sql_line 2 ''WITH first_touch AS (''
      @ sql_line 3 ''SELECT''
      @ sql_line 4 ''user_id,''
      @ sql_line 4 (''argMin(props['' @ quoted ''utm_source'' @ ''], event_time) AS source,'')
      @ sql_line 4 (''argMin(props['' @ quoted ''utm_medium'' @ ''], event_time) AS medium,'')
      @ sql_line 4 (''argMin(props['' @ quoted ''utm_campaign'' @ ''], event_time) AS campaign,'')
      @ sql_line 4 ''min(event_time) AS first_event''
      @ sql_line 3 ''FROM events''
      @ sql_line 3 ''WHERE app_id = ?''
      @ sql_line 3 ''  AND event_time BETWEEN ? AND ?''
      @ sql_line 3 (''  AND notEmpty(props['' @ quoted ''utm_source'' @ ''])'')
      @ sql_line 3 ''GROUP BY user_id''
      @ sql_line 2 '')''
      @ sql_line 2 ''SELECT''
      @ sql_line 3 (granularityFn (at_Granularity req) @ ''(ft.first_event) AS bucket,'')
      @ sql_line 3 ''ft.source,''
      @ sql_line 3 ''ft.medium,''
      @ sql_line 3 ''ft.campaign,''
      @ sql_line 3 ''count(DISTINCT ft.user_id) AS users,''
      @ sql_line 3 (''countIf(e.event_name = '' @ quoted ''purchase'' @ '') AS conversions,'')
      @ sql_line 3 (''sumIf(toFloat64OrZero(e.props['' @ quoted ''revenue'' @ '']), e.event_name = '' @ quoted ''purchase'' @ '') AS revenue'')
      @ sql_line 2 ''FROM first_touch ft''
      @ sql_line 2 ''JOIN events e ON ft.user_id = e.user_id AND e.app_id = ?''
      @ sql_line 2 ''WHERE e.event_time BETWEEN ? AND ?''
      @ sql_line 2 ''GROUP BY bucket, ft.source, ft.medium, ft.campaign''
      @ sql_line 2 ''ORDER BY bucket, users DESC''
      @ sql_line 1 [],
      [AStr (at_AppID req), ATime (at_FromMs req), ATime (at_ToMs req), AStr (at_AppID req),
       ATime (at_FromMs req), ATime (at_ToMs req)])"

definition Attribution ::
  "('c, 'row) an_env \<Rightarrow> attribution_request \<Rightarrow> 'c \<Rightarrow> (go_error + attribution_point list) \<times> 'c" where
  "Attribution env req0 ch =
     (let req = req0\<lparr>at_Granularity := (if at_Granularity req0 = [] then ''day'' else at_Granularity req0)\<rparr>;
          (sql, args) = attribution_sql req in
      (case an_Query env ch sql args of
         (Inl _, ch') \<Rightarrow> (Inl (Errorf ''attribution query''), ch')
       | (Inr rows, ch') \<Rightarrow>
           (Inr (map (\<lambda>(bucket, source, medium, campaign, users, conversions, revenue).
              \<lparr>ap_Bucket = format_date bucket, ap_Source = source, ap_Medium = medium, ap_Campaign = campaign,
               ap_Users = users, ap_Conversions = conversions, ap_Revenue = revenue,
               ap_ConversionPct = percent conversions users\<rparr>) (scan_rows (sc_attr env) rows)), ch')))"

section \<open>Experiments\<close>

record variant_result =
  vr_Variant :: string
  vr_Users :: int
  vr_Conversions :: int
  vr_ConversionPct :: f64
  vr_Revenue :: f64
  vr_LiftPct :: f64
  vr_PValue :: f64

record experiment_result =
  er_ExperimentID :: string
  er_Metric :: string
  er_Variants :: "variant_result list"

definition experiment_sql :: "string \<Rightarrow> string \<Rightarrow> string \<Rightarrow> int \<Rightarrow> int \<Rightarrow> string \<times> sql_arg list" where
  "experiment_sql experimentID appID goalEvent fromMs toMs =
     (sql_line 2 ''SELECT''
      @ sql_line 3 ''a.variant,''
      @ sql_line 3 ''count(DISTINCT a.user_id) AS users,''
      @ sql_line 3 ''countIf(e.event_name = ?) AS conversions,''
      @ sql_line 3 (''sumIf(toFloat64OrZero(e.props['' @ quoted ''revenue'' @ '']), e.event_name = '' @ quoted ''purchase'' @ '') AS revenue'')
      @ sql_line 2 ''FROM experiment_assignments a''
      @ sql_line 2 ''LEFT JOIN events e''
      @ sql_line 3 ''ON a.user_id = e.user_id''
      @ sql_line 3 ''AND e.app_id = ?''
      @ sql_line 3 ''AND e.event_time BETWEEN ? AND ?''
      @ sql_line 2 ''WHERE a.experiment_id = ?''
      @ sql_line 2 ''GROUP BY a.variant''
      @ sql_line 2 ''ORDER BY a.variant''
      @ sql_line 1 [],
      [AStr goalEvent, AStr appID, ATime fromMs, ATime toMs, AStr experimentID])"

text \<open>The loop over the rows: the variants and the conversion rate of the last control row.\<close>

definition variant_of :: "string \<times> int \<times> int \<times> f64 \<Rightarrow> variant_result" where
  "variant_of row = (case row of (name, users, conversions, revenue) \<Rightarrow>
     \<lparr>vr_Variant = name, vr_Users = users, vr_Conversions = conversions,
      vr_ConversionPct = percent conversions users, vr_Revenue = revenue, vr_LiftPct = 0, vr_PValue = 0\<rparr>)"

definition control_pct :: "variant_result list \<Rightarrow> f64" where
  "control_pct vs = foldl (\<lambda>c v. if vr_Variant v = ''control'' then vr_ConversionPct v else c) 0 vs"

definition with_lift :: "f64 \<Rightarrow> variant_result \<Rightarrow> variant_result" where
  "with_lift c v =
     (if vr_Variant v \<noteq> ''control'' \<and> c > 0 then v\<lparr>vr_LiftPct := (vr_ConversionPct v - c) / c * 100\<rparr> else v)"

definition experiment_variants :: "(string \<times> int \<times> int \<times> f64) list \<Rightarrow> variant_result list" where
  "experiment_variants rows =
     (let vs = map variant_of rows in map (with_lift (control_pct vs)) vs)"

definition ExperimentResults ::
  "('c, 'row) an_env \<Rightarrow> string \<Rightarrow> string \<Rightarrow> string \<Rightarrow> int \<Rightarrow> int \<Rightarrow> 'c \<Rightarrow> (go_error + experiment_result) \<times> 'c" where
  "ExperimentResults env experimentID appID goalEvent fromMs toMs ch =
     (let (sql, args) = experiment_sql experimentID appID goalEvent fromMs toMs in
      (case an_Query env ch sql args of
         (Inl _, ch') \<Rightarrow> (Inl (Errorf ''experiment results''), ch')
       | (Inr rows, ch') \<Rightarrow>
           (Inr \<lparr>er_ExperimentID = experimentID, er_Metric = goalEvent,
                 er_Variants = experiment_variants (scan_rows (sc_variant env) rows)\<rparr>, ch')))"

section \<open>Breakdown\<close>

record breakdown_request =
  bq_AppID :: string
  bq_EventName :: string
  bq_Property :: string
  bq_FromMs :: int
  bq_ToMs :: int
  bq_Granularity :: string
  bq_TopN :: int

record breakdown_point =
  bp_Bucket :: string
  bp_PropertyValue :: string
  bp_Count :: int
  bp_UniqueUsers :: int
  bp_Percentage :: f64

definition breakdown_defaults :: "breakdown_request \<Rightarrow> breakdown_request" where
  "breakdown_defaults req = req\<lparr>
     bq_TopN := (if bq_TopN req = 0 then 20 else bq_TopN req),
     bq_Granularity := (if bq_Granularity req = [] then ''day'' else bq_Granularity req)\<rparr>"

definition prop_expr :: "string \<Rightarrow> string" where
  "prop_expr prop =
     (if prop = ''country'' then ''geo_country'' else if prop = ''city'' then ''geo_city''
      else if prop = ''device_type'' \<or> prop = ''os'' then ''ua_'' @ prop
      else ''props['' @ quoted prop @ '']'')"

definition breakdown_sql :: "breakdown_request \<Rightarrow> string \<times> sql_arg list" where
  "breakdown_sql req =
     (sql_line 2 ''WITH top_vals AS (''
      @ sql_line 3 (''SELECT '' @ prop_expr (bq_Property req) @ '' AS prop_val, count() AS cnt'')
      @ sql_line 3 ''FROM events''
      @ sql_line 3 ''WHERE app_id = ? AND event_name = ?''
      @ sql_line 3 ''  AND event_time BETWEEN ? AND ?''
      @ sql_line 3 (''  AND notEmpty('' @ prop_expr (bq_Property req) @ '')'')
      @ sql_line 3 ''GROUP BY prop_val''
      @ sql_line 3 ''ORDER BY cnt DESC''
      @ sql_line 3 (''LIMIT '' @ itoa (bq_TopN req))
      @ sql_line 2 '')''
      @ sql_line 2 ''SELECT''
      @ sql_line 3 (granularityFn (bq_Granularity req) @ ''(e.event_time) AS bucket,'')
      @ sql_line 3 (''e.'' @ prop_expr (bq_Property req) @ '' AS prop_val,'')
      @ sql_line 3 ''count() AS event_count,''
      @ sql_line 3 ''uniq(e.user_id) AS unique_users''
      @ sql_line 2 ''FROM events e''
      @ sql_line 2 (''INNER JOIN top_vals t ON e.'' @ prop_expr (bq_Property req) @ '' = t.prop_val'')
      @ sql_line 2 ''WHERE e.app_id = ? AND e.event_name = ?''
      @ sql_line 2 ''  AND e.event_time BETWEEN ? AND ?''
      @ sql_line 2 ''GROUP BY bucket, prop_val''
      @ sql_line 2 ''ORDER BY bucket, event_count DESC''
      @ sql_line 1 [],
      [AStr (bq_AppID req), AStr (bq_EventName req), ATime (bq_FromMs req), ATime (bq_ToMs req),
       AStr (bq_AppID req), AStr (bq_EventName req), ATime (bq_FromMs req), ATime (bq_ToMs req)])"

definition EventBreakdown ::
  "('c, 'row) an_env \<Rightarrow> breakdown_request \<Rightarrow> 'c \<Rightarrow> (go_error + breakdown_point list) \<times> 'c" where
  "EventBreakdown env req0 ch =
     (let (sql, args) = breakdown_sql (breakdown_defaults req0) in
      (case an_Query env ch sql args of
         (Inl _, ch') \<Rightarrow> (Inl (Errorf ''breakdown query''), ch')
       | (Inr rows, ch') \<Rightarrow>
           (Inr (map (\<lambda>(bucket, v, cnt, users).
              \<lparr>bp_Bucket = format_date bucket, bp_PropertyValue = v, bp_Count = cnt, bp_UniqueUsers = users,
               bp_Percentage = 0\<rparr>) (scan_rows (sc_breakdown env) rows)), ch')))"

section \<open>Real time\<close>

record realtime_stats =
  rt_AppID :: string
  rt_AsOf :: string
  rt_EventsPerMin :: f64
  rt_ActiveUsers :: int
  rt_TopEvents :: "event_freq list"

definition realtime_sql :: string where
  "realtime_sql =
     sql_line 2 ''SELECT''
      @ sql_line 3 ''count() AS total_events,''
      @ sql_line 3 ''uniq(user_id) AS active_users''
      @ sql_line 2 ''FROM events''
      @ sql_line 2 ''WHERE app_id = ? AND event_time >= ?''
      @ sql_line 1 []"

definition realtime_top_sql :: string where
  "realtime_top_sql =
     sql_line 2 ''SELECT event_name, count() AS cnt''
      @ sql_line 2 ''FROM events''
      @ sql_line 2 ''WHERE app_id = ? AND event_time >= ?''
      @ sql_line 2 ''GROUP BY event_name''
      @ sql_line 2 ''ORDER BY cnt DESC''
      @ sql_line 2 ''LIMIT 10''
      @ sql_line 1 []"

text \<open>The clock is read twice, for the window and for \<open>AsOf\<close>.\<close>

definition RealTime ::
  "('c, 'row) an_env \<Rightarrow> int \<Rightarrow> int \<Rightarrow> string \<Rightarrow> 'c \<Rightarrow> (go_error + realtime_stats) \<times> 'c" where
  "RealTime env t0 t1 appID ch =
     (let args = [AStr appID, ATime (t0 - 5 * 60000)]; (row, ch1) = an_QueryRow env ch realtime_sql args in
      (case sc_realtime env row of
         None \<Rightarrow> (Inl (Errorf ''realtime stats''), ch1)
       | Some (totalEvents, activeUsers) \<Rightarrow>
           (let (top, ch2) = top_events env realtime_top_sql args ch1 in
            (Inr \<lparr>rt_AppID = appID, rt_AsOf = rfc3339_sec t1, rt_EventsPerMin = of_int totalEvents / 5,
                  rt_ActiveUsers = activeUsers, rt_TopEvents = top\<rparr>, ch2))))"

section \<open>Segments\<close>

record segment_request =
  sg_AppID :: string
  sg_Filters :: "filter_spec list"
  sg_HasEvents :: "string list"
  sg_FromMs :: int
  sg_ToMs :: int

record segment_response =
  sr_AppID :: string
  sr_MatchedUsers :: int
  sr_EvaluatedAt :: string

text \<open>One turn of each of the two loops over the where clause and the arguments.\<close>

definition segment_event ::
  "segment_request \<Rightarrow> string \<times> sql_arg list \<Rightarrow> string \<Rightarrow> string \<times> sql_arg list" where
  "segment_event req wa ev =
     (fst wa @ '' AND user_id IN (SELECT DISTINCT user_id FROM events WHERE app_id = ? AND event_name = ? AND event_time BETWEEN ? AND ?)'',
      snd wa @ [AStr (sg_AppID req), AStr ev, ATime (sg_FromMs req), ATime (sg_ToMs req)])"

definition segment_filter :: "string \<times> sql_arg list \<Rightarrow> filter_spec \<Rightarrow> string \<times> sql_arg list" where
  "segment_filter wa f =
     (let prop = '' AND props['' @ quoted (fl_Property f) @ '']'' in
      if fl_Operator f = ''eq'' then (fst wa @ prop @ '' = ?'', snd wa @ [AStr (fl_Value f)])
      else if fl_Operator f = ''neq'' then (fst wa @ prop @ '' != ?'', snd wa @ [AStr (fl_Value f)])
      else if fl_Operator f = ''contains'' then
        (fst wa @ prop @ '' ILIKE ?'', snd wa @ [AStr (''%'' @ fl_Value f @ ''%'')])
      else wa)"

definition segment_sql :: "segment_request \<Rightarrow> string \<times> sql_arg list" where
  "segment_sql req =
     (let wa = foldl segment_filter
            (foldl (segment_event req)
               (''app_id = ? AND event_time BETWEEN ? AND ?'',
                [AStr (sg_AppID req), ATime (sg_FromMs req), ATime (sg_ToMs req)])
               (sg_HasEvents req))
            (sg_Filters req)
      in (''SELECT uniq(user_id) FROM events WHERE '' @ fst wa, snd wa))"

definition SegmentCount ::
  "('c, 'row) an_env \<Rightarrow> int \<Rightarrow> segment_request \<Rightarrow> 'c \<Rightarrow> (go_error + segment_response) \<times> 'c" where
  "SegmentCount env now req ch =
     (let (sql, args) = segment_sql req; (row, ch') = an_QueryRow env ch sql args in
      (case sc_count env row of
         None \<Rightarrow> (Inl (Errorf ''segment count''), ch')
       | Some n \<Rightarrow> (Inr \<lparr>sr_AppID = sg_AppID req, sr_MatchedUsers = n, sr_EvaluatedAt = rfc3339_sec now\<rparr>, ch')))"

section \<open>Splitting what was joined\<close>

definition join_path :: "string list \<Rightarrow> string" where
  "join_path parts = str_join arrow parts"

lemma split_loop_skip:
  assumes "\<And>j. i \<le> j \<Longrightarrow> j < k \<Longrightarrow> take 4 (drop j path) \<noteq> arrow" "i \<le> k" "k \<le> length path"
  shows "split_loop path start i parts = split_loop path start k parts"
proof -
  have "k - i = n \<Longrightarrow> ?thesis" for n
    using assms
  proof (induction n arbitrary: i)
    case (Suc n)
    have step: "split_loop path start i parts = split_loop path start (Suc i) parts" if "i + 3 < length path"
      using that Suc.prems(1,2) by (subst split_loop.simps) simp
    have stop: "split_loop path start j parts = Some (parts @ [drop start path])" if "\<not> j + 3 < length path" for j
      using that by (subst split_loop.simps) simp
    show ?case
    proof (cases "i + 3 < length path")
      case True
      with step Suc.IH [of "Suc i"] Suc.prems show ?thesis by simp
    next
      case False
      with stop Suc.prems(1,3) show ?thesis by simp
    qed
  qed simp
  then show ?thesis by blast
qed

lemma length_arrow: "length arrow = 4"
  by (simp add: arrow_def)

lemma arrow_at:
  assumes "take 4 (drop j path) = arrow"
  shows "j + 3 < length path" "path ! j = CHR '' ''" "path ! (j + 2) = CHR ''>''"
proof -
  have l: "length (take 4 (drop j path)) = 4" using assms by (simp add: arrow_def)
  then show len: "j + 3 < length path" by simp
  have "take 4 (drop j path) ! 0 = CHR '' ''" "take 4 (drop j path) ! 2 = CHR ''>''"
    using assms by (simp_all add: arrow_def)
  with len show "path ! j = CHR '' ''" "path ! (j + 2) = CHR ''>''" by simp_all
qed

text \<open>From the end of one separator, or the beginning, the loop finds no separator inside a
  part without \<open>>\<close>.\<close>

lemma no_arrow_in_part:
  assumes "path = pre @ p @ rest" "CHR ''>'' \<notin> set p" "rest = [] \<or> (\<exists>r. rest = arrow @ r)"
    and "pre = [] \<or> (\<exists>q. pre = q @ arrow)" "length pre \<le> j + 3" "j < length pre + length p"
  shows "take 4 (drop j path) \<noteq> arrow"
proof
  assume m: "take 4 (drop j path) = arrow"
  note a = arrow_at [OF m]
  show False
  proof (cases "length pre \<le> j + 2")
    case True
    then obtain k where k: "j + 2 = length pre + k" using le_Suc_ex by blast
    with assms(6) have "k < length p + 2" by simp
    have nth: "path ! (j + 2) = (p @ rest) ! k"
      unfolding assms(1) k by (rule nth_append_length_plus)
    show False
    proof (cases "k < length p")
      case True
      with nth a(3) assms(2) show False by (simp add: nth_append) (metis nth_mem)
    next
      case False
      then obtain i where i: "k = length p + i" "i < 2" using \<open>k < length p + 2\<close> le_Suc_ex
        by (metis add_less_cancel_left not_less)
      have "rest \<noteq> []"
      proof
        assume "rest = []"
        with a(1) k False show False by (simp add: assms(1))
      qed
      with assms(3) obtain r where r: "rest = arrow @ r" by blast
      have "(arrow @ r) ! i = arrow ! i" using i(2) by (simp add: nth_append length_arrow)
      then have "(p @ rest) ! k = arrow ! i"
        unfolding i(1) r nth_append_length_plus .
      with nth a(3) have "arrow ! i = CHR ''>''" by simp
      with i(2) show False by (auto simp: arrow_def less_Suc_eq numeral_2_eq_2)
    qed
  next
    case False
    with assms(5) have j: "length pre = j + 3" by simp
    with assms(4) obtain q where q: "pre = q @ arrow" by auto
    then have "j = length q + 1" using j by (simp add: arrow_def)
    then have "path ! j = arrow ! 1" by (simp add: assms(1) q nth_append arrow_def)
    with a(2) show False by (simp add: arrow_def)
  qed
qed

lemma split_loop_join:
  assumes "parts \<noteq> []" "\<forall>p \<in> set parts. CHR ''>'' \<notin> set p"
    and "pre = [] \<or> (\<exists>q. pre = q @ arrow)" "length pre \<le> i + 3" "i \<le> length pre"
  shows "split_loop (pre @ join_path parts) (length pre) i acc = Some (acc @ parts)"
  using assms
proof (induction parts arbitrary: pre i acc rule: induct_list012)
  case (2 p)
  have "split_loop (pre @ p) (length pre) i acc = split_loop (pre @ p) (length pre) (length (pre @ p)) acc"
  proof (rule split_loop_skip)
    fix j assume "i \<le> j" "j < length (pre @ p)"
    then show "take 4 (drop j (pre @ p)) \<noteq> arrow"
      using 2 by (intro no_arrow_in_part [of _ pre p "[]"]) auto
  qed (use 2 in auto)
  then show ?case by (simp add: join_path_def split_loop.simps [of _ _ "length pre + length p"])
next
  case (3 p q ps)
  let ?path = "pre @ p @ arrow @ join_path (q # ps)" and ?k = "length pre + length p"
  have path: "pre @ join_path (p # q # ps) = ?path" by (simp add: join_path_def)
  have "split_loop ?path (length pre) i acc = split_loop ?path (length pre) ?k acc"
  proof (rule split_loop_skip)
    fix j assume "i \<le> j" "j < ?k"
    then show "take 4 (drop j ?path) \<noteq> arrow"
      using 3 by (intro no_arrow_in_part [of _ pre p "arrow @ join_path (q # ps)"]) auto
  qed (use 3 in auto)
  also have "\<dots> = split_loop ?path (?k + 4) (?k + 1) (acc @ [p])"
    by (subst split_loop.simps) (simp add: arrow_def)
  also have "?path = (pre @ p @ arrow) @ join_path (q # ps)" by simp
  also have "?k + 4 = length (pre @ p @ arrow)" by (simp add: arrow_def)
  also have "split_loop ((pre @ p @ arrow) @ join_path (q # ps)) (length (pre @ p @ arrow)) (?k + 1) (acc @ [p])
      = Some ((acc @ [p]) @ q # ps)"
    by (rule "3.IH"(2)) (use 3 in \<open>auto simp: arrow_def\<close>)
  finally show ?case unfolding path by simp
qed simp

text \<open>\<open>splitPath\<close> takes apart what ClickHouse joined with \<open> -> \<close>, when no event name
  contains \<open>>\<close>.\<close>

theorem splitPath_join:
  assumes "parts \<noteq> []" and "\<forall>p \<in> set parts. CHR ''>'' \<notin> set p"
  shows "splitPath (join_path parts) = Some parts"
  using split_loop_join [OF assms, of "[]" 0 "[]"] by (simp add: splitPath_def)

theorem splitPath_join_witness:
  "splitPath (join_path [''session_start'', ''buy'']) = Some [''session_start'', ''buy'']"
  by (rule splitPath_join) auto

text \<open>An event named \<open>->\<close> makes the separators overlap and the loop panic.\<close>

lemma splitPath_panics: "splitPath (join_path [''a'', ''->'', ''b'']) = None"
  by (simp add: splitPath_def join_path_def arrow_def split_loop.simps)

section \<open>Placeholders and arguments\<close>

text \<open>The driver binds the arguments to the question marks of the SQL text, one by one.\<close>

definition placeholders :: "string \<Rightarrow> nat" where
  "placeholders s = length (filter (\<lambda>c. c = CHR ''?'') s)"

lemma placeholders_append [simp]: "placeholders (s @ t) = placeholders s + placeholders t"
  by (simp add: placeholders_def)

lemma placeholders_Nil [simp]: "placeholders [] = 0"
  by (simp add: placeholders_def)

lemma placeholders_Cons [simp]: "placeholders (c # s) = (if c = CHR ''?'' then Suc (placeholders s) else placeholders s)"
  by (simp add: placeholders_def)

lemma placeholders_sql_line [simp]: "placeholders (sql_line n s) = placeholders s"
  by (simp add: placeholders_def sql_line_def)

lemma placeholders_quoted [simp]: "placeholders (quoted s) = placeholders s"
  by (simp add: quoted_def quote_char_def)

lemma placeholders_double_quotes [simp]: "placeholders (double_quotes s) = placeholders s"
  by (induction s) (auto simp: quote_char_def)

lemma placeholders_digit: "d < 10 \<Longrightarrow> digit d \<noteq> CHR ''?''"
proof
  assume "d < 10" "digit d = CHR ''?''"
  then have "undigit (CHR ''?'') = Some d" by (metis undigit_digit)
  then show False by (simp add: undigit_def)
qed

lemma placeholders_show_nat [simp]: "placeholders (show_nat n) = 0"
proof (induction n rule: show_nat.induct)
  case (1 n)
  then show ?case by (cases "n < 10") (simp_all add: show_nat.simps [of n] placeholders_digit)
qed

lemma placeholders_itoa [simp]: "placeholders (itoa i) = 0"
  by (simp add: itoa_def)

lemma placeholders_granularityFn [simp]: "placeholders (granularityFn g) = 0"
  by (simp add: granularityFn_def)

lemma placeholders_join:
  "placeholders sep = 0 \<Longrightarrow> placeholders (str_join sep ss) = sum_list (map placeholders ss)"
  by (induction sep ss rule: str_join.induct) auto

lemma placeholders_prop_expr: "placeholders (prop_expr p) = placeholders p"
  by (simp add: prop_expr_def)

definition spliced_marks :: "segment_request \<Rightarrow> nat" where
  "spliced_marks req = sum_list (map (\<lambda>f. if fl_Operator f \<in> {''eq'', ''neq'', ''contains''}
      then placeholders (fl_Property f) else 0) (sg_Filters req))"

text \<open>How many placeholders a query has beyond its arguments.\<close>

definition unbound :: "string \<times> sql_arg list \<Rightarrow> int" where
  "unbound q = int (placeholders (fst q)) - int (length (snd q))"

lemma unbound_segment_filter:
  "unbound (foldl segment_filter wa fs) = unbound wa + int (sum_list (map (\<lambda>f.
     if fl_Operator f \<in> {''eq'', ''neq'', ''contains''} then placeholders (fl_Property f) else 0) fs))"
proof (induction fs arbitrary: wa)
  case (Cons f fs)
  have "unbound (segment_filter wa f) = unbound wa
      + int (if fl_Operator f \<in> {''eq'', ''neq'', ''contains''} then placeholders (fl_Property f) else 0)"
    by (auto simp: unbound_def segment_filter_def Let_def)
  with Cons show ?case by simp
qed simp

lemma unbound_segment_event: "unbound (foldl (segment_event req) wa evs) = unbound wa"
  by (induction evs arbitrary: wa) (simp_all add: unbound_def segment_event_def)

lemma unbound_segment: "unbound (segment_sql req) = int (spliced_marks req)"
proof -
  have prefix: "unbound (s @ fst wa, snd wa) = int (placeholders s) + unbound wa" for s wa
    by (simp add: unbound_def)
  show ?thesis
    unfolding segment_sql_def Let_def prefix unbound_segment_filter unbound_segment_event spliced_marks_def
    by (simp add: unbound_def)
qed

lemma unbound_cached_queries:
  "unbound (buildEventCountSQL cr) = 0"
  "unbound (buildDAUSQL dr) = 0"
  "unbound (retention_sql rr) = 0"
  "unbound (buildFunnelSQL fr) = 2 * int (sum_list (map placeholders (fr_Steps fr)))"
  by (simp_all add: unbound_def buildEventCountSQL_def buildDAUSQL_def retention_sql_def day_column_def
      buildFunnelSQL_def inClause_def placeholders_join comp_def Let_def)

lemma unbound_analytics_1:
  "unbound (paths_sql pq) = 0"
  "unbound (revenue_sql rv) = int (placeholders (rv_RevenueProp rv))"
  "unbound (ltv_sql lt) = int (placeholders (lt_RevenueProp lt))"
  by (simp_all add: unbound_def paths_sql_def revenue_sql_def ltv_sql_def)

lemma unbound_analytics_2:
  "unbound (profile_sql, [AStr a, AStr u]) = 0"
  "unbound (profile_top_sql, [AStr a, AStr u]) = 0"
  "unbound (timeline_sql a u f t n) = 0"
  "unbound (realtime_sql, [AStr a, ATime f]) = 0"
  "unbound (realtime_top_sql, [AStr a, ATime f]) = 0"
  by (simp_all add: unbound_def profile_sql_def profile_top_sql_def timeline_sql_def realtime_sql_def
      realtime_top_sql_def)

lemma unbound_analytics_3:
  "unbound (attribution_sql aq) = 0"
  "unbound (experiment_sql x a u f t) = 0"
  "unbound (breakdown_sql bq) = 4 * int (placeholders (bq_Property bq))"
  by (simp_all add: unbound_def attribution_sql_def experiment_sql_def breakdown_sql_def placeholders_prop_expr)


section \<open>Lift\<close>

lemma control_pct_append: "control_pct (vs @ [v]) = (if vr_Variant v = ''control'' then vr_ConversionPct v else control_pct vs)"
  by (simp add: control_pct_def)

lemma control_pct_unique:
  assumes "control \<in> set vs" "vr_Variant control = ''control''"
    and "\<And>v. v \<in> set vs \<Longrightarrow> vr_Variant v = ''control'' \<Longrightarrow> vr_ConversionPct v = c"
  shows "control_pct vs = c"
  using assms(1,3)
proof (induction vs rule: rev_induct)
  case (snoc v vs)
  show ?case
  proof (cases "vr_Variant v = ''control''")
    case True
    with snoc.prems(2) [of v] show ?thesis by (simp add: control_pct_append)
  next
    case False
    with snoc.prems(1) assms(2) have "control \<in> set vs" by auto
    with False snoc show ?thesis by (simp add: control_pct_append)
  qed
qed simp

text \<open>Lift is relative to the control variant wherever its row stands: with one control
  conversion rate \<open>c > 0\<close> among the rows, the results are the rows in order with their
  conversion rates, the control's lift is 0 and every other variant's is the distance of its
  rate from \<open>c\<close> in percent of \<open>c\<close>.\<close>

theorem lift_relative_to_control:
  assumes "(''control'', users, conversions, revenue) \<in> set rows"
    and "\<And>n k r. (''control'', n, k, r) \<in> set rows \<Longrightarrow> percent k n = c"
    and "0 < c"
  shows "map vr_Variant (experiment_variants rows) = map fst rows
    \<and> map vr_LiftPct (experiment_variants rows) =
        map (\<lambda>(name, n, k, r). if name = ''control'' then 0 else (percent k n - c) / c * 100) rows"
proof -
  have "variant_of (''control'', users, conversions, revenue) \<in> set (map variant_of rows)"
    using assms(1) by simp
  then have "control_pct (map variant_of rows) = c"
    by (rule control_pct_unique) (use assms(2) in \<open>auto simp: variant_of_def\<close>)
  with assms(3) show ?thesis
    by (simp add: experiment_variants_def comp_def with_lift_def variant_of_def case_prod_unfold)
qed

theorem lift_relative_to_control_witness:
  "map vr_LiftPct (experiment_variants [(''blue'', 10, 3, 0), (''control'', 10, 2, 0)]) = [50, 0]"
  using lift_relative_to_control [of 10 2 0 "[(''blue'', 10, 3, 0), (''control'', 10, 2, 0)]" 20]
  by (simp add: percent_def)

text \<open>What the requests ask for and the queries ignore: the attribution model, the days of a
  lifetime-value request, the end event and filters of a path request, and segment filters
  with an unknown operator.\<close>

lemma ignored_parameters:
  "Attribution env (aq\<lparr>at_Model := m\<rparr>) ch = Attribution env aq ch"
  "LTVCohort env iter (lq\<lparr>lt_Days := ds\<rparr>) ch = LTVCohort env iter lq ch"
  "paths_sql (path_defaults (pq\<lparr>pq_EndEvent := e, pq_Filters := fs\<rparr>)) = paths_sql (path_defaults pq)"
  "fl_Operator f \<notin> {''eq'', ''neq'', ''contains''} \<Longrightarrow> segment_filter wa f = wa"
  by (simp_all add: Attribution_def attribution_sql_def LTVCohort_def ltv_sql_def ltv_defaults_def
      paths_sql_def path_defaults_def segment_filter_def Let_def)

end
