(* ===== verification/QueryApi.thy ===== *)
theory QueryApi
  imports Query Postgres
begin

text \<open>
  The analytics handlers of \<open>cmd/queryapi/main.go\<close> over the query service.  \<open>q\<close> is the
  decoded query string (the empty string for an absent parameter), \<open>now\<close> the clock in
  milliseconds at the handler, \<open>ns\<close> in nanoseconds.  The routes carry no authentication
  middleware, so a request's headers are never read.
\<close>

definition parseMillis :: "string \<Rightarrow> int \<Rightarrow> int" where
  "parseMillis s d =
     (if s = [] then d else (case atoi s of None \<Rightarrow> d | Some v \<Rightarrow> if in_i64 v then v else d))"

text \<open>\<open>time.Now().AddDate(0, 0, -30)\<close> in UTC.\<close>

definition defaultFromMs :: "int \<Rightarrow> int" where
  "defaultFromMs now = now - 30 * 86400000"

definition defaultStr :: "string \<Rightarrow> string \<Rightarrow> string" where
  "defaultStr s d = (if s = [] then d else s)"

definition api_health :: response where
  "api_health = writeJSON 200 (jmap [(''service'', ''query-api''), (''status'', ''ok'')])"

definition api_eventCount ::
  "('s, 'c, 'row) q_env \<Rightarrow> clock \<Rightarrow> (go_error + event_count_response) option \<Rightarrow> int \<Rightarrow> (string \<Rightarrow> string)
     \<Rightarrow> ('s, 'c) qservice \<Rightarrow> response \<times> (string \<times> string \<times> sql_arg list) option \<times> ('s, 'c) qservice" where
  "api_eventCount env clk joined now q st =
     (if q ''app_id'' = [] then (writeError 400 ''app_id required'', None, st)
      else
        (case EventCount env clk joined
            \<lparr>cr_AppID = q ''app_id'', cr_EventName = q ''event_name'',
             cr_FromMs = parseMillis (q ''from_ms'') (defaultFromMs now), cr_ToMs = parseMillis (q ''to_ms'') now,
             cr_Granularity = defaultStr (q ''granularity'') ''day'', cr_GroupBy = [], cr_Filters = []\<rparr> st of
           (Inl e, refresh, st') \<Rightarrow> (writeError 500 ''query failed'', refresh, st')
         | (Inr resp, refresh, st') \<Rightarrow> (writeJSON 200 (encode_count resp), refresh, st')))"

definition decode_funnel_request :: "json \<Rightarrow> funnel_request option" where
  "decode_funnel_request j = do {
     m \<leftarrow> jobj j;
     a \<leftarrow> to_string [] (jvals ''app_id'' m); ss \<leftarrow> to_strings (jvals ''steps'' m);
     w \<leftarrow> to_int 0 (jvals ''window_seconds'' m); f \<leftarrow> to_int 0 (jvals ''from_ms'' m);
     t \<leftarrow> to_int 0 (jvals ''to_ms'' m);
     Some \<lparr>fr_AppID = a, fr_Steps = (case ss of None \<Rightarrow> [] | Some xs \<Rightarrow> xs), fr_WindowSeconds = w,
       fr_FromMs = f, fr_ToMs = t\<rparr> }"

definition go_error_text :: "go_error \<Rightarrow> string" where
  "go_error_text e = (case e of Errorf s \<Rightarrow> s | ErrOpen s \<Rightarrow> s | ErrCapacityExceeded s \<Rightarrow> s
     | ErrNotFound \<Rightarrow> ''not found'' | ErrInvalidAPIKey \<Rightarrow> ''invalid API key''
     | ErrUnauthorized \<Rightarrow> ''unauthorized'' | ErrBackpressure \<Rightarrow> ''backpressure'')"

definition api_funnelQuery ::
  "('s, 'c, 'row) q_env \<Rightarrow> clock \<Rightarrow> (go_error + funnel_step list) option \<Rightarrow> int \<Rightarrow> request
     \<Rightarrow> ('s, 'c) qservice \<Rightarrow> response \<times> ('s, 'c) qservice" where
  "api_funnelQuery env clk joined now rq st =
     (case Option.bind (rq_body rq) decode_funnel_request of
        None \<Rightarrow> (writeError 400 ''invalid JSON'', st)
      | Some req \<Rightarrow>
          if fr_AppID req = [] then (writeError 400 ''app_id required'', st)
          else
            (case Funnel env clk joined (req\<lparr>
                fr_FromMs := (if fr_FromMs req = 0 then defaultFromMs now else fr_FromMs req),
                fr_ToMs := (if fr_ToMs req = 0 then now else fr_ToMs req),
                fr_WindowSeconds := (if fr_WindowSeconds req = 0 then 7 * 86400 else fr_WindowSeconds req)\<rparr>) st of
               (Inl e, st') \<Rightarrow> (writeError 500 (go_error_text e), st')
             | (Inr ss, st') \<Rightarrow> (writeJSON 200 (encode_funnel ss), st')))"

definition api_dau ::
  "('s, 'c, 'row) q_env \<Rightarrow> clock \<Rightarrow> (go_error + event_count_response) option \<Rightarrow> int \<Rightarrow> (string \<Rightarrow> string)
     \<Rightarrow> ('s, 'c) qservice \<Rightarrow> response \<times> ('s, 'c) qservice" where
  "api_dau env clk joined now q st =
     (if q ''app_id'' = [] then (writeError 400 ''app_id required'', st)
      else
        (case DAU env clk joined
            \<lparr>dr_AppID = q ''app_id'', dr_FromMs = parseMillis (q ''from_ms'') (defaultFromMs now),
             dr_ToMs = parseMillis (q ''to_ms'') now, dr_Granularity = defaultStr (q ''granularity'') ''day''\<rparr> st of
           (Inl e, st') \<Rightarrow> (writeError 500 ''query failed'', st')
         | (Inr resp, st') \<Rightarrow> (writeJSON 200 (encode_count resp), st')))"

text \<open>\<open>day_ns\<close> is decoded as \<open>[]int32\<close>.\<close>

definition to_int32 :: "json \<Rightarrow> int option" where
  "to_int32 j = (case to_int 0 [j] of None \<Rightarrow> None
     | Some i \<Rightarrow> if - (2 ^ 31) \<le> i \<and> i < 2 ^ 31 then Some i else None)"

definition decode_retention_request :: "json \<Rightarrow> retention_request option" where
  "decode_retention_request j = do {
     m \<leftarrow> jobj j;
     a \<leftarrow> to_string [] (jvals ''app_id'' m); f \<leftarrow> to_int 0 (jvals ''from_ms'' m);
     t \<leftarrow> to_int 0 (jvals ''to_ms'' m); xs \<leftarrow> to_slice None (jvals ''day_ns'' m);
     ds \<leftarrow> (case xs of None \<Rightarrow> Some None | Some js \<Rightarrow> map_option Some (those (map to_int32 js)));
     Some \<lparr>rr_AppID = a, rr_FromMs = f, rr_ToMs = t, rr_DayNs = ds\<rparr> }"

definition api_retention ::
  "('s, 'c, 'row) q_env \<Rightarrow> clock \<Rightarrow> (go_error + retention_cohort list) option \<Rightarrow> request
     \<Rightarrow> ('s, 'c) qservice \<Rightarrow> response \<times> ('s, 'c) qservice" where
  "api_retention env clk joined rq st =
     (case Option.bind (rq_body rq) decode_retention_request of
        None \<Rightarrow> (writeError 400 ''invalid JSON'', st)
      | Some req \<Rightarrow>
          if rr_AppID req = [] then (writeError 400 ''app_id required'', st)
          else
            (case Retention env clk joined (req\<lparr>rr_DayNs :=
                (if rr_DayNs req = None then Some [1, 3, 7, 14, 30] else rr_DayNs req)\<rparr>) st of
               (Inl e, st') \<Rightarrow> (writeError 500 ''query failed'', st')
             | (Inr cs, st') \<Rightarrow> (writeJSON 200 (encode_retention cs), st')))"

text \<open>\<open>row\<close> is the one-row query with its four columns scanned, \<open>None\<close> an error.\<close>

definition sessionMetrics_sql :: string where
  "sessionMetrics_sql =
     sql_line 2 ''SELECT'' @ sql_line 3 ''avg(duration_s) AS avg_duration,''
     @ sql_line 3 ''median(duration_s) AS median_duration,'' @ sql_line 3 ''count() AS total_sessions,''
     @ sql_line 3 ''avg(event_count) AS avg_events'' @ sql_line 2 ''FROM ('' @ sql_line 3 ''SELECT''
     @ sql_line 4 ''session_id,''
     @ sql_line 4 (''max(toInt64(props['' @ quoted ''session_duration_s'' @ ''])) AS duration_s,'')
     @ sql_line 4 ''count() AS event_count'' @ sql_line 3 ''FROM events'' @ sql_line 3 ''WHERE app_id = ?''
     @ sql_line 3 ''  AND event_time BETWEEN ? AND ?''
     @ sql_line 3 (''  AND event_name = '' @ quoted ''session_end'') @ sql_line 3 ''GROUP BY session_id''
     @ sql_line 2 '')''"

definition api_sessionMetrics ::
  "('c \<Rightarrow> string \<Rightarrow> sql_arg list \<Rightarrow> (f64 \<times> f64 \<times> int \<times> f64) option) \<Rightarrow> int \<Rightarrow> (string \<Rightarrow> string)
     \<Rightarrow> ('s, 'c) qservice \<Rightarrow> response" where
  "api_sessionMetrics row now q st =
     (if q ''app_id'' = [] then writeError 400 ''app_id required''
      else
        (case row (q_ch st) sessionMetrics_sql
                [AStr (q ''app_id''), ATime (parseMillis (q ''from_ms'') (defaultFromMs now)),
                 ATime (parseMillis (q ''to_ms'') now)] of
           None \<Rightarrow> writeError 500 ''query failed''
         | Some (avgDur, medDur, totalSessions, avgEvents) \<Rightarrow>
             writeJSON 200 (JObj [(''avg_events_per_session'', JNum avgEvents),
               (''avg_session_duration_s'', JNum avgDur), (''median_session_duration_s'', JNum medDur),
               (''total_sessions'', JNum (of_int totalSessions))])))"

text \<open>\<open>createFunnel\<close> decodes the body and answers; it stores nothing.\<close>

definition api_createFunnel :: "int \<Rightarrow> request \<Rightarrow> response" where
  "api_createFunnel ns rq =
     (case Option.bind (rq_body rq) (\<lambda>j. do {
        m \<leftarrow> jobj j;
        a \<leftarrow> to_string [] (jvals ''app_id'' m); n \<leftarrow> to_string [] (jvals ''name'' m);
        ss \<leftarrow> to_strings (jvals ''steps'' m); w \<leftarrow> to_int 0 (jvals ''window_seconds'' m);
        Some () }) of
        None \<Rightarrow> writeError 400 ''invalid JSON''
      | Some _ \<Rightarrow> writeJSON 201 (jmap [(''funnel_id'', ''f-'' @ itoa ns)]))"

definition funnel_definition_fields :: "funnel_definition \<Rightarrow> (string \<times> json option) list" where
  "funnel_definition_fields f =
     [(''funnel_id'', fstr (fd_FunnelID f)), (''app_id'', fstr (fd_AppID f)), (''name'', fstr (fd_Name f)),
      (''steps'', fstrings (Some (fd_Steps f))), (''window_seconds'', fint (fd_WindowSeconds f)),
      (''created_at'', fstr (format_rfc3339 (fd_CreatedAt f)))]"

definition api_listFunnels :: "pg_db \<Rightarrow> string \<Rightarrow> response" where
  "api_listFunnels db appID =
     (case ListFunnels db appID of
        Inl e \<Rightarrow> writeError 500 ''failed to list funnels''
      | Inr fs \<Rightarrow> writeJSON 200 (nil_array (map (\<lambda>f. JObj (obj_fields (funnel_definition_fields f))) fs)))"

section \<open>What the handlers promise\<close>

lemma parseMillis_itoa: "in_i64 i \<Longrightarrow> parseMillis (itoa i) d = i"
  by (simp add: parseMillis_def) (auto simp: itoa_def)

text \<open>No query handler reads a header: any caller may query any application.\<close>

lemma queries_unauthenticated:
  "api_funnelQuery env clk j now (rq\<lparr>rq_header := h\<rparr>) st = api_funnelQuery env clk j now rq st"
  "api_retention env clk j' (rq\<lparr>rq_header := h\<rparr>) st = api_retention env clk j' rq st"
  by (simp_all add: api_funnelQuery_def api_retention_def)

text \<open>A well-formed create request is answered 201 with an id, although nothing is stored.\<close>

lemma createFunnel_answers:
  "rs_status (api_createFunnel ns \<lparr>rq_header = h,
       rq_body = Some (JObj [(''app_id'', JStr a), (''steps'', JArr (map JStr ss)), (''window_seconds'', JNum 60)]),
       rq_remote = r\<rparr>) = 201"
proof -
  have s: "those (map (\<lambda>x. to_string [] [JStr x]) ss) = Some ss" by (induction ss) simp_all
  show ?thesis
    by (simp add: api_createFunnel_def jobj_def jvals_def to_lower_def to_lower_char_def to_strings_def s
        comp_def in_i64_def)
qed

end
