(* ===== verification/AnalyticsApi.thy ===== *)
theory AnalyticsApi
  imports Analytics QueryApi
begin

text \<open>
  \<open>cmd/queryapi/analytics_handlers.go\<close>: the handlers of the industry analytics over
  \<open>Analytics\<close>, with the JSON of their requests and responses.  \<open>q\<close> is the query
  string, \<open>now\<close> the clock in milliseconds at the handler.  A panic of the query is caught
  by chi's \<open>Recoverer\<close>, which answers 500 without a body.
\<close>

section \<open>Requests\<close>

definition decode_filter :: "(string \<times> json) list \<Rightarrow> filter_spec option" where
  "decode_filter m = do {
     p \<leftarrow> to_string [] (jvals ''property'' m); op \<leftarrow> to_string [] (jvals ''operator'' m);
     v \<leftarrow> to_string [] (jvals ''value'' m);
     Some \<lparr>fl_Property = p, fl_Operator = op, fl_Value = v\<rparr> }"

definition decode_path_request :: "json \<Rightarrow> path_request option" where
  "decode_path_request j = do {
     m \<leftarrow> jobj j;
     a \<leftarrow> to_string [] (jvals ''app_id'' m); s \<leftarrow> to_string [] (jvals ''start_event'' m);
     e \<leftarrow> to_string [] (jvals ''end_event'' m); ms \<leftarrow> to_int 0 (jvals ''max_steps'' m);
     n \<leftarrow> to_int 0 (jvals ''top_n'' m); f \<leftarrow> to_int 0 (jvals ''from_ms'' m);
     t \<leftarrow> to_int 0 (jvals ''to_ms'' m); fs \<leftarrow> decode_list decode_filter (jvals ''filters'' m);
     Some \<lparr>pq_AppID = a, pq_StartEvent = s, pq_EndEvent = e, pq_MaxSteps = ms, pq_TopN = n, pq_FromMs = f,
       pq_ToMs = t, pq_Filters = fs\<rparr> }"

definition decode_ltv_request :: "json \<Rightarrow> ltv_request option" where
  "decode_ltv_request j = do {
     m \<leftarrow> jobj j;
     a \<leftarrow> to_string [] (jvals ''app_id'' m); f \<leftarrow> to_int 0 (jvals ''from_ms'' m);
     t \<leftarrow> to_int 0 (jvals ''to_ms'' m); xs \<leftarrow> to_slice None (jvals ''days'' m);
     ds \<leftarrow> those (map (\<lambda>x. to_int 0 [x]) (case xs of None \<Rightarrow> [] | Some js \<Rightarrow> js));
     e \<leftarrow> to_string [] (jvals ''revenue_event'' m); p \<leftarrow> to_string [] (jvals ''revenue_prop'' m);
     Some \<lparr>lt_AppID = a, lt_FromMs = f, lt_ToMs = t, lt_Days = ds, lt_RevenueEvent = e, lt_RevenueProp = p\<rparr> }"

definition decode_breakdown_request :: "json \<Rightarrow> breakdown_request option" where
  "decode_breakdown_request j = do {
     m \<leftarrow> jobj j;
     a \<leftarrow> to_string [] (jvals ''app_id'' m); e \<leftarrow> to_string [] (jvals ''event_name'' m);
     p \<leftarrow> to_string [] (jvals ''property'' m); f \<leftarrow> to_int 0 (jvals ''from_ms'' m);
     t \<leftarrow> to_int 0 (jvals ''to_ms'' m); g \<leftarrow> to_string [] (jvals ''granularity'' m);
     n \<leftarrow> to_int 0 (jvals ''top_n'' m);
     Some \<lparr>bq_AppID = a, bq_EventName = e, bq_Property = p, bq_FromMs = f, bq_ToMs = t, bq_Granularity = g,
       bq_TopN = n\<rparr> }"

definition decode_segment_request :: "json \<Rightarrow> segment_request option" where
  "decode_segment_request j = do {
     m \<leftarrow> jobj j;
     a \<leftarrow> to_string [] (jvals ''app_id'' m); fs \<leftarrow> decode_list decode_filter (jvals ''filters'' m);
     es \<leftarrow> to_strings (jvals ''has_events'' m); f \<leftarrow> to_int 0 (jvals ''from_ms'' m);
     t \<leftarrow> to_int 0 (jvals ''to_ms'' m);
     Some \<lparr>sg_AppID = a, sg_Filters = fs, sg_HasEvents = (case es of None \<Rightarrow> [] | Some xs \<Rightarrow> xs),
       sg_FromMs = f, sg_ToMs = t\<rparr> }"

section \<open>Responses\<close>

abbreviation fnum :: "f64 \<Rightarrow> json option" where "fnum q \<equiv> Some (JNum q)"

definition path_node_fields :: "path_node \<Rightarrow> (string \<times> json option) list" where
  "path_node_fields n =
     [(''event_name'', fstr (pn_EventName n)), (''count'', fint (pn_Count n)),
      (''percentage'', fnum (pn_Percentage n)), (''drop_off_pct'', fnum (pn_DropOff n))]"

text \<open>\<open>Paths\<close> is made, not nil; its elements come from appends.\<close>

definition encode_paths :: "path_response \<Rightarrow> json" where
  "encode_paths r = JObj (obj_fields
     [(''root_event'', fstr (ps_RootEvent r)), (''total_users'', fint (ps_TotalUsers r)),
      (''paths'', Some (JArr (map (\<lambda>ns. nil_array (map (\<lambda>n. JObj (obj_fields (path_node_fields n))) ns)) (ps_Paths r))))])"

definition revenue_point_fields :: "revenue_point \<Rightarrow> (string \<times> json option) list" where
  "revenue_point_fields p =
     [(''bucket'', fstr (rp_Bucket p)), (''total_revenue'', fnum (rp_TotalRevenue p)),
      (''transaction_count'', fint (rp_TxCount p)), (''unique_payors'', fint (rp_UniquePayors p)),
      (''arpu'', fnum (rp_ARPU p)), (''arppu'', fnum (rp_ARPPU p))]"

definition encode_revenue :: "revenue_response \<Rightarrow> json" where
  "encode_revenue r = JObj (obj_fields
     [(''app_id'', fstr (rs_AppID r)), (''currency'', fstr (rs_Currency r)), (''total_ltv'', fnum (rs_TotalLTV r)),
      (''points'', Some (nil_array (map (\<lambda>p. JObj (obj_fields (revenue_point_fields p))) (rs_Points r))))])"

definition encode_ltv :: "ltv_point list \<Rightarrow> json" where
  "encode_ltv ps = JArr (map (\<lambda>p. JObj (obj_fields
     [(''cohort_date'', fstr (lp_CohortDate p)), (''users'', fint (lp_Users p)),
      (''ltv_by_day'', Some (JObj (map (\<lambda>(k, v). (k, JNum v)) (lp_LTVByDay p))))])) ps)"

definition encode_freqs :: "event_freq list \<Rightarrow> json" where
  "encode_freqs es = nil_array (map (\<lambda>e. JObj (obj_fields
     [(''event_name'', fstr (ef_EventName e)), (''count'', fint (ef_Count e))])) es)"

definition encode_profile :: "user_profile \<Rightarrow> json" where
  "encode_profile p = JObj (obj_fields
     [(''app_id'', fstr (up_AppID p)), (''user_id'', fstr (up_UserID p)), (''first_seen'', fstr (up_FirstSeen p)),
      (''last_seen'', fstr (up_LastSeen p)), (''total_events'', fint (up_TotalEvents p)),
      (''total_sessions'', fint (up_TotalSessions p)), (''total_revenue'', fnum (up_TotalRevenue p)),
      (''country'', fstr (up_Country p)), (''city'', fstr (up_City p)), (''properties'', Some (jmap (up_Properties p))),
      (''top_events'', Some (encode_freqs (up_TopEvents p)))])"

definition encode_timeline :: "user_event list \<Rightarrow> json" where
  "encode_timeline es = nil_array (map (\<lambda>e. JObj (obj_fields
     [(''event_name'', fstr (ue_EventName e)), (''event_time'', fstr (ue_EventTime e)),
      (''session_id'', fstr (ue_SessionID e)), (''country'', fstr (ue_Country e)),
      (''props'', Some (jmap (ue_Props e)))])) es)"

definition encode_attribution :: "attribution_point list \<Rightarrow> json" where
  "encode_attribution ps = nil_array (map (\<lambda>p. JObj (obj_fields
     [(''bucket'', fstr (ap_Bucket p)), (''source'', fstr (ap_Source p)), (''medium'', fstr (ap_Medium p)),
      (''campaign'', fstr (ap_Campaign p)), (''users'', fint (ap_Users p)), (''conversions'', fint (ap_Conversions p)),
      (''revenue'', fnum (ap_Revenue p)), (''conversion_pct'', fnum (ap_ConversionPct p))])) ps)"

definition encode_experiment_result :: "experiment_result \<Rightarrow> json" where
  "encode_experiment_result r = JObj (obj_fields
     [(''experiment_id'', fstr (er_ExperimentID r)), (''metric'', fstr (er_Metric r)),
      (''variants'', Some (nil_array (map (\<lambda>v. JObj (obj_fields
        [(''variant'', fstr (vr_Variant v)), (''users'', fint (vr_Users v)), (''conversions'', fint (vr_Conversions v)),
         (''conversion_pct'', fnum (vr_ConversionPct v)), (''revenue'', fnum (vr_Revenue v)),
         (''lift_pct'', fnum (vr_LiftPct v)), (''p_value'', fnum (vr_PValue v))])) (er_Variants r))))])"

definition encode_breakdown :: "breakdown_point list \<Rightarrow> json" where
  "encode_breakdown ps = nil_array (map (\<lambda>p. JObj (obj_fields
     [(''bucket'', fstr (bp_Bucket p)), (''property_value'', fstr (bp_PropertyValue p)), (''count'', fint (bp_Count p)),
      (''unique_users'', fint (bp_UniqueUsers p)), (''percentage'', fnum (bp_Percentage p))])) ps)"

definition encode_realtime :: "realtime_stats \<Rightarrow> json" where
  "encode_realtime s = JObj (obj_fields
     [(''app_id'', fstr (rt_AppID s)), (''as_of'', fstr (rt_AsOf s)), (''events_per_minute'', fnum (rt_EventsPerMin s)),
      (''active_users_5m'', fint (rt_ActiveUsers s)), (''top_events'', Some (encode_freqs (rt_TopEvents s)))])"

definition encode_segment :: "segment_response \<Rightarrow> json" where
  "encode_segment r = JObj (obj_fields
     [(''app_id'', fstr (sr_AppID r)), (''matched_users'', fint (sr_MatchedUsers r)),
      (''evaluated_at'', fstr (sr_EvaluatedAt r))])"

section \<open>Handlers\<close>

text \<open>The members of a map are written in the order of the model's list, in which nothing
  depends on their order.  The ending the handlers share: 500 on an error, otherwise 200 with the result.\<close>

definition answer :: "('a \<Rightarrow> json) \<Rightarrow> (go_error + 'a) \<times> 'c \<Rightarrow> response \<times> 'c" where
  "answer enc r = (case r of
      (Inl _, ch) \<Rightarrow> (writeError 500 ''query failed'', ch)
    | (Inr a, ch) \<Rightarrow> (writeJSON 200 (enc a), ch))"

definition from_default :: "int \<Rightarrow> int \<Rightarrow> int" where
  "from_default now ms = (if ms = 0 then defaultFromMs now else ms)"

definition to_default :: "int \<Rightarrow> int \<Rightarrow> int" where
  "to_default now ms = (if ms = 0 then now else ms)"

definition api_realtime :: "('c, 'row) an_env \<Rightarrow> int \<Rightarrow> int \<Rightarrow> (string \<Rightarrow> string) \<Rightarrow> 'c \<Rightarrow> response \<times> 'c" where
  "api_realtime env t0 t1 q ch =
     (if q ''app_id'' = [] then (writeError 400 ''app_id required'', ch)
      else answer encode_realtime (RealTime env t0 t1 (q ''app_id'') ch))"

definition api_paths :: "('c, 'row) an_env \<Rightarrow> int \<Rightarrow> request \<Rightarrow> 'c \<Rightarrow> response \<times> 'c" where
  "api_paths env now rq ch =
     (case Option.bind (rq_body rq) decode_path_request of
        None \<Rightarrow> (writeError 400 ''invalid JSON'', ch)
      | Some req \<Rightarrow>
          if pq_AppID req = [] then (writeError 400 ''app_id required'', ch)
          else
            (case Paths env (req\<lparr>pq_FromMs := from_default now (pq_FromMs req),
                                 pq_ToMs := to_default now (pq_ToMs req)\<rparr>) ch of
               (None, ch') \<Rightarrow> (status_only 500, ch')
             | (Some r, ch') \<Rightarrow> answer encode_paths (r, ch')))"

definition api_revenue :: "('c, 'row) an_env \<Rightarrow> int \<Rightarrow> (string \<Rightarrow> string) \<Rightarrow> 'c \<Rightarrow> response \<times> 'c" where
  "api_revenue env now q ch =
     (if q ''app_id'' = [] then (writeError 400 ''app_id required'', ch)
      else answer encode_revenue (Revenue env
        \<lparr>rv_AppID = q ''app_id'', rv_FromMs = parseMillis (q ''from_ms'') (defaultFromMs now),
         rv_ToMs = parseMillis (q ''to_ms'') now, rv_Granularity = defaultStr (q ''granularity'') ''day'',
         rv_RevenueEvent = defaultStr (q ''revenue_event'') ''purchase'',
         rv_RevenueProp = defaultStr (q ''revenue_prop'') ''revenue'', rv_CurrencyProp = []\<rparr> ch))"

definition api_ltv ::
  "('c, 'row) an_env \<Rightarrow> (ltv_point list \<Rightarrow> ltv_point list) \<Rightarrow> int \<Rightarrow> request \<Rightarrow> 'c \<Rightarrow> response \<times> 'c" where
  "api_ltv env iter now rq ch =
     (case Option.bind (rq_body rq) decode_ltv_request of
        None \<Rightarrow> (writeError 400 ''invalid JSON'', ch)
      | Some req \<Rightarrow>
          if lt_AppID req = [] then (writeError 400 ''app_id required'', ch)
          else answer encode_ltv (LTVCohort env iter
            (req\<lparr>lt_FromMs := from_default now (lt_FromMs req), lt_ToMs := to_default now (lt_ToMs req)\<rparr>) ch))"

definition api_userProfile ::
  "('c, 'row) an_env \<Rightarrow> string \<Rightarrow> (string \<Rightarrow> string) \<Rightarrow> 'c \<Rightarrow> response \<times> 'c" where
  "api_userProfile env userID q ch =
     (if q ''app_id'' = [] \<or> userID = [] then (writeError 400 ''app_id and user_id required'', ch)
      else answer encode_profile (UserProfile env (q ''app_id'') userID ch))"

text \<open>\<open>strconv.Atoi\<close> also fails outside the range of \<open>int\<close>.\<close>

definition timeline_limit_param :: "string \<Rightarrow> int" where
  "timeline_limit_param l =
     (case atoi l of Some v \<Rightarrow> if in_i64 v \<and> v > 0 then v else 500 | None \<Rightarrow> 500)"

definition api_userTimeline ::
  "('c, 'row) an_env \<Rightarrow> int \<Rightarrow> string \<Rightarrow> (string \<Rightarrow> string) \<Rightarrow> 'c \<Rightarrow> response \<times> 'c" where
  "api_userTimeline env now userID q ch =
     (if q ''app_id'' = [] \<or> userID = [] then (writeError 400 ''app_id and user_id required'', ch)
      else answer encode_timeline (UserTimeline env (q ''app_id'') userID
        (parseMillis (q ''from_ms'') (defaultFromMs now)) (parseMillis (q ''to_ms'') now)
        (timeline_limit_param (q ''limit'')) ch))"

definition api_attribution :: "('c, 'row) an_env \<Rightarrow> int \<Rightarrow> (string \<Rightarrow> string) \<Rightarrow> 'c \<Rightarrow> response \<times> 'c" where
  "api_attribution env now q ch =
     (if q ''app_id'' = [] then (writeError 400 ''app_id required'', ch)
      else answer encode_attribution (Attribution env
        \<lparr>at_AppID = q ''app_id'', at_FromMs = parseMillis (q ''from_ms'') (defaultFromMs now),
         at_ToMs = parseMillis (q ''to_ms'') now, at_Model = defaultStr (q ''model'') ''first_touch'',
         at_Granularity = defaultStr (q ''granularity'') ''day''\<rparr> ch))"

definition api_eventBreakdown :: "('c, 'row) an_env \<Rightarrow> int \<Rightarrow> request \<Rightarrow> 'c \<Rightarrow> response \<times> 'c" where
  "api_eventBreakdown env now rq ch =
     (case Option.bind (rq_body rq) decode_breakdown_request of
        None \<Rightarrow> (writeError 400 ''invalid JSON'', ch)
      | Some req \<Rightarrow>
          if bq_AppID req = [] \<or> bq_EventName req = [] \<or> bq_Property req = []
          then (writeError 400 ''app_id, event_name, and property required'', ch)
          else answer encode_breakdown (EventBreakdown env
            (req\<lparr>bq_FromMs := from_default now (bq_FromMs req), bq_ToMs := to_default now (bq_ToMs req)\<rparr>) ch))"

definition api_segmentCount :: "('c, 'row) an_env \<Rightarrow> int \<Rightarrow> int \<Rightarrow> request \<Rightarrow> 'c \<Rightarrow> response \<times> 'c" where
  "api_segmentCount env now t1 rq ch =
     (case Option.bind (rq_body rq) decode_segment_request of
        None \<Rightarrow> (writeError 400 ''invalid JSON'', ch)
      | Some req \<Rightarrow>
          if sg_AppID req = [] then (writeError 400 ''app_id required'', ch)
          else answer encode_segment (SegmentCount env t1
            (req\<lparr>sg_FromMs := from_default now (sg_FromMs req), sg_ToMs := to_default now (sg_ToMs req)\<rparr>) ch))"

definition api_experimentResults ::
  "('c, 'row) an_env \<Rightarrow> int \<Rightarrow> string \<Rightarrow> (string \<Rightarrow> string) \<Rightarrow> 'c \<Rightarrow> response \<times> 'c" where
  "api_experimentResults env now experimentID q ch =
     (if q ''app_id'' = [] \<or> q ''goal_event'' = [] then (writeError 400 ''app_id and goal_event required'', ch)
      else answer encode_experiment_result (ExperimentResults env experimentID (q ''app_id'') (q ''goal_event'')
        (parseMillis (q ''from_ms'') (defaultFromMs now)) (parseMillis (q ''to_ms'') now) ch))"

section \<open>What the handlers promise\<close>

lemma timeline_limit_bounds: "1 \<le> timeline_limit (timeline_limit_param l) \<and> timeline_limit (timeline_limit_param l) \<le> 500"
  by (auto simp: timeline_limit_def timeline_limit_param_def split: option.splits)

lemma percent_bounds: "0 \<le> n \<Longrightarrow> n \<le> d \<Longrightarrow> 0 \<le> percent n d \<and> percent n d \<le> 100"
  by (simp add: percent_def divide_le_eq)

text \<open>An empty result is \<open>null\<close> and not an empty array for the timeline, the attribution
  and the breakdown, unlike for the lifetime value.\<close>

lemma empty_results:
  "encode_timeline [] = JNull" "encode_attribution [] = JNull" "encode_breakdown [] = JNull"
  "encode_ltv [] = JArr []"
  by (simp_all add: encode_timeline_def encode_attribution_def encode_breakdown_def encode_ltv_def nil_array_def)

text \<open>A tenant can take down the path report: when any path ClickHouse returns holds an
  event named \<open>->\<close> between two others, the request is answered 500 without a body,
  whatever else is in the result.\<close>

theorem arrow_event_breaks_paths:
  assumes "decode_path_request j = Some req" "pq_AppID req \<noteq> []"
    and "\<And>c sql args. an_Query env c sql args = (Inr rows, c)"
    and "row \<in> set rows" "sc_path env row = Some (join_path [''a'', ''->'', ''b''], n)"
  shows "fst (api_paths env now \<lparr>rq_header = h, rq_body = Some j, rq_remote = r\<rparr> ch) = status_only 500"
proof -
  have "(join_path [''a'', ''->'', ''b''], n) \<in> set (scan_rows (sc_path env) rows)"
    using assms(4,5) by (force simp: scan_rows_def List.map_filter_def)
  then have mem: "None \<in> set (map (\<lambda>(p, cnt). map_option (path_nodes t cnt) (splitPath p)) (scan_rows (sc_path env) rows))" for t
    using splitPath_panics by force
  have none: "None \<in> set xs \<Longrightarrow> those xs = None" for xs :: "path_node list option list"
    by (induction xs) (auto split: option.splits)
  have "path_result s (scan_rows (sc_path env) rows) = None" for s
    using none [OF mem] by (simp add: path_result_def Let_def)
  with assms(1-3) show ?thesis
    by (simp add: api_paths_def Paths_def Let_def case_prod_unfold)
qed

definition an_example :: "(nat, string \<times> int) an_env" where
  "an_example = \<lparr>an_Query = (\<lambda>c sql args. (Inr [(''x'', 4), (join_path [''a'', ''->'', ''b''], 1)], c)),
     an_QueryRow = (\<lambda>c sql args. (([], 0), c)), sc_path = Some, sc_revenue = (\<lambda>_. None), sc_ltv = (\<lambda>_. None),
     sc_profile = (\<lambda>_. None), sc_freq = id, sc_event = (\<lambda>_. None), sc_attr = (\<lambda>_. None),
     sc_variant = (\<lambda>_. None), sc_breakdown = (\<lambda>_. None), sc_realtime = (\<lambda>_. None), sc_count = (\<lambda>_. None)\<rparr>"

theorem arrow_event_breaks_paths_witness:
  "fst (api_paths an_example 9 \<lparr>rq_header = (\<lambda>_. []), rq_body = Some (JObj [(''app_id'', JStr ''a'')]), rq_remote = []\<rparr> 0)
     = status_only 500"
proof -
  let ?m = "[(''app_id'', JStr ''a'')]"
  obtain req where req: "decode_path_request (JObj ?m) = Some req" "pq_AppID req = ''a''"
    by (simp add: decode_path_request_def jobj_def jvals_def to_lower_def to_lower_char_def decode_list_def)
  show ?thesis
    by (rule arrow_event_breaks_paths [OF req(1), of an_example "[(''x'', 4), (join_path [''a'', ''->'', ''b''], 1)]"
          "(join_path [''a'', ''->'', ''b''], 1)" 1])
      (simp_all add: req an_example_def)
qed

end
