(* ===== verification/Base64.thy ===== *)
theory Base64
  imports Prelude "HOL-Library.Monad_Syntax"
begin

text \<open>
  The standard base64 encoding, the form a \<open>[]byte\<close> field (\<open>Experiment.Variants\<close>)
  has in JSON.  The decoder skips line breaks and wants padding, as Go's does.
\<close>

definition b64_digit :: "nat \<Rightarrow> char" where
  "b64_digit n =
     (if n < 26 then char_of (65 + n) else if n < 52 then char_of (71 + n)
      else if n < 62 then char_of (n - 4) else if n = 62 then CHR ''+'' else CHR ''/'')"

definition b64_value :: "char \<Rightarrow> nat option" where
  "b64_value c = (let n = (of_char c :: nat) in
     if 65 \<le> n \<and> n \<le> 90 then Some (n - 65) else if 97 \<le> n \<and> n \<le> 122 then Some (n - 71)
     else if 48 \<le> n \<and> n \<le> 57 then Some (n + 4) else if n = 43 then Some 62
     else if n = 47 then Some 63 else None)"

abbreviation pad :: char where "pad \<equiv> CHR ''=''"

fun b64_encode_bytes :: "nat list \<Rightarrow> string" where
  "b64_encode_bytes [] = []"
| "b64_encode_bytes [a] = [b64_digit (a div 4), b64_digit (a mod 4 * 16), pad, pad]"
| "b64_encode_bytes [a, b] =
     [b64_digit (a div 4), b64_digit (a mod 4 * 16 + b div 16), b64_digit (b mod 16 * 4), pad]"
| "b64_encode_bytes (a # b # c # bs) =
     [b64_digit (a div 4), b64_digit (a mod 4 * 16 + b div 16), b64_digit (b mod 16 * 4 + c div 64),
      b64_digit (c mod 64)] @ b64_encode_bytes bs"

fun b64_decode_bytes :: "string \<Rightarrow> nat list option" where
  "b64_decode_bytes [] = Some []"
| "b64_decode_bytes (w # x # y # z # s) = do {
     i \<leftarrow> b64_value w; j \<leftarrow> b64_value x;
     if y = pad \<and> z = pad \<and> s = [] then Some [i * 4 + j div 16]
     else do {
       k \<leftarrow> b64_value y;
       if z = pad \<and> s = [] then Some [i * 4 + j div 16, j mod 16 * 16 + k div 4]
       else do {
         l \<leftarrow> b64_value z; bs \<leftarrow> b64_decode_bytes s;
         Some ([i * 4 + j div 16, j mod 16 * 16 + k div 4, k mod 4 * 64 + l] @ bs) } } }"
| "b64_decode_bytes _ = None"

definition b64_encode :: "string \<Rightarrow> string" where
  "b64_encode s = b64_encode_bytes (map of_char s)"

definition b64_decode :: "string \<Rightarrow> string option" where
  "b64_decode s = map_option (map char_of) (b64_decode_bytes (filter (\<lambda>c. c \<notin> {CHR 0x0A, CHR 0x0D}) s))"

section \<open>Decoding what was encoded\<close>

lemma b64_value_digit [simp]: "n < 64 \<Longrightarrow> b64_value (b64_digit n) = Some n"
  by (auto simp: b64_value_def b64_digit_def Let_def)

lemma b64_digit_plain: "n < 64 \<Longrightarrow> b64_digit n \<noteq> CHR 0x0A \<and> b64_digit n \<noteq> CHR 0x0D \<and> b64_digit n \<noteq> pad"
  using b64_value_digit [of n] by (auto simp: b64_value_def)

lemma b64_encode_no_breaks:
  "\<forall>a \<in> set bs. a < 256 \<Longrightarrow> filter (\<lambda>c. c \<notin> {CHR 0x0A, CHR 0x0D}) (b64_encode_bytes bs) = b64_encode_bytes bs"
proof (induction bs rule: b64_encode_bytes.induct)
  case (4 a b c bs)
  have "a div 4 < 64" "a mod 4 * 16 + b div 16 < 64" "b mod 16 * 4 + c div 64 < 64" "c mod 64 < 64"
    using "4.prems" by (auto simp: less_mult_imp_div_less)
  with 4 show ?case by (simp add: b64_digit_plain)
next
  case (3 a b)
  have "a div 4 < 64" "a mod 4 * 16 + b div 16 < 64" "b mod 16 * 4 < 64"
    using "3.prems" by (auto simp: less_mult_imp_div_less)
  then show ?case by (simp add: b64_digit_plain)
next
  case (2 a)
  have "a div 4 < 64" "a mod 4 * 16 < 64"
    using "2.prems" by (auto simp: less_mult_imp_div_less)
  then show ?case by (simp add: b64_digit_plain)
qed simp

lemma small: "n < k * m \<Longrightarrow> n div k < m" for n k m :: nat
  by (simp add: less_mult_imp_div_less mult.commute)

lemma b64_bytes_roundtrip:
  "\<forall>a \<in> set bs. a < 256 \<Longrightarrow> b64_decode_bytes (b64_encode_bytes bs) = Some bs"
proof (induction bs rule: b64_encode_bytes.induct)
  case (4 a b c bs)
  have lt: "a < 256" "b < 256" "c < 256" using "4.prems" by simp_all
  have r: "a div 4 < 64" "a mod 4 * 16 + b div 16 < 64" "b mod 16 * 4 + c div 64 < 64" "c mod 64 < 64"
    using "4.prems" by (auto simp: less_mult_imp_div_less)
  have e: "a div 4 * 4 + (a mod 4 * 16 + b div 16) div 16 = a"
      "(a mod 4 * 16 + b div 16) mod 16 * 16 + (b mod 16 * 4 + c div 64) div 4 = b"
      "(b mod 16 * 4 + c div 64) mod 4 * 64 + c mod 64 = c"
    using small [of b 16 16] small [of c 64 4] lt by simp_all
  show ?case using 4 r(2-) e b64_value_digit [OF r(1)] by (simp add: b64_digit_plain)
next
  case (3 a b)
  have lt: "a < 256" "b < 256" using "3.prems" by simp_all
  have r: "a div 4 < 64" "a mod 4 * 16 + b div 16 < 64" "b mod 16 * 4 < 64"
    using "3.prems" by (auto simp: less_mult_imp_div_less)
  have e: "a div 4 * 4 + (a mod 4 * 16 + b div 16) div 16 = a"
      "(a mod 4 * 16 + b div 16) mod 16 * 16 + b mod 16 * 4 div 4 = b"
    using small [of b 16 16] lt by simp_all
  show ?case using r(2-) e b64_value_digit [OF r(1)] by (simp add: b64_digit_plain)
next
  case (2 a)
  have r: "a div 4 < 64" "a mod 4 * 16 < 64"
    using "2.prems" by (auto simp: less_mult_imp_div_less)
  have e: "a div 4 * 4 + a mod 4 * 16 div 16 = a"
    by presburger
  show ?case using r(2-) e b64_value_digit [OF r(1)] by simp
qed simp

lemma b64_roundtrip: "b64_decode (b64_encode s) = Some s"
  using b64_encode_no_breaks [of "map of_char s"] b64_bytes_roundtrip [of "map of_char s"]
  by (simp add: b64_decode_def b64_encode_def comp_def)

end
