(* ===== verification/Mgmt.thy ===== *)
theory Mgmt
  imports QueryApi Auth Base64
begin

text \<open>
  \<open>cmd/queryapi/mgmt_handlers.go\<close>: the login handler and the management handlers of
  applications, alert rules, cohorts, experiments and organisations, over the statements of
  \<open>Postgres\<close>: reads go to a replica, writes to the primary.  \<open>now\<close> is the clock in
  milliseconds and \<open>fresh\<close> the UUID the handler generates, 36 characters long.
  \<open>mgmt_handle\<close> is the router of \<open>mountMgmtRoutes\<close>, which mounts no middleware.
\<close>

section \<open>The JSON of the models\<close>

definition app_json :: "app \<Rightarrow> json" where
  "app_json a = JObj (obj_fields
     [(''id'', fstr (app_ID a)), (''org_id'', fstr (app_OrgID a)), (''name'', fstr (app_Name a)),
      (''api_key'', fstr (app_APIKey a)), (''rps'', Some (JNum (app_RPS a))), (''burst'', fint (app_Burst a)),
      (''active'', Some (JBool (app_Active a))), (''created_at'', fstr (format_rfc3339 (app_CreatedAt a)))])"

definition alert_json :: "alert_rule \<Rightarrow> json" where
  "alert_json r = JObj (obj_fields
     [(''id'', fstr (ar_ID r)), (''app_id'', fstr (ar_AppID r)), (''name'', fstr (ar_Name r)),
      (''metric_name'', fstr (ar_MetricName r)), (''condition'', fstr (ar_Condition r)),
      (''threshold'', Some (JNum (ar_Threshold r))), (''window_mins'', fint (ar_WindowMins r)),
      (''channels'', fstrings (ar_Channels r)), (''webhook_url'', fstr (ar_WebhookURL r)),
      (''email_to'', fstrings (ar_EmailTo r)), (''active'', Some (JBool (ar_Active r))),
      (''created_at'', fstr (format_rfc3339 (ar_CreatedAt r)))])"

definition decode_alert :: "json \<Rightarrow> alert_rule option" where
  "decode_alert j = do {
     m \<leftarrow> jobj j;
     i \<leftarrow> to_string [] (jvals ''id'' m); a \<leftarrow> to_string [] (jvals ''app_id'' m);
     n \<leftarrow> to_string [] (jvals ''name'' m); mn \<leftarrow> to_string [] (jvals ''metric_name'' m);
     c \<leftarrow> to_string [] (jvals ''condition'' m); th \<leftarrow> to_float 0 (jvals ''threshold'' m);
     w \<leftarrow> to_int 0 (jvals ''window_mins'' m); ch \<leftarrow> to_strings (jvals ''channels'' m);
     u \<leftarrow> to_string [] (jvals ''webhook_url'' m); e \<leftarrow> to_strings (jvals ''email_to'' m);
     act \<leftarrow> to_bool False (jvals ''active'' m); ct \<leftarrow> to_time zero_time (jvals ''created_at'' m);
     Some \<lparr>ar_ID = i, ar_AppID = a, ar_Name = n, ar_MetricName = mn, ar_Condition = c, ar_Threshold = th,
       ar_WindowMins = w, ar_Channels = ch, ar_WebhookURL = u, ar_EmailTo = e, ar_Active = act, ar_CreatedAt = ct\<rparr> }"

definition cohort_json :: "cohort_definition \<Rightarrow> json" where
  "cohort_json c = JObj (obj_fields
     [(''id'', fstr (co_ID c)), (''app_id'', fstr (co_AppID c)), (''name'', fstr (co_Name c)),
      (''description'', ostr (co_Description c)), (''filter_sql'', ostr (co_FilterSQL c)),
      (''user_count'', fint (co_UserCount c)), (''created_at'', fstr (format_rfc3339 (co_CreatedAt c)))])"

definition decode_cohort_def :: "json \<Rightarrow> cohort_definition option" where
  "decode_cohort_def j = do {
     m \<leftarrow> jobj j;
     i \<leftarrow> to_string [] (jvals ''id'' m); a \<leftarrow> to_string [] (jvals ''app_id'' m);
     n \<leftarrow> to_string [] (jvals ''name'' m); d \<leftarrow> to_string [] (jvals ''description'' m);
     f \<leftarrow> to_string [] (jvals ''filter_sql'' m); u \<leftarrow> to_int 0 (jvals ''user_count'' m);
     ct \<leftarrow> to_time zero_time (jvals ''created_at'' m);
     Some \<lparr>co_ID = i, co_AppID = a, co_Name = n, co_Description = d, co_FilterSQL = f, co_UserCount = u,
       co_CreatedAt = ct\<rparr> }"

text \<open>A \<open>[]byte\<close>: a base64 text, or an array of byte values.\<close>

definition to_byte :: "json \<Rightarrow> char option" where
  "to_byte j = (case to_int 0 [j] of None \<Rightarrow> None
     | Some i \<Rightarrow> if 0 \<le> i \<and> i < 256 then Some (char_of (nat i)) else None)"

fun to_bytes :: "string option \<Rightarrow> json list \<Rightarrow> string option option" where
  "to_bytes z [] = Some z"
| "to_bytes z (JNull # vs) = to_bytes None vs"
| "to_bytes z (JStr s # vs) = (case b64_decode s of None \<Rightarrow> None | Some bs \<Rightarrow> to_bytes (Some bs) vs)"
| "to_bytes z (JArr xs # vs) = (case those (map to_byte xs) of None \<Rightarrow> None | Some bs \<Rightarrow> to_bytes (Some bs) vs)"
| "to_bytes z (_ # vs) = None"

definition otime :: "int option \<Rightarrow> json option" where
  "otime t = map_option (\<lambda>t. JStr (format_rfc3339 t)) t"

definition experiment_json :: "ab_experiment \<Rightarrow> json" where
  "experiment_json e = JObj (obj_fields
     [(''id'', fstr (ex_ID e)), (''app_id'', fstr (ex_AppID e)), (''name'', fstr (ex_Name e)),
      (''description'', ostr (ex_Description e)), (''status'', fstr (ex_Status e)),
      (''goal_event'', ostr (ex_GoalEvent e)),
      (''variants'', (case ex_Variants e of None \<Rightarrow> None | Some v \<Rightarrow> ostr (b64_encode v))),
      (''start_at'', otime (ex_StartAt e)), (''end_at'', otime (ex_EndAt e)),
      (''created_at'', fstr (format_rfc3339 (ex_CreatedAt e)))])"

definition decode_experiment :: "json \<Rightarrow> ab_experiment option" where
  "decode_experiment j = do {
     m \<leftarrow> jobj j;
     i \<leftarrow> to_string [] (jvals ''id'' m); a \<leftarrow> to_string [] (jvals ''app_id'' m);
     n \<leftarrow> to_string [] (jvals ''name'' m); d \<leftarrow> to_string [] (jvals ''description'' m);
     s \<leftarrow> to_string [] (jvals ''status'' m); g \<leftarrow> to_string [] (jvals ''goal_event'' m);
     v \<leftarrow> to_bytes None (jvals ''variants'' m); sa \<leftarrow> to_time_ptr None (jvals ''start_at'' m);
     ea \<leftarrow> to_time_ptr None (jvals ''end_at'' m); ct \<leftarrow> to_time zero_time (jvals ''created_at'' m);
     Some \<lparr>ex_ID = i, ex_AppID = a, ex_Name = n, ex_Description = d, ex_Status = s, ex_GoalEvent = g,
       ex_Variants = v, ex_StartAt = sa, ex_EndAt = ea, ex_CreatedAt = ct\<rparr> }"

definition org_json :: "org \<Rightarrow> json" where
  "org_json r = JObj (obj_fields
     [(''id'', fstr (org_ID r)), (''name'', fstr (org_Name r)), (''plan'', fstr (org_Plan r)),
      (''created_at'', fstr (format_rfc3339 (org_CreatedAt r)))])"

definition decode_org :: "json \<Rightarrow> org option" where
  "decode_org j = do {
     m \<leftarrow> jobj j;
     i \<leftarrow> to_string [] (jvals ''id'' m); n \<leftarrow> to_string [] (jvals ''name'' m);
     p \<leftarrow> to_string [] (jvals ''plan'' m); ct \<leftarrow> to_time zero_time (jvals ''created_at'' m);
     Some \<lparr>org_ID = i, org_Name = n, org_Plan = p, org_CreatedAt = ct\<rparr> }"

section \<open>Login\<close>

definition authLogin ::
  "jwt_lib \<Rightarrow> auth_config \<Rightarrow> int \<Rightarrow> request \<Rightarrow> pg_client \<Rightarrow> response \<times> pg_client" where
  "authLogin J cfg now rq pg =
     (case body_string (rq_body rq) ''api_key'' of
        None \<Rightarrow> (writeError 400 ''api_key required'', pg)
      | Some k \<Rightarrow>
          if k = [] then (writeError 400 ''api_key required'', pg)
          else (let (db, pg') = pg_read pg in
            (case GetAppByAPIKey db k of
               Inl _ \<Rightarrow> (writeError 401 ''invalid api_key'', pg')
             | Inr a \<Rightarrow>
                 (case GenerateToken J cfg (now * 1000000) (app_OrgID a) (app_ID a) ''admin'' of
                    Inl _ \<Rightarrow> (writeError 500 ''token generation failed'', pg')
                  | Inr token \<Rightarrow> (writeJSON 200 (jmap [(''app_id'', app_ID a),
                      (''expires'', format_rfc3339 ((now + 86400000) div 1000 * 1000)),
                      (''org_id'', app_OrgID a), (''token'', token)]), pg')))))"

section \<open>The shapes the handlers share\<close>

text \<open>A write that is answered by its error or by a fixed response.\<close>

definition write_answer :: "(go_error option \<times> pg_db) \<Rightarrow> string \<Rightarrow> response \<Rightarrow> pg_client \<Rightarrow> response \<times> pg_client" where
  "write_answer r msg resp pg =
     (case r of (Some _, db) \<Rightarrow> (writeError 500 msg, pg\<lparr>pg_write := db\<rparr>)
              | (None, db) \<Rightarrow> (resp, pg\<lparr>pg_write := db\<rparr>))"

definition list_answer :: "(go_error + 'a list) \<Rightarrow> string \<Rightarrow> ('a \<Rightarrow> json) \<Rightarrow> response" where
  "list_answer r msg enc = (case r of
      Inl _ \<Rightarrow> writeError 500 msg | Inr xs \<Rightarrow> writeJSON 200 (JArr (map enc xs)))"

definition updated :: "string \<Rightarrow> response" where
  "updated i = writeJSON 200 (jmap [(''id'', i), (''status'', ''updated'')])"

section \<open>Applications\<close>

definition mgmt_listApps :: "pg_client \<Rightarrow> response \<times> pg_client" where
  "mgmt_listApps pg = (let (db, pg') = pg_read pg in
     (list_answer (ListApps db) ''failed to list apps'' app_json, pg'))"

text \<open>Two UUIDs are generated, for the id and for the key.\<close>

definition mgmt_createApp :: "int \<Rightarrow> string \<Rightarrow> string \<Rightarrow> request \<Rightarrow> pg_client \<Rightarrow> response \<times> pg_client" where
  "mgmt_createApp now fresh fresh2 rq pg =
     (case (body_string (rq_body rq) ''org_id'', body_string (rq_body rq) ''name'') of
        (Some orgID, Some name) \<Rightarrow>
          if name = [] then (writeError 400 ''name required'', pg)
          else let a = \<lparr>app_ID = fresh, app_OrgID = orgID, app_Name = name, app_APIKey = ''pk_live_'' @ take 20 fresh2,
                        app_RPS = 10000, app_Burst = 50000, app_Active = True, app_CreatedAt = now\<rparr>
            in write_answer (CreateApp (pg_write pg) a) ''failed to create app'' (writeJSON 201 (app_json a)) pg
      | _ \<Rightarrow> (writeError 400 ''name required'', pg))"

definition decode_app_update :: "json \<Rightarrow> (string \<times> f64 \<times> int) option" where
  "decode_app_update j = do {
     m \<leftarrow> jobj j;
     n \<leftarrow> to_string [] (jvals ''name'' m); r \<leftarrow> to_float 0 (jvals ''rps'' m); b \<leftarrow> to_int 0 (jvals ''burst'' m);
     Some (n, r, b) }"

definition mgmt_updateApp :: "string \<Rightarrow> request \<Rightarrow> pg_client \<Rightarrow> response \<times> pg_client" where
  "mgmt_updateApp i rq pg =
     (case Option.bind (rq_body rq) decode_app_update of
        None \<Rightarrow> (writeError 400 ''invalid JSON'', pg)
      | Some (name, rps, burst) \<Rightarrow>
          write_answer (UpdateApp (pg_write pg) i name rps burst) ''update failed'' (updated i) pg)"

definition mgmt_deleteApp :: "string \<Rightarrow> pg_client \<Rightarrow> response \<times> pg_client" where
  "mgmt_deleteApp i pg = write_answer (DeactivateApp (pg_write pg) i) ''deactivate failed'' (status_only 204) pg"

definition mgmt_rotateAPIKey :: "string \<Rightarrow> string \<Rightarrow> pg_client \<Rightarrow> response \<times> pg_client" where
  "mgmt_rotateAPIKey fresh i pg =
     (let newKey = ''pk_live_'' @ take 32 fresh in
      write_answer (RotateAPIKey (pg_write pg) i newKey) ''rotation failed''
        (writeJSON 200 (jmap [(''api_key'', newKey), (''app_id'', i)])) pg)"

section \<open>Alert rules, cohorts, experiments, organisations\<close>

definition mgmt_listAlerts :: "string \<Rightarrow> pg_client \<Rightarrow> response \<times> pg_client" where
  "mgmt_listAlerts appID pg =
     (if appID = [] then (writeError 400 ''app_id required'', pg)
      else let (db, pg') = pg_read pg in (list_answer (ListAlertRules db appID) ''failed to list alerts'' alert_json, pg'))"

definition mgmt_createAlert :: "int \<Rightarrow> string \<Rightarrow> request \<Rightarrow> pg_client \<Rightarrow> response \<times> pg_client" where
  "mgmt_createAlert now fresh rq pg =
     (case Option.bind (rq_body rq) decode_alert of
        None \<Rightarrow> (writeError 400 ''invalid JSON'', pg)
      | Some r0 \<Rightarrow>
          if ar_AppID r0 = [] \<or> ar_Name r0 = [] \<or> ar_MetricName r0 = []
          then (writeError 400 ''app_id, name, metric_name required'', pg)
          else let r = r0\<lparr>ar_ID := fresh, ar_Active := True, ar_CreatedAt := now\<rparr>
            in write_answer (CreateAlertRule (pg_write pg) r) ''failed to create alert'' (writeJSON 201 (alert_json r)) pg)"

definition mgmt_updateAlert :: "string \<Rightarrow> request \<Rightarrow> pg_client \<Rightarrow> response \<times> pg_client" where
  "mgmt_updateAlert i rq pg =
     (case Option.bind (rq_body rq) decode_alert of
        None \<Rightarrow> (writeError 400 ''invalid JSON'', pg)
      | Some r \<Rightarrow> write_answer (UpdateAlertRule (pg_write pg) (r\<lparr>ar_ID := i\<rparr>)) ''update failed'' (updated i) pg)"

definition mgmt_deleteAlert :: "string \<Rightarrow> pg_client \<Rightarrow> response \<times> pg_client" where
  "mgmt_deleteAlert i pg = write_answer (DeleteAlertRule (pg_write pg) i) ''delete failed'' (status_only 204) pg"

definition mgmt_listCohorts :: "string \<Rightarrow> pg_client \<Rightarrow> response \<times> pg_client" where
  "mgmt_listCohorts appID pg =
     (if appID = [] then (writeError 400 ''app_id required'', pg)
      else let (db, pg') = pg_read pg in (list_answer (ListCohorts db appID) ''failed to list cohorts'' cohort_json, pg'))"

definition mgmt_createCohort :: "int \<Rightarrow> string \<Rightarrow> request \<Rightarrow> pg_client \<Rightarrow> response \<times> pg_client" where
  "mgmt_createCohort now fresh rq pg =
     (case Option.bind (rq_body rq) decode_cohort_def of
        None \<Rightarrow> (writeError 400 ''invalid JSON'', pg)
      | Some c0 \<Rightarrow>
          if co_AppID c0 = [] \<or> co_Name c0 = [] then (writeError 400 ''app_id and name required'', pg)
          else let c = c0\<lparr>co_ID := fresh, co_CreatedAt := now\<rparr>
            in write_answer (CreateCohort (pg_write pg) c) ''failed to create cohort'' (writeJSON 201 (cohort_json c)) pg)"

definition mgmt_deleteCohort :: "string \<Rightarrow> pg_client \<Rightarrow> response \<times> pg_client" where
  "mgmt_deleteCohort i pg = write_answer (DeleteCohort (pg_write pg) i) ''delete failed'' (status_only 204) pg"

definition mgmt_listExperiments :: "string \<Rightarrow> pg_client \<Rightarrow> response \<times> pg_client" where
  "mgmt_listExperiments appID pg =
     (if appID = [] then (writeError 400 ''app_id required'', pg)
      else let (db, pg') = pg_read pg in
        (list_answer (ListExperiments db appID) ''failed to list experiments'' experiment_json, pg'))"

definition mgmt_createExperiment :: "int \<Rightarrow> string \<Rightarrow> request \<Rightarrow> pg_client \<Rightarrow> response \<times> pg_client" where
  "mgmt_createExperiment now fresh rq pg =
     (case Option.bind (rq_body rq) decode_experiment of
        None \<Rightarrow> (writeError 400 ''invalid JSON'', pg)
      | Some e0 \<Rightarrow>
          if ex_AppID e0 = [] \<or> ex_Name e0 = [] then (writeError 400 ''app_id and name required'', pg)
          else let e = e0\<lparr>ex_ID := fresh, ex_Status := ''draft'', ex_CreatedAt := now\<rparr>
            in write_answer (CreateExperiment (pg_write pg) e) ''failed to create experiment''
                 (writeJSON 201 (experiment_json e)) pg)"

definition mgmt_updateExperiment :: "string \<Rightarrow> request \<Rightarrow> pg_client \<Rightarrow> response \<times> pg_client" where
  "mgmt_updateExperiment i rq pg =
     (case Option.bind (rq_body rq) decode_experiment of
        None \<Rightarrow> (writeError 400 ''invalid JSON'', pg)
      | Some e \<Rightarrow> write_answer (UpdateExperiment (pg_write pg) (e\<lparr>ex_ID := i\<rparr>)) ''update failed'' (updated i) pg)"

definition mgmt_deleteExperiment :: "string \<Rightarrow> pg_client \<Rightarrow> response \<times> pg_client" where
  "mgmt_deleteExperiment i pg = write_answer (DeleteExperiment (pg_write pg) i) ''delete failed'' (status_only 204) pg"

definition mgmt_getOrg :: "pg_client \<Rightarrow> response \<times> pg_client" where
  "mgmt_getOrg pg = (let (db, pg') = pg_read pg in
     (list_answer (ListOrgs db) ''failed to list orgs'' org_json, pg'))"

definition mgmt_createOrg :: "int \<Rightarrow> string \<Rightarrow> request \<Rightarrow> pg_client \<Rightarrow> response \<times> pg_client" where
  "mgmt_createOrg now fresh rq pg =
     (case Option.bind (rq_body rq) decode_org of
        None \<Rightarrow> (writeError 400 ''name required'', pg)
      | Some r0 \<Rightarrow>
          if org_Name r0 = [] then (writeError 400 ''name required'', pg)
          else let r = r0\<lparr>org_ID := fresh, org_Plan := ''free'', org_CreatedAt := now\<rparr>
            in write_answer (CreateOrg (pg_write pg) r) ''failed to create org'' (writeJSON 201 (org_json r)) pg)"

definition mgmt_updateOrg :: "string \<Rightarrow> request \<Rightarrow> pg_client \<Rightarrow> response \<times> pg_client" where
  "mgmt_updateOrg i rq pg =
     (case Option.bind (rq_body rq) decode_org of
        None \<Rightarrow> (writeError 400 ''invalid JSON'', pg)
      | Some r \<Rightarrow> write_answer (UpdateOrg (pg_write pg) (r\<lparr>org_ID := i\<rparr>)) ''update failed'' (updated i) pg)"

section \<open>The routes\<close>

text \<open>A request to one of the routes, with what the handler takes from the path and the
  query string, the clock and the UUIDs it generates.\<close>

datatype mgmt_route =
    GetApps | PostApps int string string | PutApp string | DeleteApp string | PostRotate string string
  | GetAlerts string | PostAlerts int string | PutAlert string | DeleteAlert string
  | GetCohorts string | PostCohorts int string | DelCohort string
  | GetExperiments string | PostExperiments int string | PutExperiment string | DelExperiment string
  | GetOrgs | PostOrgs int string | PutOrg string

fun mgmt_handle :: "mgmt_route \<Rightarrow> request \<Rightarrow> pg_client \<Rightarrow> response \<times> pg_client" where
  "mgmt_handle GetApps rq pg = mgmt_listApps pg"
| "mgmt_handle (PostApps now fresh fresh2) rq pg = mgmt_createApp now fresh fresh2 rq pg"
| "mgmt_handle (PutApp i) rq pg = mgmt_updateApp i rq pg"
| "mgmt_handle (DeleteApp i) rq pg = mgmt_deleteApp i pg"
| "mgmt_handle (PostRotate fresh i) rq pg = mgmt_rotateAPIKey fresh i pg"
| "mgmt_handle (GetAlerts appID) rq pg = mgmt_listAlerts appID pg"
| "mgmt_handle (PostAlerts now fresh) rq pg = mgmt_createAlert now fresh rq pg"
| "mgmt_handle (PutAlert i) rq pg = mgmt_updateAlert i rq pg"
| "mgmt_handle (DeleteAlert i) rq pg = mgmt_deleteAlert i pg"
| "mgmt_handle (GetCohorts appID) rq pg = mgmt_listCohorts appID pg"
| "mgmt_handle (PostCohorts now fresh) rq pg = mgmt_createCohort now fresh rq pg"
| "mgmt_handle (DelCohort i) rq pg = mgmt_deleteCohort i pg"
| "mgmt_handle (GetExperiments appID) rq pg = mgmt_listExperiments appID pg"
| "mgmt_handle (PostExperiments now fresh) rq pg = mgmt_createExperiment now fresh rq pg"
| "mgmt_handle (PutExperiment i) rq pg = mgmt_updateExperiment i rq pg"
| "mgmt_handle (DelExperiment i) rq pg = mgmt_deleteExperiment i pg"
| "mgmt_handle GetOrgs rq pg = mgmt_getOrg pg"
| "mgmt_handle (PostOrgs now fresh) rq pg = mgmt_createOrg now fresh rq pg"
| "mgmt_handle (PutOrg i) rq pg = mgmt_updateOrg i rq pg"

section \<open>What a request does to the database\<close>

text \<open>The rows that refer to an application refer to one that exists, and the ids of each
  table are unique.\<close>

definition wf_mgmt :: "pg_db \<Rightarrow> bool" where
  "wf_mgmt db \<longleftrightarrow> wf_db db
     \<and> distinct (map ar_ID (t_alerts db)) \<and> distinct (map co_ID (t_cohorts db)) \<and> distinct (map ex_ID (t_experiments db))
     \<and> ar_AppID ` set (t_alerts db) \<union> co_AppID ` set (t_cohorts db) \<union> ex_AppID ` set (t_experiments db)
          \<subseteq> app_ID ` set (t_apps db)
     \<and> list_all (\<lambda>r. condition_ok (ar_Condition r) \<and> ar_Channels r \<noteq> None) (t_alerts db)
     \<and> list_all (\<lambda>e. status_ok (ex_Status e)) (t_experiments db)"

lemma pg_write_read [simp]: "pg_write (snd (pg_read pg)) = pg_write pg"
  by (simp add: pg_read_def Let_def)

lemma write_answer_db [simp]: "pg_write (snd (write_answer r msg resp pg)) = snd r"
  by (auto simp: write_answer_def split: prod.splits option.splits)

text \<open>The tables the account statements leave alone.\<close>

lemma exec_frame: "(\<And>db. g (f db) = g db) \<Longrightarrow> g (snd (exec db ok f)) = g db"
  by (simp add: exec_def)

lemma app_ids_update: "app_ID ` set (map (\<lambda>a. if app_ID a = i then f a else a) as) = app_ID ` set as"
  if "\<And>a. app_ID (f a) = app_ID a"
  by (rule image_map_if_id) (rule that)

lemma account_op_frame:
  "t_alerts (run_account_op op db) = t_alerts db \<and> t_cohorts (run_account_op op db) = t_cohorts db
     \<and> t_experiments (run_account_op op db) = t_experiments db"
  by (cases op) (simp_all add: CreateApp_def UpdateApp_def DeactivateApp_def RotateAPIKey_def CreateOrgAndApp_def
      CreateOrg_def UpdateOrg_def exec_frame update_app_def Let_def)

lemma account_op_apps: "app_ID ` set (t_apps db) \<subseteq> app_ID ` set (t_apps (run_account_op op db))"
proof -
  have upd: "app_ID ` set (t_apps (update_app i f db)) = app_ID ` set (t_apps db)"
    if "\<And>a. app_ID (f a) = app_ID a" for i f
    using app_ids_update [of f i "t_apps db"] that by (simp add: update_app_def del: set_map)
  show ?thesis
    by (cases op) (simp_all add: CreateApp_def UpdateApp_def DeactivateApp_def RotateAPIKey_def upd CreateOrgAndApp_def
      CreateOrg_def UpdateOrg_def exec_def Let_def subset_insertI)
qed

lemma wf_mgmt_account: "wf_mgmt db \<Longrightarrow> wf_mgmt (run_account_op op db)"
  using wf_account_op [where db = db and op = op] account_op_frame [where db = db and op = op]
    account_op_apps [where db = db and op = op]
  unfolding wf_mgmt_def by (simp) blast

lemma wf_mgmt_apps:
  "wf_mgmt db \<Longrightarrow> wf_mgmt (snd (CreateApp db a))" "wf_mgmt db \<Longrightarrow> wf_mgmt (snd (UpdateApp db i n r b))"
  "wf_mgmt db \<Longrightarrow> wf_mgmt (snd (DeactivateApp db i))" "wf_mgmt db \<Longrightarrow> wf_mgmt (snd (RotateAPIKey db i k))"
  "wf_mgmt db \<Longrightarrow> wf_mgmt (snd (CreateOrg db org))" "wf_mgmt db \<Longrightarrow> wf_mgmt (snd (UpdateOrg db org))"
  using wf_mgmt_account [of db "OpCreateApp a"] wf_mgmt_account [of db "OpUpdateApp i n r b"]
    wf_mgmt_account [of db "OpDeactivate i"] wf_mgmt_account [of db "OpRotate i k"]
    wf_mgmt_account [of db "OpCreateOrg org"] wf_mgmt_account [of db "OpUpdateOrg org"] by simp_all

lemma wf_mgmt_alerts:
  assumes "wf_mgmt db"
  shows "wf_mgmt (snd (CreateAlertRule db r))" "wf_mgmt (snd (DeleteAlertRule db i))"
    "wf_mgmt (snd (UpdateAlertRule db r))"
proof -
  show "wf_mgmt (snd (CreateAlertRule db r))"
    using assms by (auto simp: CreateAlertRule_def exec_def wf_mgmt_def wf_db_def)
  show "wf_mgmt (snd (DeleteAlertRule db i))"
    using assms by (auto simp: DeleteAlertRule_def exec_def wf_mgmt_def wf_db_def distinct_map_filter list_all_iff)
  let ?f = "\<lambda>x. r\<lparr>ar_AppID := ar_AppID x, ar_CreatedAt := ar_CreatedAt x\<rparr>"
  let ?rows = "map (\<lambda>x. if ar_ID x = ar_ID r then ?f x else x) (t_alerts db)"
  have ids: "map ar_ID ?rows = map ar_ID (t_alerts db)" by (induction "t_alerts db") auto
  have apps: "ar_AppID ` set ?rows = ar_AppID ` set (t_alerts db)" by (rule image_map_if_id) simp
  have ok: "list_all (\<lambda>r. condition_ok (ar_Condition r) \<and> ar_Channels r \<noteq> None) ?rows"
    if upd: "condition_ok (ar_Condition r) \<and> ar_Channels r \<noteq> None \<or> ar_ID r \<notin> ar_ID ` set (t_alerts db)"
  proof -
    have "condition_ok (ar_Condition r) \<and> ar_Channels r \<noteq> None" if "x \<in> set (t_alerts db)" "ar_ID x = ar_ID r" for x
      using upd that by (metis imageI)
    then show ?thesis using assms by (auto simp: list_all_iff wf_mgmt_def)
  qed
  show "wf_mgmt (snd (UpdateAlertRule db r))"
    using assms ids apps ok
    by (simp add: UpdateAlertRule_def exec_def wf_mgmt_def wf_db_def del: map_map set_map image_set)
qed

lemma wf_mgmt_cohorts:
  "wf_mgmt db \<Longrightarrow> wf_mgmt (snd (CreateCohort db c))" "wf_mgmt db \<Longrightarrow> wf_mgmt (snd (DeleteCohort db i))"
  by (auto simp: CreateCohort_def DeleteCohort_def exec_def wf_mgmt_def wf_db_def distinct_map_filter)

lemma wf_mgmt_experiments:
  assumes "wf_mgmt db"
  shows "wf_mgmt (snd (CreateExperiment db e))" "wf_mgmt (snd (DeleteExperiment db i))"
    "wf_mgmt (snd (UpdateExperiment db e))"
proof -
  show "wf_mgmt (snd (CreateExperiment db e))"
    using assms by (auto simp: CreateExperiment_def exec_def wf_mgmt_def wf_db_def)
  show "wf_mgmt (snd (DeleteExperiment db i))"
    using assms by (auto simp: DeleteExperiment_def exec_def wf_mgmt_def wf_db_def distinct_map_filter list_all_iff)
  let ?f = "\<lambda>x. x\<lparr>ex_Name := coalesce (ex_Name e) (ex_Name x), ex_Status := coalesce (ex_Status e) (ex_Status x),
               ex_GoalEvent := coalesce (ex_GoalEvent e) (ex_GoalEvent x)\<rparr>"
  let ?rows = "map (\<lambda>x. if ex_ID x = ex_ID e then ?f x else x) (t_experiments db)"
  have ids: "map ex_ID ?rows = map ex_ID (t_experiments db)" by (rule map_if_id) simp
  have apps: "ex_AppID ` set ?rows = ex_AppID ` set (t_experiments db)" by (rule image_map_if_id) simp
  have ok: "list_all (\<lambda>e. status_ok (ex_Status e)) ?rows"
    if upd: "ex_Status e = [] \<or> status_ok (ex_Status e) \<or> ex_ID e \<notin> ex_ID ` set (t_experiments db)"
  proof -
    have "ex_Status e = [] \<or> status_ok (ex_Status e)" if "x \<in> set (t_experiments db)" "ex_ID x = ex_ID e" for x
      using upd that by (metis imageI)
    then show ?thesis using assms by (auto simp: list_all_iff wf_mgmt_def coalesce_def)
  qed
  show "wf_mgmt (snd (UpdateExperiment db e))"
    using assms ids apps ok
    by (simp add: UpdateExperiment_def exec_def wf_mgmt_def wf_db_def del: map_map set_map image_set)
qed

lemmas wf_mgmt_writes = wf_mgmt_apps wf_mgmt_alerts wf_mgmt_cohorts wf_mgmt_experiments

lemma wf_mgmt_handle: "wf_mgmt (pg_write pg) \<Longrightarrow> wf_mgmt (pg_write (snd (mgmt_handle r rq pg)))"
proof (cases r)
  case (PostApps now fresh fresh2)
  assume "wf_mgmt (pg_write pg)"
  then show ?thesis
    unfolding PostApps mgmt_handle.simps mgmt_createApp_def
    by (simp add: Let_def wf_mgmt_writes split: option.split)
qed (simp_all add: mgmt_listApps_def mgmt_updateApp_def mgmt_deleteApp_def mgmt_rotateAPIKey_def mgmt_listAlerts_def
    mgmt_createAlert_def mgmt_updateAlert_def mgmt_deleteAlert_def mgmt_listCohorts_def mgmt_createCohort_def
    mgmt_deleteCohort_def mgmt_listExperiments_def mgmt_createExperiment_def mgmt_updateExperiment_def
    mgmt_deleteExperiment_def mgmt_getOrg_def mgmt_createOrg_def mgmt_updateOrg_def
    wf_mgmt_writes Let_def case_prod_unfold split: option.split)



section \<open>Who can do what\<close>

text \<open>C16: anyone becomes an administrator of any application: the list of applications is
  answered to a request without any credential, it spells out the API key of every active
  application, and logging in with that key yields the token of an administrator of the
  application and its organisation.\<close>

theorem anyone_logs_in:
  assumes "wf_db db" "db_up db" "a \<in> set (t_apps db)" "app_Active a" "app_APIKey a \<noteq> []"
    and "pg_reads pg = []" "pg_write pg = db"
    and "GenerateToken J cfg (now * 1000000) (app_OrgID a) (app_ID a) ''admin'' = Inr token"
  shows "\<exists>as. rs_body (fst (mgmt_handle GetApps rq pg)) = Some (JArr as) \<and>
     (\<exists>m. JObj m \<in> set as \<and> jvals ''id'' m = [JStr (app_ID a)] \<and> jvals ''api_key'' m = [JStr (app_APIKey a)]) \<and>
     (let r = fst (authLogin J cfg now (rq\<lparr>rq_body := Some (jmap [(''api_key'', app_APIKey a)])\<rparr>) pg) in
      rs_status r = 200 \<and> (\<exists>b. rs_body r = Some (JObj b) \<and> map_of b ''token'' = Some (JStr token)))"
proof -
  have apps: "fst (mgmt_handle GetApps rq pg)
      = writeJSON 200 (JArr (map app_json (newest_first app_CreatedAt (filter app_Active (t_apps db)))))"
    using assms by (simp add: mgmt_listApps_def pg_read_def ListApps_def select_def list_answer_def)
  have mem: "app_json a \<in> set (map app_json (newest_first app_CreatedAt (filter app_Active (t_apps db))))"
    using assms(3,4) by (simp add: newest_first_def)
  obtain m where m: "app_json a = JObj m" "jvals ''id'' m = [JStr (app_ID a)]" "jvals ''api_key'' m = [JStr (app_APIKey a)]"
    by (simp add: app_json_def jvals_def to_lower_def to_lower_char_def)
  have "GetAppByAPIKey db (app_APIKey a) = Inr a"
    using GetAppByAPIKey_found assms(1-4) by blast
  then have login: "fst (authLogin J cfg now (rq\<lparr>rq_body := Some (jmap [(''api_key'', app_APIKey a)])\<rparr>) pg)
      = writeJSON 200 (jmap [(''app_id'', app_ID a), (''expires'', format_rfc3339 ((now + 86400000) div 1000 * 1000)),
          (''org_id'', app_OrgID a), (''token'', token)])"
    using assms(5-8) by (simp add: authLogin_def body_string_def jmap_def jobj_def jvals_def to_lower_def to_lower_char_def
        pg_read_def)
  show ?thesis
    using mem m unfolding apps login by (auto simp: writeJSON_def jmap_def simp del: set_map intro!: exI [of _ m])
qed

theorem anyone_logs_in_witness:
  "\<exists>as. rs_body (fst (mgmt_handle GetApps blank_request
        (demo_pg\<lparr>pg_write := demo_db\<lparr>t_apps := [demo_app\<lparr>app_ID := ''b''\<rparr>]\<rparr>\<rparr>))) = Some (JArr as) \<and>
     (\<exists>m. JObj m \<in> set as \<and> jvals ''id'' m = [JStr ''b''] \<and> jvals ''api_key'' m = [JStr ''old'']) \<and>
     (let r = fst (authLogin demo_jwt demo_cfg 0 (blank_request\<lparr>rq_body := Some (jmap [(''api_key'', ''old'')])\<rparr>)
          (demo_pg\<lparr>pg_write := demo_db\<lparr>t_apps := [demo_app\<lparr>app_ID := ''b''\<rparr>]\<rparr>\<rparr>)) in
      rs_status r = 200 \<and> (\<exists>b. rs_body r = Some (JObj b) \<and> map_of b ''token'' = Some (JStr ''ts'')))"
  using anyone_logs_in [of "demo_db\<lparr>t_apps := [demo_app\<lparr>app_ID := ''b''\<rparr>]\<rparr>" "demo_app\<lparr>app_ID := ''b''\<rparr>"
      "demo_pg\<lparr>pg_write := demo_db\<lparr>t_apps := [demo_app\<lparr>app_ID := ''b''\<rparr>]\<rparr>\<rparr>" demo_jwt demo_cfg 0 "''ts''" blank_request]
    demo_token
  by (simp add: demo_pg_def demo_db_def demo_app_def empty_db_def wf_db_def plan_ok_def)

section \<open>Alert rules over their life\<close>

text \<open>A rule without channels cannot be created: the field is decoded to nil, which the column
  refuses.\<close>

lemma alert_needs_channels:
  assumes "Option.bind (rq_body rq) decode_alert = Some r" "ar_Channels r = None"
    "ar_AppID r \<noteq> []" "ar_Name r \<noteq> []" "ar_MetricName r \<noteq> []"
  shows "rs_status (fst (mgmt_createAlert now fresh rq pg)) = 500"
  using assms by (simp add: mgmt_createAlert_def CreateAlertRule_def exec_def write_answer_def)

text \<open>An update without the \<open>active\<close> member switches the rule off, and the answer does not
  say so.\<close>

lemma alert_update_disables:
  assumes "Option.bind (rq_body rq) decode_alert = Some r" "\<not> ar_Active r"
    "rs_status (fst (mgmt_updateAlert i rq pg)) = 200"
  shows "list_all (\<lambda>x. ar_ID x = i \<longrightarrow> \<not> ar_Active x) (t_alerts (pg_write (snd (mgmt_updateAlert i rq pg))))"
  using assms
  by (simp add: mgmt_updateAlert_def UpdateAlertRule_def exec_def write_answer_def list.pred_map comp_def split: if_splits)
    (auto simp: list_all_iff)

text \<open>With no replica, a rule that was created is in the next list of its application,
  under the id of the answer, until it is deleted.\<close>

theorem alert_created_listed:
  assumes "rs_status (fst (mgmt_createAlert now fresh rq pg)) = 201" "pg_reads pg = []"
    and "pg1 = snd (mgmt_createAlert now fresh rq pg)"
    and "Option.bind (rq_body rq) decode_alert = Some r"
  shows "\<exists>as. rs_body (fst (mgmt_listAlerts (ar_AppID r) pg1)) = Some (JArr as)
       \<and> alert_json (r\<lparr>ar_ID := fresh, ar_Active := True, ar_CreatedAt := now\<rparr>) \<in> set as
       \<and> rs_body (fst (mgmt_createAlert now fresh rq pg))
           = Some (alert_json (r\<lparr>ar_ID := fresh, ar_Active := True, ar_CreatedAt := now\<rparr>))
       \<and> (\<exists>bs. rs_body (fst (mgmt_listAlerts (ar_AppID r) (snd (mgmt_deleteAlert fresh pg1)))) = Some (JArr bs)
            \<and> as = bs @ [alert_json (r\<lparr>ar_ID := fresh, ar_Active := True, ar_CreatedAt := now\<rparr>)])"
proof -
  let ?r = "r\<lparr>ar_ID := fresh, ar_Active := True, ar_CreatedAt := now\<rparr>"
  have ok: "ar_AppID r \<noteq> []" "ar_Name r \<noteq> []" "ar_MetricName r \<noteq> []" "db_up (pg_write pg)"
    "fresh \<notin> ar_ID ` set (t_alerts (pg_write pg))"
    and res: "mgmt_createAlert now fresh rq pg = (writeJSON 201 (alert_json ?r),
      pg\<lparr>pg_write := pg_write pg\<lparr>t_alerts := t_alerts (pg_write pg) @ [?r]\<rparr>\<rparr>)"
    using assms(1,4) by (auto simp: mgmt_createAlert_def Let_def CreateAlertRule_def exec_def write_answer_def split: if_splits)
  have keep: "filter (\<lambda>x. ar_ID x \<noteq> fresh) (t_alerts (pg_write pg)) = t_alerts (pg_write pg)"
    using ok(5) by (auto simp: filter_id_conv)
  show ?thesis
    using ok assms(2) unfolding assms(3) res
    by (simp add: mgmt_listAlerts_def mgmt_deleteAlert_def DeleteAlertRule_def exec_def write_answer_def pg_read_def
        ListAlertRules_def select_def list_answer_def keep writeJSON_def)
qed

text \<open>Rotating the key of an application that does not exist is answered with a key that no
  request will ever be accepted with.\<close>

lemma rotate_unknown_answers:
  assumes "db_up (pg_write pg)" "i \<notin> app_ID ` set (t_apps (pg_write pg))"
  shows "rs_status (fst (mgmt_rotateAPIKey fresh i pg)) = 200 \<and> pg_write (snd (mgmt_rotateAPIKey fresh i pg)) = pg_write pg"
proof -
  have "map (\<lambda>a. if app_ID a = i then f a else a) (t_apps (pg_write pg)) = t_apps (pg_write pg)" for f
    using assms(2) by (intro map_idI) (auto simp: image_iff)
  with assms show ?thesis
    by (simp add: mgmt_rotateAPIKey_def Let_def RotateAPIKey_def exec_def update_app_def write_answer_def)
qed

definition alert_body :: json where
  "alert_body = JObj [(''app_id'', JStr ''a''), (''name'', JStr ''n''), (''metric_name'', JStr ''dau''),
     (''condition'', JStr ''gt''), (''channels'', JArr [JStr ''webhook''])]"

definition alert_request :: request where
  "alert_request = blank_request\<lparr>rq_body := Some alert_body\<rparr>"

definition alert_decoded :: alert_rule where
  "alert_decoded = \<lparr>ar_ID = [], ar_AppID = ''a'', ar_Name = ''n'', ar_MetricName = ''dau'', ar_Condition = ''gt'',
     ar_Threshold = 0, ar_WindowMins = 0, ar_Channels = Some [''webhook''], ar_WebhookURL = [], ar_EmailTo = None,
     ar_Active = False, ar_CreatedAt = zero_time\<rparr>"

lemma alert_request_decodes: "Option.bind (rq_body alert_request) decode_alert = Some alert_decoded"
  by (simp add: alert_request_def alert_body_def decode_alert_def jobj_def jvals_def to_lower_def to_lower_char_def
      to_strings_def alert_decoded_def)

theorem alert_created_listed_witness:
  "\<exists>as. rs_body (fst (mgmt_listAlerts ''a'' (snd (mgmt_createAlert 5 ''r'' alert_request demo_pg)))) = Some (JArr as)
     \<and> alert_json (alert_decoded\<lparr>ar_ID := ''r'', ar_Active := True, ar_CreatedAt := 5\<rparr>) \<in> set as"
proof -
  have "rs_status (fst (mgmt_createAlert 5 ''r'' alert_request demo_pg)) = 201"
    by (simp add: mgmt_createAlert_def alert_request_decodes CreateAlertRule_def exec_def write_answer_def demo_pg_def
        demo_db_def empty_db_def demo_app_def alert_decoded_def condition_ok_def Let_def)
  from alert_created_listed [OF this _ refl alert_request_decodes]
  show ?thesis by (auto simp: demo_pg_def alert_decoded_def)
qed

end
