(* ===== verification/Mongo.thy ===== *)
theory Mongo
  imports Gateway
begin

text \<open>
  Package \<open>internal/mongo\<close>: the archive of raw events, as what its calls do to the
  collection with the indexes of \<open>EnsureIndexes\<close>.  Writes go to the primary; reads name
  the member they are answered by, which may lag behind.  The documents of the archive are
  kept in the order of their insertion; \<open>created_at\<close>, by which documents expire after 90
  days, is the clock in milliseconds.  User profiles, whose updates take field paths from the
  caller, are in the theory \<open>Profiles\<close>.
\<close>

record raw_doc =
  rd_EventID :: string
  rd_AppID :: string
  rd_Event :: event
  rd_CreatedAt :: int

record mongo_db =
  mg_up :: bool
  mg_unique :: bool
  mg_raw :: "raw_doc list"

datatype read_pref = Primary | PrimaryPreferred | Secondary | SecondaryPreferred | Nearest

definition parseReadPreference :: "string \<Rightarrow> go_error + read_pref" where
  "parseReadPreference pref =
     (if pref = [] \<or> pref = ''primary'' then Inr Primary
      else if pref = ''primaryPreferred'' then Inr PrimaryPreferred
      else if pref = ''secondary'' then Inr Secondary
      else if pref = ''secondaryPreferred'' then Inr SecondaryPreferred
      else if pref = ''nearest'' then Inr Nearest
      else Inl (Errorf (''unknown read preference '' @ [CHR 0x22] @ pref @ [CHR 0x22])))"

section \<open>The archive\<close>

definition raw_doc_of :: "string \<Rightarrow> int \<Rightarrow> event \<Rightarrow> raw_doc" where
  "raw_doc_of appID now e = \<lparr>rd_EventID = ev_EventID e, rd_AppID = appID, rd_Event = e, rd_CreatedAt = now\<rparr>"

text \<open>\<open>InsertMany\<close>, unordered: a document whose event id is taken is left out and the rest
  goes on.  The result tells whether one was.\<close>

fun insert_docs :: "bool \<Rightarrow> raw_doc list \<Rightarrow> raw_doc list \<Rightarrow> bool \<times> raw_doc list" where
  "insert_docs unique [] raw = (False, raw)"
| "insert_docs unique (d # ds) raw =
     (if unique \<and> rd_EventID d \<in> rd_EventID ` set raw
      then (True, snd (insert_docs unique ds raw))
      else insert_docs unique ds (raw @ [d]))"

definition InsertRawBatch :: "string \<Rightarrow> int \<Rightarrow> event list \<Rightarrow> mongo_db \<Rightarrow> go_error option \<times> mongo_db" where
  "InsertRawBatch appID now es db =
     (if es = [] then (None, db)
      else if \<not> mg_up db then (Some (Errorf ''insert raw batch''), db)
      else (None, db\<lparr>mg_raw := snd (insert_docs (mg_unique db) (map (raw_doc_of appID now) es) (mg_raw db))\<rparr>))"

definition GetRawEvents :: "mongo_db \<Rightarrow> string \<Rightarrow> int \<Rightarrow> int \<Rightarrow> nat \<Rightarrow> go_error + raw_doc list" where
  "GetRawEvents db appID fromMs toMs limit =
     (if \<not> mg_up db then Inl (Errorf ''mongo'')
      else let ds = sort_key (\<lambda>d. - ev_EventTime (rd_Event d)) (filter (\<lambda>d. rd_AppID d = appID
             \<and> fromMs \<le> ev_EventTime (rd_Event d) \<and> ev_EventTime (rd_Event d) \<le> toMs) (mg_raw db))
        in Inr (if limit = 0 then ds else take limit ds))"

text \<open>The unique index cannot be built over documents that share an id.\<close>

definition EnsureIndexes :: "mongo_db \<Rightarrow> go_error option \<times> mongo_db" where
  "EnsureIndexes db =
     (if mg_up db \<and> distinct (map rd_EventID (mg_raw db)) then (None, db\<lparr>mg_unique := True\<rparr>)
      else (Some (Errorf ''create raw_events indexes''), db))"

text \<open>The writes of the gateway, in the order in which they reach the server, each with the
  time it does; those of profiles do not concern the archive.\<close>

fun archive :: "(mongo_write \<times> int) list \<Rightarrow> mongo_db \<Rightarrow> mongo_db" where
  "archive [] db = db"
| "archive ((RawBatch appID es, now) # ws) db = archive ws (snd (InsertRawBatch appID now es db))"
| "archive ((ProfileUpsert appID userID traits, now) # ws) db = archive ws db"

section \<open>The archive keeps each event once\<close>

lemma insert_docs_unique:
  "distinct (map rd_EventID raw) \<Longrightarrow>
   distinct (map rd_EventID (snd (insert_docs True ds raw)))
   \<and> rd_EventID ` set (snd (insert_docs True ds raw)) = rd_EventID ` set raw \<union> rd_EventID ` set ds
   \<and> set raw \<subseteq> set (snd (insert_docs True ds raw)) \<and> set (snd (insert_docs True ds raw)) \<subseteq> set raw \<union> set ds"
proof (induction ds arbitrary: raw)
  case (Cons d ds)
  show ?case
  proof (cases "rd_EventID d \<in> rd_EventID ` set raw")
    case True
    with Cons.IH [OF Cons.prems] show ?thesis by auto
  next
    case False
    then have "distinct (map rd_EventID (raw @ [d]))" using Cons.prems by auto
    from Cons.IH [OF this] False show ?thesis by auto
  qed
qed simp

definition archived_ids :: "(mongo_write \<times> int) list \<Rightarrow> string set" where
  "archived_ids ws = (\<Union>w \<in> fst ` set ws. case w of RawBatch appID es \<Rightarrow> ev_EventID ` set es | ProfileUpsert _ _ _ \<Rightarrow> {})"

lemma archive_inv:
  "mg_up db \<Longrightarrow> mg_unique db \<Longrightarrow> distinct (map rd_EventID (mg_raw db)) \<Longrightarrow>
   distinct (map rd_EventID (mg_raw (archive ws db)))
   \<and> rd_EventID ` set (mg_raw (archive ws db)) = rd_EventID ` set (mg_raw db) \<union> archived_ids ws
   \<and> mg_up (archive ws db) \<and> set (mg_raw db) \<subseteq> set (mg_raw (archive ws db))"
proof (induction ws db rule: archive.induct)
  case (1 db)
  then show ?case by (simp add: archived_ids_def)
next
  case (2 appID es now ws db)
  let ?db = "snd (InsertRawBatch appID now es db)"
  have ids: "rd_EventID ` set (map (raw_doc_of appID now) es) = ev_EventID ` set es"
    by (force simp: raw_doc_of_def)
  have step: "mg_up ?db" "mg_unique ?db" "distinct (map rd_EventID (mg_raw ?db))"
    "rd_EventID ` set (mg_raw ?db) = rd_EventID ` set (mg_raw db) \<union> ev_EventID ` set es"
    "set (mg_raw db) \<subseteq> set (mg_raw ?db)"
    using "2.prems" insert_docs_unique [of "mg_raw db" "map (raw_doc_of appID now) es"] ids
    by (auto simp: InsertRawBatch_def simp del: set_map)
  have "archived_ids ((RawBatch appID es, now) # ws) = ev_EventID ` set es \<union> archived_ids ws"
    by (auto simp: archived_ids_def)
  with "2.IH" [OF step(1-3)] step(4,5) show ?case by auto
next
  case (3 appID userID traits now ws db)
  have "archived_ids ((ProfileUpsert appID userID traits, now) # ws) = archived_ids ws"
    by (auto simp: archived_ids_def)
  with 3 show ?case by simp
qed


text \<open>The index is on the event id alone: the event of one application whose id another one
  has used is missing from the archive, and no error is reported.\<close>

lemma archive_crosses_apps:
  assumes "mg_up db" "mg_unique db" "ev_EventID e \<in> rd_EventID ` set (mg_raw db)"
  shows "InsertRawBatch appID now [e] db = (None, db)"
  using assms by (simp add: InsertRawBatch_def raw_doc_of_def)

lemma GetRawEvents_bound:
  "GetRawEvents db appID f t n = Inr ds \<Longrightarrow> 0 < n \<Longrightarrow> length ds \<le> n \<and> (\<forall>d \<in> set ds. rd_AppID d = appID)"
  by (auto simp: GetRawEvents_def Let_def split: if_splits dest: in_set_takeD)

definition empty_mongo :: mongo_db where
  "empty_mongo = \<lparr>mg_up = True, mg_unique = False, mg_raw = []\<rparr>"


end
