(* ===== verification/Validator.thy ===== *)
theory Validator
  imports Prelude
begin

text \<open>
  Package \<open>internal/validator\<close>: the checks of query parameters.  The accumulated field
  errors are an association list with distinct keys, in the order of their first report
  (Go's map has no order, and \<open>Error\<close> joins them in any); the clock is an argument, in
  milliseconds.  No handler of the repository calls the package.
\<close>

type_synonym field_errors = "(string \<times> string) list"

datatype validation_error = ValidationError (ve_Fields: field_errors)

text \<open>\<open>errs[field] = msg\<close>.\<close>

fun set_err :: "string \<Rightarrow> string \<Rightarrow> field_errors \<Rightarrow> field_errors" where
  "set_err k v [] = [(k, v)]"
| "set_err k v ((k', v') # errs) = (if k = k' then (k, v) # errs else (k', v') # set_err k v errs)"

definition v_Error :: "validation_error \<Rightarrow> string" where
  "v_Error e = str_join ''; '' (map (\<lambda>(f, m). f @ '': '' @ m) (ve_Fields e))"

definition v_required :: "string \<Rightarrow> string \<Rightarrow> field_errors \<Rightarrow> field_errors" where
  "v_required field val errs = (if trim_space val = [] then set_err field ''required'' errs else errs)"

text \<open>The regular expression \<open>^[a-zA-Z0-9_-]{3,64}$\<close>.\<close>

definition app_id_char :: "char \<Rightarrow> bool" where
  "app_id_char c = (let n = (of_char c :: nat) in
     (97 \<le> n \<and> n \<le> 122) \<or> (65 \<le> n \<and> n \<le> 90) \<or> (48 \<le> n \<and> n \<le> 57) \<or> n = 95 \<or> n = 45)"

definition appIDRegexp :: "string \<Rightarrow> bool" where
  "appIDRegexp s \<longleftrightarrow> list_all app_id_char s \<and> 3 \<le> length s \<and> length s \<le> 64"

text \<open>The message has an en dash, three bytes in UTF-8.\<close>

definition v_appID :: "string \<Rightarrow> field_errors \<Rightarrow> field_errors" where
  "v_appID val errs =
     (if appIDRegexp val then errs
      else set_err ''app_id'' (''must be 3'' @ [CHR 0xE2, CHR 0x80, CHR 0x93]
        @ ''64 alphanumeric, underscore or hyphen characters'') errs)"

definition v_timeRange :: "int \<Rightarrow> int \<Rightarrow> int \<Rightarrow> field_errors \<Rightarrow> field_errors" where
  "v_timeRange now fromMs toMs errs =
     (let errs1 = (if fromMs > 0 \<and> toMs > 0 \<and> fromMs \<ge> toMs
                   then set_err ''time_range'' ''from_ms must be before to_ms'' errs else errs);
          maxFuture = now + 5 * 60000
      in if toMs > maxFuture then set_err ''to_ms'' ''to_ms cannot be more than 5 minutes in the future'' errs1
         else errs1)"

definition granularities :: "string list" where
  "granularities = [''minute'', ''hour'', ''day'', ''week'', ''month'']"

definition v_granularity :: "string \<Rightarrow> field_errors \<Rightarrow> field_errors" where
  "v_granularity val errs =
     (if val \<noteq> [] \<and> \<not> List.member granularities val
      then set_err ''granularity'' ''must be one of: minute, hour, day, week, month'' errs else errs)"

definition v_minLen :: "string \<Rightarrow> 'a list \<Rightarrow> int \<Rightarrow> field_errors \<Rightarrow> field_errors" where
  "v_minLen field xs m errs =
     (if int (length xs) < m then set_err field (''must have at least '' @ itoa m @ '' item(s)'') errs else errs)"

definition v_maxLen :: "string \<Rightarrow> 'a list \<Rightarrow> int \<Rightarrow> field_errors \<Rightarrow> field_errors" where
  "v_maxLen field xs m errs =
     (if int (length xs) > m then set_err field (''must have at most '' @ itoa m @ '' item(s)'') errs else errs)"

definition v_err :: "field_errors \<Rightarrow> validation_error option" where
  "v_err errs = (if errs = [] then None else Some (ValidationError errs))"

record event_count_params =
  ep_AppID :: string
  ep_FromMs :: int
  ep_ToMs :: int
  ep_Granularity :: string

text \<open>The checks the three functions begin with.\<close>

definition v_app :: "string \<Rightarrow> field_errors" where
  "v_app appID =
     (let errs = v_required ''app_id'' appID [] in if appID \<noteq> [] then v_appID appID errs else errs)"

definition ValidateEventCount :: "int \<Rightarrow> event_count_params \<Rightarrow> validation_error option" where
  "ValidateEventCount now p =
     v_err (v_granularity (ep_Granularity p) (v_timeRange now (ep_FromMs p) (ep_ToMs p) (v_app (ep_AppID p))))"

record funnel_params =
  fp_AppID :: string
  fp_Steps :: "string list"
  fp_WindowSeconds :: int
  fp_FromMs :: int
  fp_ToMs :: int

definition ValidateFunnel :: "int \<Rightarrow> funnel_params \<Rightarrow> validation_error option" where
  "ValidateFunnel now p =
     (let e1 = v_maxLen ''steps'' (fp_Steps p) 10 (v_minLen ''steps'' (fp_Steps p) 2 (v_app (fp_AppID p)));
          e2 = (if fp_WindowSeconds p < 0 then set_err ''window_seconds'' ''must be non-negative'' e1 else e1)
      in v_err (v_timeRange now (fp_FromMs p) (fp_ToMs p) e2))"

record retention_params =
  tp_AppID :: string
  tp_DayNs :: "int list"
  tp_FromMs :: int
  tp_ToMs :: int

text \<open>The loop reports the first bad day and stops.\<close>

fun v_days :: "int list \<Rightarrow> field_errors \<Rightarrow> field_errors" where
  "v_days [] errs = errs"
| "v_days (d # ds) errs =
     (if d < 1 \<or> d > 365 then set_err ''day_ns'' ''each value must be between 1 and 365'' errs else v_days ds errs)"

definition ValidateRetention :: "int \<Rightarrow> retention_params \<Rightarrow> validation_error option" where
  "ValidateRetention now p =
     v_err (v_timeRange now (tp_FromMs p) (tp_ToMs p) (v_days (tp_DayNs p) (v_app (tp_AppID p))))"

section \<open>What is accepted\<close>

lemma set_err_not_Nil [simp]: "set_err k v errs \<noteq> []"
  by (cases errs) (auto split: if_splits)

definition range_ok :: "int \<Rightarrow> int \<Rightarrow> int \<Rightarrow> bool" where
  "range_ok now fromMs toMs \<longleftrightarrow> (fromMs \<le> 0 \<or> toMs \<le> 0 \<or> fromMs < toMs) \<and> toMs \<le> now + 300000"

lemma v_timeRange_Nil [simp]: "v_timeRange now f t errs = [] \<longleftrightarrow> errs = [] \<and> range_ok now f t"
  by (auto simp: v_timeRange_def range_ok_def Let_def)

lemma v_granularity_Nil [simp]:
  "v_granularity g errs = [] \<longleftrightarrow> errs = [] \<and> (g = [] \<or> g \<in> set granularities)"
  by (auto simp: v_granularity_def)

lemma app_id_chars: "list_all app_id_char s \<Longrightarrow> trim_space s = s"
proof -
  assume "list_all app_id_char s"
  then have "\<forall>c \<in> set s. \<not> is_space c"
    by (auto simp: list_all_iff app_id_char_def is_space_def Let_def)
  then have "\<forall>t. set t \<subseteq> set s \<longrightarrow> dropWhile is_space t = t"
    by (metis dropWhile_eq_self_iff hd_in_set subset_iff)
  then show ?thesis by (simp add: trim_space_def)
qed

lemma v_app_Nil [simp]: "v_app s = [] \<longleftrightarrow> appIDRegexp s"
  using app_id_chars [of s] by (auto simp: v_app_def v_required_def v_appID_def appIDRegexp_def Let_def)

lemma v_len_Nil [simp]:
  "v_minLen k xs m errs = [] \<longleftrightarrow> errs = [] \<and> m \<le> int (length xs)"
  "v_maxLen k xs m errs = [] \<longleftrightarrow> errs = [] \<and> int (length xs) \<le> m"
  by (auto simp: v_minLen_def v_maxLen_def)

lemma v_days_Nil [simp]: "v_days ds errs = [] \<longleftrightarrow> errs = [] \<and> (\<forall>d \<in> set ds. 1 \<le> d \<and> d \<le> 365)"
  by (induction ds) auto

text \<open>The parameter checks accept exactly the well-formed requests: an application id of 3
  to 64 letters, digits, underscores and hyphens, a range of time that is not reversed and
  not in the future, a known granularity, 2 to 10 funnel steps with a window that is not
  negative, retention days between 1 and 365.\<close>

theorem validation_accepts_exactly:
  "(ValidateEventCount now p = None \<longleftrightarrow>
      appIDRegexp (ep_AppID p) \<and> range_ok now (ep_FromMs p) (ep_ToMs p)
      \<and> ep_Granularity p \<in> {[], ''minute'', ''hour'', ''day'', ''week'', ''month''}) \<and>
   (ValidateFunnel now f = None \<longleftrightarrow>
      appIDRegexp (fp_AppID f) \<and> range_ok now (fp_FromMs f) (fp_ToMs f)
      \<and> 2 \<le> length (fp_Steps f) \<and> length (fp_Steps f) \<le> 10 \<and> 0 \<le> fp_WindowSeconds f) \<and>
   (ValidateRetention now r = None \<longleftrightarrow>
      appIDRegexp (tp_AppID r) \<and> range_ok now (tp_FromMs r) (tp_ToMs r)
      \<and> set (tp_DayNs r) \<subseteq> {1..365})"
  by (auto simp: ValidateEventCount_def ValidateFunnel_def ValidateRetention_def v_err_def Let_def granularities_def)

text \<open>A blank id that is not empty is reported by the second check, under the same key.\<close>

lemma blank_app_id: "v_app '' '' = [(''app_id'', ''must be 3'' @ [CHR 0xE2, CHR 0x80, CHR 0x93]
     @ ''64 alphanumeric, underscore or hyphen characters'')]"
  by (simp add: v_app_def v_required_def v_appID_def appIDRegexp_def app_id_char_def trim_space_def is_space_def)

end
