(* ===== verification/Notification.thy ===== *)
theory Notification
  imports Alert Postgres
begin

text \<open>
  \<open>cmd/notificationservice\<close>: matching a Kafka message against the active campaigns,
  the deliveries and the campaign handlers.  \<open>handleKafkaMessage\<close> checks the cooldown and
  starts one goroutine per remaining campaign; the goroutine delivers and then sets the
  cooldown, so it is a separate step (\<open>run_delivery\<close>) that may happen any time later.
  The mail and HTTP clients are parameters.  A nil map counts as an empty one.
\<close>

section \<open>The message\<close>

record trigger_event =
  te_AppID :: string
  te_EventName :: string
  te_UserID :: string
  te_DeviceID :: string
  te_Props :: "(string \<times> string) list"

definition decode_trigger :: "json \<Rightarrow> trigger_event option" where
  "decode_trigger j = do {
     m \<leftarrow> jobj j;
     a \<leftarrow> to_string [] (jvals ''app_id'' m); n \<leftarrow> to_string [] (jvals ''event_name'' m);
     u \<leftarrow> to_string [] (jvals ''user_id'' m); d \<leftarrow> to_string [] (jvals ''device_id'' m);
     p \<leftarrow> decode_smap (to_string []) (jvals ''props'' m);
     Some \<lparr>te_AppID = a, te_EventName = n, te_UserID = u, te_DeviceID = d, te_Props = p\<rparr> }"

record pending =
  del_campaign :: campaign
  del_UserID :: string
  del_Props :: "(string \<times> string) list"
  del_key :: string

definition notif_cooldown_key :: "campaign \<Rightarrow> string \<Rightarrow> string" where
  "notif_cooldown_key c user = ''notif:cooldown:'' @ ca_ID c @ '':'' @ user"

definition notifCooldown :: int where "notifCooldown = 30 * 60 * 1000000000"

text \<open>The goroutines started, in order; the handler always returns nil.\<close>

definition handleKafkaMessage :: "('s, string) redis \<Rightarrow> pg_db \<Rightarrow> (nat \<Rightarrow> int) \<Rightarrow> 's \<Rightarrow> json option \<Rightarrow> pending list" where
  "handleKafkaMessage R db clk s value =
     (case Option.bind value decode_trigger of
        None \<Rightarrow> []
      | Some evt \<Rightarrow>
          (case GetActiveCampaignsByTrigger db (te_AppID evt) (te_EventName evt) of
             Inl _ \<Rightarrow> []
           | Inr cs \<Rightarrow>
               concat (map (\<lambda>(i, c).
                 if fst (redis_Exists R s (clk i) (notif_cooldown_key c (te_UserID evt))) then []
                 else [\<lparr>del_campaign = c, del_UserID = te_UserID evt, del_Props = te_Props evt,
                        del_key = notif_cooldown_key c (te_UserID evt)\<rparr>]) (enumerate 0 cs))))"

section \<open>Deliveries\<close>

record mail =
  mail_addr :: string
  mail_from :: string
  mail_to :: "string list"
  mail_msg :: string

text \<open>What leaves the service.\<close>

datatype sent = SentHttp http_out | SentMail mail

record outside =
  out_http :: http_client
  out_SendMail :: "mail \<Rightarrow> go_error option"

definition post_result :: "http_client \<Rightarrow> string \<Rightarrow> http_out \<Rightarrow> go_error option \<times> sent list" where
  "post_result hc what rq =
     (case http_Do hc rq of
        Inl e \<Rightarrow> (Some e, [SentHttp rq])
      | Inr status \<Rightarrow>
          (if status \<ge> 400 then Some (Errorf (what @ '' returned '' @ itoa (int status))) else None, [SentHttp rq]))"

text \<open>The error of \<open>http.NewRequest\<close> is discarded, so an invalid URL makes the next line
  dereference nil, which panics: \<open>None\<close>.\<close>

definition notif_sendWebhook ::
  "outside \<Rightarrow> campaign \<Rightarrow> string \<Rightarrow> (string \<times> string) list \<Rightarrow> int \<Rightarrow> (go_error option \<times> sent list) option" where
  "notif_sendWebhook o' c userID props now =
     (let url = conf_get (ca_ChannelConf c) ''url''; secret = conf_get (ca_ChannelConf c) ''secret'' in
      if url = [] then Some (Some (Errorf ''webhook url not configured''), [])
      else if \<not> valid_url (out_http o') url then None
      else Some (post_result (out_http o') ''webhook''
        \<lparr>ho_url = url,
         ho_headers = (''Content-Type'', ''application/json'') # (if secret = [] then [] else [(''X-Pulse-Signature'', secret)]),
         ho_body = JObj [(''app_id'', JStr (ca_AppID c)), (''campaign_id'', JStr (ca_ID c)),
           (''event'', JStr (conf_get (ca_TriggerConf c) ''event_name'')),
           (''fired_at'', JStr (format_rfc3339 (now div 1000000))),
           (''props'', jmap props), (''user_id'', JStr userID)]\<rparr>))"

definition crlf :: string where "crlf = [CHR 0x0D, CHR 0x0A]"

definition sendEmail :: "outside \<Rightarrow> campaign \<Rightarrow> go_error option \<times> sent list" where
  "sendEmail o' c =
     (let cc = conf_get (ca_ChannelConf c); smtpHost = cc ''smtp_host''; from = cc ''from''; to = cc ''to_template'' in
      if smtpHost = [] \<or> from = [] \<or> to = [] then (Some (Errorf ''incomplete email config''), [])
      else let m = \<lparr>mail_addr = smtpHost @ '':'' @ cc ''smtp_port'', mail_from = from, mail_to = [to],
                    mail_msg = ''From: '' @ from @ crlf @ ''To: '' @ to @ crlf @ ''Subject: '' @ cc ''subject''
                      @ crlf @ crlf @ cc ''body''\<rparr>
        in (out_SendMail o' m, [SentMail m]))"

definition sendPush :: "outside \<Rightarrow> campaign \<Rightarrow> string \<Rightarrow> go_error option \<times> sent list" where
  "sendPush o' c userID =
     (let cc = conf_get (ca_ChannelConf c); serverKey = cc ''fcm_server_key'' in
      if serverKey = [] then (Some (Errorf ''fcm_server_key not configured''), [])
      else post_result (out_http o') ''FCM''
        \<lparr>ho_url = ''https://fcm.googleapis.com/fcm/send'',
         ho_headers = [(''Content-Type'', ''application/json''), (''Authorization'', ''key='' @ serverKey)],
         ho_body = JObj [(''data'', jmap [(''app_id'', ca_AppID c), (''campaign_id'', ca_ID c)]),
           (''notification'', jmap [(''body'', cc ''body''), (''title'', cc ''title'')]),
           (''to'', JStr (''/topics/'' @ ca_AppID c @ ''-'' @ userID))]\<rparr>)"

definition dispatch ::
  "outside \<Rightarrow> campaign \<Rightarrow> string \<Rightarrow> (string \<times> string) list \<Rightarrow> int \<Rightarrow> (go_error option \<times> sent list) option" where
  "dispatch o' c userID props now =
     (if ca_Channel c = ''webhook'' then notif_sendWebhook o' c userID props now
      else if ca_Channel c = ''email'' then Some (sendEmail o' c)
      else if ca_Channel c = ''push'' then Some (sendPush o' c userID)
      else Some (Some (Errorf (''unknown channel: '' @ ca_Channel c)), []))"

text \<open>The goroutine: \<open>now\<close> is the clock at the delivery, \<open>t1\<close> at the \<open>SET\<close>.  \<open>None\<close>
  is the panic.\<close>

definition run_delivery ::
  "('s, string) redis \<Rightarrow> outside \<Rightarrow> int \<Rightarrow> int \<Rightarrow> pending \<Rightarrow> 's \<Rightarrow> (sent list \<times> 's) option" where
  "run_delivery R o' now t1 d s =
     (case dispatch o' (del_campaign d) (del_UserID d) (del_Props d) now of
        None \<Rightarrow> None
      | Some (Some _, out) \<Rightarrow> Some (out, s)
      | Some (None, out) \<Rightarrow> Some (out, snd (redis_Set R s t1 (del_key d) ''1'' notifCooldown)))"

section \<open>The campaign handlers\<close>

definition decode_campaign :: "json \<Rightarrow> campaign option" where
  "decode_campaign j = do {
     m \<leftarrow> jobj j;
     i \<leftarrow> to_string [] (jvals ''id'' m); a \<leftarrow> to_string [] (jvals ''app_id'' m);
     n \<leftarrow> to_string [] (jvals ''name'' m); t \<leftarrow> to_string [] (jvals ''trigger_type'' m);
     tc \<leftarrow> decode_smap (to_string []) (jvals ''trigger_conf'' m); ch \<leftarrow> to_string [] (jvals ''channel'' m);
     cc \<leftarrow> decode_smap (to_string []) (jvals ''channel_conf'' m); ac \<leftarrow> to_bool False (jvals ''active'' m);
     ct \<leftarrow> to_time zero_time (jvals ''created_at'' m);
     Some \<lparr>ca_ID = i, ca_AppID = a, ca_Name = n, ca_TriggerType = t, ca_TriggerConf = tc, ca_Channel = ch,
       ca_ChannelConf = cc, ca_Active = ac, ca_CreatedAt = ct\<rparr> }"

definition campaign_fields :: "campaign \<Rightarrow> (string \<times> json option) list" where
  "campaign_fields c =
     [(''id'', fstr (ca_ID c)), (''app_id'', fstr (ca_AppID c)), (''name'', fstr (ca_Name c)),
      (''trigger_type'', fstr (ca_TriggerType c)), (''trigger_conf'', Some (jmap (ca_TriggerConf c))),
      (''channel'', fstr (ca_Channel c)), (''channel_conf'', Some (jmap (ca_ChannelConf c))),
      (''active'', Some (JBool (ca_Active c))), (''created_at'', fstr (format_rfc3339 (ca_CreatedAt c)))]"

abbreviation encode_campaign :: "campaign \<Rightarrow> json" where
  "encode_campaign c \<equiv> JObj (obj_fields (campaign_fields c))"

definition notif_health :: response where
  "notif_health = writeJSON 200 (jmap [(''service'', ''notification-service''), (''status'', ''ok'')])"

definition campaign_create :: "pg_db \<Rightarrow> string \<Rightarrow> int \<Rightarrow> request \<Rightarrow> response \<times> pg_db" where
  "campaign_create db newID now rq =
     (case Option.bind (rq_body rq) decode_campaign of
        None \<Rightarrow> (writeError 400 ''invalid JSON'', db)
      | Some c \<Rightarrow>
          if ca_AppID c = [] \<or> ca_Name c = [] then (writeError 400 ''app_id and name required'', db)
          else let c' = c\<lparr>ca_Active := True, ca_CreatedAt := now\<rparr> in
            (case CreateCampaign db newID c' of
               ((_, Some e), db') \<Rightarrow> (writeError 500 ''create failed'', db')
             | ((i, None), db') \<Rightarrow> (writeJSON 201 (encode_campaign (c'\<lparr>ca_ID := i\<rparr>)), db')))"

definition campaign_get :: "pg_db \<Rightarrow> string \<Rightarrow> response" where
  "campaign_get db i = (case GetCampaign db i of
      Inl _ \<Rightarrow> writeError 404 ''campaign not found'' | Inr c \<Rightarrow> writeJSON 200 (encode_campaign c))"

definition campaign_update :: "pg_db \<Rightarrow> string \<Rightarrow> request \<Rightarrow> response \<times> pg_db" where
  "campaign_update db i rq =
     (case Option.bind (rq_body rq) decode_campaign of
        None \<Rightarrow> (writeError 400 ''invalid JSON'', db)
      | Some c \<Rightarrow>
          (case UpdateCampaign db (c\<lparr>ca_ID := i\<rparr>) of
             (Some e, db') \<Rightarrow> (writeError 500 ''update failed'', db')
           | (None, db') \<Rightarrow> (writeJSON 200 (encode_campaign (c\<lparr>ca_ID := i\<rparr>)), db')))"

definition campaign_pause :: "pg_db \<Rightarrow> string \<Rightarrow> response \<times> pg_db" where
  "campaign_pause db i = (case SetCampaignActive db i False of
      (Some e, db') \<Rightarrow> (writeError 500 ''pause failed'', db')
    | (None, db') \<Rightarrow> (writeJSON 200 (jmap [(''status'', ''paused'')]), db'))"

definition campaign_resume :: "pg_db \<Rightarrow> string \<Rightarrow> response \<times> pg_db" where
  "campaign_resume db i = (case SetCampaignActive db i True of
      (Some e, db') \<Rightarrow> (writeError 500 ''resume failed'', db')
    | (None, db') \<Rightarrow> (writeJSON 200 (jmap [(''status'', ''active'')]), db'))"

definition campaign_stats_handler :: "pg_db \<Rightarrow> string \<Rightarrow> response" where
  "campaign_stats_handler db i = (case GetCampaignStats db i of
      Inl _ \<Rightarrow> writeError 500 ''stats query failed''
    | Inr s \<Rightarrow> writeJSON 200 (JObj [(''campaign_id'', JStr (cs_CampaignID s)), (''sent'', JNum (of_int (cs_Sent s))),
        (''delivered'', JNum (of_int (cs_Delivered s))), (''failed'', JNum (of_int (cs_Failed s))),
        (''open_rate_pct'', JNum (cs_OpenRate s)), (''click_rate_pct'', JNum (cs_ClickRate s))]))"

section \<open>What a message starts\<close>

lemma handleKafkaMessage_mem:
  assumes "d \<in> set (handleKafkaMessage R db clk s v)"
  obtains evt cs i where "Option.bind v decode_trigger = Some evt"
    "GetActiveCampaignsByTrigger db (te_AppID evt) (te_EventName evt) = Inr cs"
    "i < length cs" "\<not> fst (redis_Exists R s (clk i) (del_key d))"
    "d = \<lparr>del_campaign = cs ! i, del_UserID = te_UserID evt, del_Props = te_Props evt,
          del_key = notif_cooldown_key (cs ! i) (te_UserID evt)\<rparr>"
proof -
  obtain evt where evt: "Option.bind v decode_trigger = Some evt"
    using assms by (cases "Option.bind v decode_trigger") (simp_all add: handleKafkaMessage_def)
  obtain cs where cs: "GetActiveCampaignsByTrigger db (te_AppID evt) (te_EventName evt) = Inr cs"
    using assms evt by (cases "GetActiveCampaignsByTrigger db (te_AppID evt) (te_EventName evt)")
      (simp_all add: handleKafkaMessage_def)
  from assms evt cs obtain i where "i < length cs"
    "\<not> fst (redis_Exists R s (clk i) (notif_cooldown_key (cs ! i) (te_UserID evt)))"
    "d = \<lparr>del_campaign = cs ! i, del_UserID = te_UserID evt, del_Props = te_Props evt,
          del_key = notif_cooldown_key (cs ! i) (te_UserID evt)\<rparr>"
    by (auto simp: handleKafkaMessage_def in_set_enumerate_eq split: if_splits)
  with evt cs show thesis by (intro that) simp_all
qed

text \<open>A message with a property that is a number starts nothing.\<close>

lemma non_string_prop_silences:
  assumes "jobj j = Some m" "jvals ''props'' m = [JObj ps]" "(k, JNum q) \<in> set ps"
  shows "handleKafkaMessage R db clk s (Some j) = []"
proof -
  have none: "None \<in> set xs \<Longrightarrow> those xs = None" for xs :: "(string \<times> string) option list"
    by (induction xs) (auto split: option.splits)
  have "those (map (\<lambda>(k, v). map_option (Pair k) (to_string [] [v])) ps) = None"
    using assms(3) by (intro none) force
  with assms(1,2) have "decode_trigger j = None"
    by (simp add: decode_trigger_def decode_smap_def bind_eq_None_conv)
  then show ?thesis by (simp add: handleKafkaMessage_def)
qed

text \<open>The check and the \<open>SET\<close> are apart: a second message handled before the first
  delivery has finished starts its delivery too, and both send.\<close>

lemma cooldown_race:
  assumes "handleKafkaMessage R db clk s v = [d]" "handleKafkaMessage R db clk' s v = [d]"
    and "dispatch o' (del_campaign d) (del_UserID d) (del_Props d) now = Some (None, out)"
    and "run_delivery R o' now t1 d s = Some (out, s')"
  shows "\<exists>s''. run_delivery R o' now t2 d s' = Some (out, s'')"
  using assms(3) by (simp add: run_delivery_def)

text \<open>An URL that does not parse panics in the goroutine.\<close>

lemma bad_webhook_url_panics:
  assumes "ca_Channel (del_campaign d) = ''webhook''" "conf_get (ca_ChannelConf (del_campaign d)) ''url'' = u"
    "u \<noteq> []" "\<not> valid_url (out_http o') u"
  shows "run_delivery R o' now t1 d s = None"
  using assms by (simp add: run_delivery_def dispatch_def notif_sendWebhook_def Let_def)

text \<open>A campaign does not reach the same user twice within thirty minutes of a delivery
  that succeeded: with a Redis that stores what it is told, a message handled in that time,
  whatever it holds, starts no delivery of that campaign to that user, while a campaign whose
  delivery failed may be tried again at once, Redis being untouched.\<close>

theorem delivery_cools_down:
  assumes "redis_kv R" "sets_succeed R"
    and "run_delivery R o' now t1 d s = Some (out, s')"
    and "d' \<in> set (handleKafkaMessage R db clk s' v)" "del_key d' = del_key d" "\<And>i. t1 \<le> clk i"
  shows "if fst (the (dispatch o' (del_campaign d) (del_UserID d) (del_Props d) now)) = None
    then \<exists>i. t1 + notifCooldown \<le> clk i else s' = s"
proof -
  obtain e out' where di: "dispatch o' (del_campaign d) (del_UserID d) (del_Props d) now = Some (e, out')"
    using assms(3) by (auto simp: run_delivery_def split: option.splits)
  show ?thesis
  proof (cases e)
    case (Some x)
    with assms(3) di show ?thesis by (auto simp: run_delivery_def)
  next
    case None
    obtain s1 where s1: "raw_Set R s t1 (del_key d) ''1'' notifCooldown = (None, s1)"
      using assms(2) by (meson sets_succeed_def)
    with assms(3) di None have s': "s' = s1" by (simp add: run_delivery_def redis_Set_def)
    obtain i where i: "\<not> fst (redis_Exists R s' (clk i) (del_key d'))"
      using assms(4) by (rule handleKafkaMessage_mem)
    have get: "raw_Get R s1 t (del_key d) = Inr ''1''" if "t1 \<le> t" "t < t1 + notifCooldown" for t
      using assms(1) s1 that unfolding redis_kv_def by fastforce
    have "fst (redis_Exists R s1 t (del_key d))" if "t1 \<le> t" "t < t1 + notifCooldown" for t
      using assms(1) get [OF that] unfolding redis_kv_def redis_Exists_def by simp
    with i assms(5,6) s' have "t1 + notifCooldown \<le> clk i" by (metis not_le)
    with di None show ?thesis by auto
  qed
qed

definition campaign_example :: campaign where
  "campaign_example = \<lparr>ca_ID = ''c1'', ca_AppID = ''a'', ca_Name = ''n'', ca_TriggerType = ''event'',
     ca_TriggerConf = [(''topic'', ''buy'')], ca_Channel = ''webhook'', ca_ChannelConf = [(''url'', ''u'')],
     ca_Active = True, ca_CreatedAt = 0\<rparr>"

definition notif_db :: pg_db where
  "notif_db = empty_db\<lparr>t_campaigns := [campaign_example]\<rparr>"

definition notif_message :: json where
  "notif_message = JObj [(''app_id'', JStr ''a''), (''event_name'', JStr ''buy''), (''user_id'', JStr ''u'')]"

definition notif_outside :: outside where
  "notif_outside = \<lparr>out_http = \<lparr>valid_url = (\<lambda>_. True), http_Do = (\<lambda>_. Inr 200)\<rparr>, out_SendMail = (\<lambda>_. None)\<rparr>"

definition notif_delivery :: pending where
  "notif_delivery = \<lparr>del_campaign = campaign_example, del_UserID = ''u'', del_Props = [],
     del_key = ''notif:cooldown:c1:u''\<rparr>"

definition notif_after :: "string mem" where
  "notif_after = snd (redis_Set mem_redis mem_empty 0 ''notif:cooldown:c1:u'' ''1'' notifCooldown)"

theorem delivery_cools_down_witness:
  "if fst (the (dispatch notif_outside campaign_example ''u'' [] 0)) = None
   then \<exists>i::nat. 0 + notifCooldown \<le> notifCooldown else notif_after = mem_empty"
proof -
  obtain out where d: "dispatch notif_outside campaign_example ''u'' [] 0 = Some (None, out)"
    by (simp add: dispatch_def notif_sendWebhook_def campaign_example_def notif_outside_def conf_get_def post_result_def Let_def)
  then have run: "run_delivery mem_redis notif_outside 0 0 notif_delivery mem_empty = Some (out, notif_after)"
    by (simp add: run_delivery_def notif_delivery_def notif_after_def)
  have mem: "notif_delivery \<in> set (handleKafkaMessage mem_redis notif_db (\<lambda>_. notifCooldown) notif_after (Some notif_message))"
    by (simp add: handleKafkaMessage_def notif_message_def decode_trigger_def jobj_def jvals_def to_lower_def to_lower_char_def
      decode_smap_def GetActiveCampaignsByTrigger_def select_def notif_db_def empty_db_def campaign_example_def
      notif_delivery_def notif_cooldown_key_def redis_Exists_def mem_redis_def mem_get_def mem_empty_def notif_after_def
      redis_Set_def notifCooldown_def)
  show ?thesis
    using delivery_cools_down [OF mem_redis_kv mem_sets_succeed run mem refl]
    by (simp add: notif_delivery_def notifCooldown_def)
qed

end
