(* ===== verification/Consistent.thy ===== *)
theory Consistent
  imports Prelude
begin

text \<open>
  Package \<open>internal/consistent\<close>: the hash ring.  Points are 32-bit words; SHA-256 of
  Go's \<open>crypto/sha256\<close> is the parameter \<open>sha\<close> of \<open>hashKey\<close>, and the ring
  operations take the resulting hash function \<open>h\<close>.  \<open>sort.Search\<close> is the library's
  binary search.  \<open>GetN\<close> may loop (\<open>None\<close>) or panic (\<open>Inl\<close>).
\<close>

type_synonym point = "32 word"

definition hashKey :: "(string \<Rightarrow> 8 word list) \<Rightarrow> string \<Rightarrow> point" where
  "hashKey sha key = word_rcat (take 4 (sha key))"

record ring =
  ring_map :: "point \<rightharpoonup> string"
  ring_sorted :: "point list"
  ring_nodes :: "(string \<times> int) list"
  replicas :: int

definition ring_New :: "int \<Rightarrow> ring" where
  "ring_New n = \<lparr>ring_map = Map.empty, ring_sorted = [], ring_nodes = [],
     replicas = (if n \<le> 0 then 150 else n)\<rparr>"

definition vnode_point :: "(string \<Rightarrow> point) \<Rightarrow> string \<Rightarrow> nat \<Rightarrow> point" where
  "vnode_point h node i = h (node @ '':'' @ itoa (int i))"

definition vnode_points :: "(string \<Rightarrow> point) \<Rightarrow> string \<Rightarrow> int \<Rightarrow> point list" where
  "vnode_points h node vnodes = map (vnode_point h node) [0..<nat vnodes]"

definition ring_AddWeighted :: "(string \<Rightarrow> point) \<Rightarrow> string \<Rightarrow> int \<Rightarrow> ring \<Rightarrow> ring" where
  "ring_AddWeighted h node vnodes r =
     (if map_of (ring_nodes r) node \<noteq> None then r
      else let ps = vnode_points h node vnodes in
        r\<lparr>ring_nodes := al_set node vnodes (ring_nodes r),
          ring_map := fold (\<lambda>p m. m(p \<mapsto> node)) ps (ring_map r),
          ring_sorted := sort (ring_sorted r @ ps)\<rparr>)"

definition ring_Add :: "(string \<Rightarrow> point) \<Rightarrow> string \<Rightarrow> ring \<Rightarrow> ring" where
  "ring_Add h node r = ring_AddWeighted h node (replicas r) r"

definition ring_Remove :: "(string \<Rightarrow> point) \<Rightarrow> string \<Rightarrow> ring \<Rightarrow> ring" where
  "ring_Remove h node r =
     (case map_of (ring_nodes r) node of
        None \<Rightarrow> r
      | Some vnodes \<Rightarrow>
          let ps = vnode_points h node vnodes in
          r\<lparr>ring_nodes := al_del node (ring_nodes r),
            ring_map := fold (\<lambda>p m. m(p := None)) ps (ring_map r),
            ring_sorted := filter (\<lambda>p. p \<notin> set ps) (ring_sorted r)\<rparr>)"

text \<open>\<open>sort.Search(n, f)\<close>.\<close>

function search_loop :: "(nat \<Rightarrow> bool) \<Rightarrow> nat \<Rightarrow> nat \<Rightarrow> nat" where
  "search_loop f i j =
     (if i < j then
        let m = (i + j) div 2 in
        if \<not> f m then search_loop f (m + 1) j else search_loop f i m
      else i)"
  by pat_completeness auto
termination
  by (relation "measure (\<lambda>(f, i, j). j - i)") auto

declare search_loop.simps [simp del]

definition sort_Search :: "nat \<Rightarrow> (nat \<Rightarrow> bool) \<Rightarrow> nat" where
  "sort_Search n f = search_loop f 0 n"

definition ring_owner :: "ring \<Rightarrow> point \<Rightarrow> string" where
  "ring_owner r p = (case ring_map r p of None \<Rightarrow> [] | Some node \<Rightarrow> node)"

definition ring_search :: "(string \<Rightarrow> point) \<Rightarrow> string \<Rightarrow> ring \<Rightarrow> nat" where
  "ring_search h key r = sort_Search (length (ring_sorted r)) (\<lambda>i. ring_sorted r ! i \<ge> h key)"

definition ring_Get :: "(string \<Rightarrow> point) \<Rightarrow> string \<Rightarrow> ring \<Rightarrow> string" where
  "ring_Get h key r =
     (if length (ring_sorted r) = 0 then []
      else let idx = ring_search h key r;
               idx' = (if idx = length (ring_sorted r) then 0 else idx)
           in ring_owner r (ring_sorted r ! idx'))"

partial_function (option) getN_loop :: "ring \<Rightarrow> nat \<Rightarrow> nat \<Rightarrow> string list \<Rightarrow> string list option" where
  "getN_loop r n idx result =
     (if length result < n then
        (let node = ring_owner r (ring_sorted r ! (idx mod length (ring_sorted r))) in
         getN_loop r n (idx + 1) (if node \<in> set result then result else result @ [node]))
      else Some result)"

datatype ring_panic = MakeSliceCap | IntegerDivideByZero

definition ring_GetN :: "(string \<Rightarrow> point) \<Rightarrow> string \<Rightarrow> int \<Rightarrow> ring \<Rightarrow> (ring_panic + string list) option" where
  "ring_GetN h key n r =
     (if ring_nodes r = [] then Some (Inr [])
      else let n' = (if n > int (length (ring_nodes r)) then int (length (ring_nodes r)) else n) in
        if n' < 0 then Some (Inl MakeSliceCap)
        else if n' > 0 \<and> ring_sorted r = [] then Some (Inl IntegerDivideByZero)
        else map_option Inr (getN_loop r (nat n') (ring_search h key r) []))"

definition ring_Nodes :: "ring \<Rightarrow> string list" where
  "ring_Nodes r = al_keys (ring_nodes r)"

definition ring_Size :: "ring \<Rightarrow> nat" where
  "ring_Size r = length (ring_nodes r)"

section \<open>Binary search\<close>

definition upward :: "(nat \<Rightarrow> bool) \<Rightarrow> nat \<Rightarrow> bool" where
  "upward f n \<longleftrightarrow> (\<forall>k l. k \<le> l \<longrightarrow> l < n \<longrightarrow> f k \<longrightarrow> f l)"

definition is_cut :: "(nat \<Rightarrow> bool) \<Rightarrow> nat \<Rightarrow> nat \<Rightarrow> bool" where
  "is_cut f n i \<longleftrightarrow> i \<le> n \<and> (\<forall>k < i. \<not> f k) \<and> (\<forall>k. i \<le> k \<longrightarrow> k < n \<longrightarrow> f k)"

lemma search_loop_cut:
  assumes "i \<le> j" "j \<le> n" "upward f n" "\<forall>k < i. \<not> f k" "\<forall>k. j \<le> k \<longrightarrow> k < n \<longrightarrow> f k"
  shows "is_cut f n (search_loop f i j)"
  using assms
proof (induction f i j rule: search_loop.induct)
  case (1 f i j)
  show ?case
  proof (cases "i < j")
    case False
    then have "search_loop f i j = i" by (simp add: search_loop.simps [of f i j])
    with False "1.prems" show ?thesis by (simp add: is_cut_def)
  next
    case True
    define m where "m = (i + j) div 2"
    have m: "i \<le> m" "m < j" using True by (auto simp: m_def)
    show ?thesis
    proof (cases "f m")
      case fm: True
      have "\<forall>k. m \<le> k \<longrightarrow> k < n \<longrightarrow> f k" using fm "1.prems"(3) unfolding upward_def by blast
      with "1.prems" m have "is_cut f n (search_loop f i m)"
        by (intro "1.IH"(2) [OF True m_def]) (simp_all add: fm)
      with fm True show ?thesis by (simp add: search_loop.simps [of f i j] m_def Let_def)
    next
      case fm: False
      have "\<forall>k < m + 1. \<not> f k"
      proof (intro allI impI notI)
        fix k assume "k < m + 1" "f k"
        then show False using fm m(2) "1.prems"(2,3) unfolding upward_def
          by (metis Suc_eq_plus1 less_Suc_eq_le order_less_le_trans)
      qed
      with "1.prems" m have "is_cut f n (search_loop f (m + 1) j)"
        by (intro "1.IH"(1) [OF True m_def]) (simp_all add: fm)
      with fm True show ?thesis by (simp add: search_loop.simps [of f i j] m_def Let_def)
    qed
  qed
qed

lemma sort_Search_cut: "upward f n \<Longrightarrow> is_cut f n (sort_Search n f)"
  unfolding sort_Search_def by (rule search_loop_cut) simp_all

section \<open>The ring as a successor function\<close>

text \<open>The abstract meaning of a lookup: the first point clockwise from the key's hash.\<close>

definition succ_point :: "point set \<Rightarrow> point \<Rightarrow> point" where
  "succ_point P x = (if \<exists>p \<in> P. x \<le> p then Min {p \<in> P. x \<le> p} else Min P)"

lemma succ_point_in: "finite P \<Longrightarrow> P \<noteq> {} \<Longrightarrow> succ_point P x \<in> P"
proof -
  assume P: "finite P" "P \<noteq> {}"
  show ?thesis
  proof (cases "\<exists>p \<in> P. x \<le> p")
    case True
    then have "Min {p \<in> P. x \<le> p} \<in> {p \<in> P. x \<le> p}" using P by (intro Min_in) auto
    with True show ?thesis by (simp add: succ_point_def)
  qed (use P in \<open>simp add: succ_point_def\<close>)
qed

lemma succ_point_eqI:
  assumes "finite P" "s \<in> P" "x \<le> s" "\<And>p. p \<in> P \<Longrightarrow> x \<le> p \<Longrightarrow> s \<le> p"
  shows "succ_point P x = s"
proof -
  have "Min {p \<in> P. x \<le> p} = s" using assms by (intro Min_eqI) auto
  then show ?thesis using assms unfolding succ_point_def by auto
qed

lemma succ_point_wrapI:
  assumes "finite P" "s \<in> P" "\<And>p. p \<in> P \<Longrightarrow> p < x" "\<And>p. p \<in> P \<Longrightarrow> s \<le> p"
  shows "succ_point P x = s"
proof -
  have "\<not> (\<exists>p \<in> P. x \<le> p)" using assms(3) by (auto simp: not_le)
  moreover have "Min P = s" using assms by (intro Min_eqI) auto
  ultimately show ?thesis by (simp add: succ_point_def)
qed

lemma succ_point_cases:
  assumes "finite P" "P \<noteq> {}"
  obtains (ahead) "x \<le> succ_point P x" "\<And>p. p \<in> P \<Longrightarrow> x \<le> p \<Longrightarrow> succ_point P x \<le> p"
  | (wrap) "\<And>p. p \<in> P \<Longrightarrow> p < x" "\<And>p. p \<in> P \<Longrightarrow> succ_point P x \<le> p"
proof (cases "\<exists>p \<in> P. x \<le> p")
  case True
  then have "Min {p \<in> P. x \<le> p} \<in> {p \<in> P. x \<le> p}" using assms by (intro Min_in) auto
  moreover have "succ_point P x = Min {p \<in> P. x \<le> p}" using True by (simp add: succ_point_def)
  moreover have "\<And>p. p \<in> P \<Longrightarrow> x \<le> p \<Longrightarrow> Min {p \<in> P. x \<le> p} \<le> p" using assms by (intro Min_le) auto
  ultimately show ?thesis using ahead by auto
next
  case False
  then have "succ_point P x = Min P" by (simp add: succ_point_def)
  with False show ?thesis using assms by (intro wrap) (auto simp: not_le)
qed

lemma succ_point_subset:
  assumes "finite P" "P' \<subseteq> P" "succ_point P x \<in> P'"
  shows "succ_point P' x = succ_point P x"
proof -
  have P: "P \<noteq> {}" "finite P'" using assms finite_subset by auto
  from assms(1) P(1) show ?thesis
  proof (cases rule: succ_point_cases [of P x])
    case ahead
    then show ?thesis using assms P by (intro succ_point_eqI) auto
  next
    case wrap
    then show ?thesis using assms P by (intro succ_point_wrapI) auto
  qed
qed

definition ring_wf :: "ring \<Rightarrow> bool" where
  "ring_wf r \<longleftrightarrow> sorted (ring_sorted r) \<and> set (ring_sorted r) = dom (ring_map r)
     \<and> ran (ring_map r) \<subseteq> fst ` set (ring_nodes r) \<and> distinct (al_keys (ring_nodes r))"

lemma ring_search_cut:
  assumes "sorted (ring_sorted r)"
  shows "is_cut (\<lambda>i. h key \<le> ring_sorted r ! i) (length (ring_sorted r)) (ring_search h key r)"
proof -
  have "upward (\<lambda>i. h key \<le> ring_sorted r ! i) (length (ring_sorted r))"
    using assms unfolding upward_def by (meson order_trans sorted_nth_mono)
  then show ?thesis unfolding ring_search_def by (rule sort_Search_cut)
qed

lemma ring_search_spec:
  assumes "sorted (ring_sorted r)"
  shows "ring_search h key r \<le> length (ring_sorted r)"
    "\<forall>k < ring_search h key r. ring_sorted r ! k < h key"
    "\<forall>k. ring_search h key r \<le> k \<longrightarrow> k < length (ring_sorted r) \<longrightarrow> h key \<le> ring_sorted r ! k"
  using ring_search_cut [OF assms, of h key] by (simp_all add: is_cut_def not_le)

lemma search_is_succ:
  assumes "sorted (ring_sorted r)" "ring_sorted r \<noteq> []"
  shows "ring_sorted r ! (ring_search h key r mod length (ring_sorted r))
    = succ_point (set (ring_sorted r)) (h key)"
proof -
  let ?xs = "ring_sorted r" and ?i = "ring_search h key r"
  note s = ring_search_spec [OF assms(1), where h = h and key = key]
  have mono: "\<And>a b. a \<le> b \<Longrightarrow> b < length ?xs \<Longrightarrow> ?xs ! a \<le> ?xs ! b"
    using assms(1) by (rule sorted_nth_mono)
  show ?thesis
  proof (cases "?i < length ?xs")
    case True
    have "succ_point (set ?xs) (h key) = ?xs ! ?i"
    proof (rule succ_point_eqI)
      fix p assume "p \<in> set ?xs" "h key \<le> p"
      then obtain b where b: "b < length ?xs" "p = ?xs ! b" by (auto simp: in_set_conv_nth)
      with s(2) \<open>h key \<le> p\<close> have "?i \<le> b" by (meson leD leI)
      with mono b show "?xs ! ?i \<le> p" by auto
    qed (use True s(3) in auto)
    with True show ?thesis by simp
  next
    case False
    then have i: "?i = length ?xs" using s(1) by simp
    have "succ_point (set ?xs) (h key) = ?xs ! 0"
    proof (rule succ_point_wrapI)
      fix p assume "p \<in> set ?xs"
      then obtain b where b: "b < length ?xs" "p = ?xs ! b" by (auto simp: in_set_conv_nth)
      show "p < h key" using s(2) b i by simp
      show "?xs ! 0 \<le> p" using mono [of 0 b] b by simp
    qed (use assms(2) in auto)
    with i show ?thesis by simp
  qed
qed

lemma Get_succ:
  assumes "ring_wf r"
  shows "ring_Get h key r =
    (if dom (ring_map r) = {} then [] else ring_owner r (succ_point (dom (ring_map r)) (h key)))"
proof (cases "ring_sorted r = []")
  case True
  then show ?thesis using assms by (auto simp: ring_Get_def ring_wf_def)
next
  case False
  have s: "sorted (ring_sorted r)" "set (ring_sorted r) = dom (ring_map r)"
    using assms by (auto simp: ring_wf_def)
  have "(if ring_search h key r = length (ring_sorted r) then 0 else ring_search h key r)
      = ring_search h key r mod length (ring_sorted r)"
    using ring_search_spec(1) [OF s(1), where h = h and key = key] False by (auto simp: le_less)
  with search_is_succ [OF s(1) False, where h = h and key = key] s(2) False show ?thesis
    by (auto simp: ring_Get_def Let_def)
qed

lemma fold_upd: "fold (\<lambda>p m. m(p \<mapsto> node)) ps m = (\<lambda>p. if p \<in> set ps then Some node else m p)"
  by (induction ps arbitrary: m) (auto simp: fun_eq_iff)

lemma fold_del: "fold (\<lambda>p m. m(p := None)) ps m = (\<lambda>p. if p \<in> set ps then None else m p)"
  by (induction ps arbitrary: m) (auto simp: fun_eq_iff)

lemma AddWeighted_map:
  "map_of (ring_nodes r) node = None \<Longrightarrow> ring_map (ring_AddWeighted h node v r)
     = (\<lambda>p. if p \<in> set (vnode_points h node v) then Some node else ring_map r p)"
  by (simp add: ring_AddWeighted_def fold_upd Let_def)

lemma Remove_map:
  "map_of (ring_nodes r) node = Some v \<Longrightarrow> ring_map (ring_Remove h node r)
     = (\<lambda>p. if p \<in> set (vnode_points h node v) then None else ring_map r p)"
  by (simp add: ring_Remove_def fold_del Let_def)

lemma ring_wf_New: "ring_wf (ring_New n)"
  by (simp add: ring_wf_def ring_New_def)

lemma ring_wf_AddWeighted:
  assumes "ring_wf r"
  shows "ring_wf (ring_AddWeighted h node v r)"
proof (cases "map_of (ring_nodes r) node")
  case None
  have "set (ring_sorted (ring_AddWeighted h node v r)) = dom (ring_map r) \<union> set (vnode_points h node v)"
    using assms None by (simp add: ring_AddWeighted_def ring_wf_def Let_def)
  moreover have "sorted (ring_sorted (ring_AddWeighted h node v r))"
    using None by (simp add: ring_AddWeighted_def Let_def)
  moreover have "ring_nodes (ring_AddWeighted h node v r) = al_set node v (ring_nodes r)"
    using None by (simp add: ring_AddWeighted_def Let_def)
  ultimately show ?thesis
    using assms AddWeighted_map [OF None, of h v]
    by (auto simp: ring_wf_def ran_def dom_def split: if_splits)
qed (use assms in \<open>simp add: ring_AddWeighted_def\<close>)

text \<open>A node's points are its own: no other node's virtual node hashes onto them.\<close>

definition owns_points :: "(string \<Rightarrow> point) \<Rightarrow> string \<Rightarrow> ring \<Rightarrow> bool" where
  "owns_points h node r \<longleftrightarrow>
     (\<forall>v. map_of (ring_nodes r) node = Some v \<longrightarrow>
        (\<forall>p \<in> dom (ring_map r). p \<in> set (vnode_points h node v) \<longleftrightarrow> ring_map r p = Some node))"

lemma ring_wf_Remove:
  assumes "ring_wf r" "owns_points h node r"
  shows "ring_wf (ring_Remove h node r)"
proof (cases "map_of (ring_nodes r) node")
  case (Some v)
  let ?r = "ring_Remove h node r"
  have s: "ring_sorted ?r = filter (\<lambda>p. p \<notin> set (vnode_points h node v)) (ring_sorted r)"
    "ring_nodes ?r = al_del node (ring_nodes r)"
    using Some by (simp_all add: ring_Remove_def Let_def)
  have "ran (ring_map ?r) \<subseteq> fst ` set (ring_nodes r) - {node}"
  proof
    fix n assume "n \<in> ran (ring_map ?r)"
    then obtain p where p: "ring_map r p = Some n" "p \<notin> set (vnode_points h node v)"
      using Remove_map [OF Some, of h] by (auto simp: ran_def split: if_splits)
    then have "n \<noteq> node" using assms(2) Some unfolding owns_points_def by (metis domI)
    with p(1) assms(1) show "n \<in> fst ` set (ring_nodes r) - {node}"
      unfolding ring_wf_def by (auto simp: ran_def)
  qed
  moreover have "set (ring_sorted ?r) = dom (ring_map ?r)"
    using assms(1) s(1) Remove_map [OF Some, of h] by (auto simp: ring_wf_def split: if_splits)
  moreover have "sorted (ring_sorted ?r)" using assms(1) s(1) by (simp add: ring_wf_def sorted_wrt_filter)
  ultimately show ?thesis using assms(1) s(2) by (simp add: ring_wf_def)
qed (use assms in \<open>simp add: ring_Remove_def\<close>)


text \<open>A lookup on a well-formed ring is the owner of the first point at or after the
  key's hash, wrapping to the smallest point: the binary search implements the clockwise
  walk.\<close>

theorem ring_Get_is_successor:
  assumes "ring_wf r" and "dom (ring_map r) \<noteq> {}"
  shows "ring_Get h key r = ring_owner r (succ_point (dom (ring_map r)) (h key))
       \<and> ring_Get h key r \<in> set (ring_Nodes r)"
proof -
  have f: "finite (dom (ring_map r))"
    using assms(1) by (metis List.finite_set ring_wf_def)
  obtain n where n: "ring_map r (succ_point (dom (ring_map r)) (h key)) = Some n"
    using succ_point_in [OF f assms(2), of "h key"] by auto
  then have "n \<in> fst ` set (ring_nodes r)"
    using assms(1) unfolding ring_wf_def by (meson ranI subsetD)
  with n show ?thesis using Get_succ [OF assms(1)] assms(2)
    by (simp add: ring_owner_def ring_Nodes_def)
qed

text \<open>An example hash: the length of the string; the ring of two nodes with one virtual
  node each has its points at 3 and 4.\<close>

definition len_hash :: "string \<Rightarrow> point" where
  "len_hash s = of_nat (length s)"

definition two_node_ring :: ring where
  "two_node_ring = ring_AddWeighted len_hash ''bb'' 1 (ring_AddWeighted len_hash ''a'' 1 (ring_New 0))"

lemma two_node_ring_wf: "ring_wf two_node_ring"
  unfolding two_node_ring_def by (intro ring_wf_AddWeighted ring_wf_New)

lemma itoa_0: "itoa 0 = ''0''"
  by code_simp

lemma two_node_points:
  "vnode_points len_hash ''a'' 1 = [3]" "vnode_points len_hash ''bb'' 1 = [4]"
  "vnode_points len_hash ''ccc'' 1 = [5]"
  by (simp_all add: vnode_points_def vnode_point_def len_hash_def itoa_0)

lemma two_node_ring_map: "ring_map two_node_ring = [3 \<mapsto> ''a'', 4 \<mapsto> ''bb'']"
  by (simp add: two_node_ring_def ring_AddWeighted_def two_node_points ring_New_def Let_def)

theorem ring_Get_is_successor_witness:
  "ring_Get len_hash ''key0'' two_node_ring \<in> set (ring_Nodes two_node_ring)"
  by (rule ring_Get_is_successor [OF two_node_ring_wf, THEN conjunct2]) (simp add: two_node_ring_map)

text \<open>Shrinking the ring to a set of points that keeps the successor of a key, with its
  owner, keeps the key where it is.\<close>

lemma finite_points: "ring_wf r \<Longrightarrow> finite (dom (ring_map r))"
  by (metis List.finite_set ring_wf_def)

lemma Get_transfer:
  assumes "ring_wf r" "ring_wf r'" "dom (ring_map r') \<subseteq> dom (ring_map r)"
    and "succ_point (dom (ring_map r)) (h key) = s" "s \<in> dom (ring_map r')" "ring_map r' s = ring_map r s"
  shows "ring_Get h key r' = ring_Get h key r"
proof -
  have "succ_point (dom (ring_map r')) (h key) = s"
    using succ_point_subset [OF finite_points [OF assms(1)] assms(3)] assms(4,5) by simp
  moreover have "dom (ring_map r') \<noteq> {}" "dom (ring_map r) \<noteq> {}" using assms(3,5) by blast+
  ultimately show ?thesis
    using assms(4,6) by (simp only: Get_succ [OF assms(1)] Get_succ [OF assms(2)] ring_owner_def if_False)
qed

text \<open>Consistency of adding: after a node joins, every key is either served by the new
  node or by the node that served it before.\<close>

theorem ring_Add_moves_only_to_new:
  assumes "ring_wf r"
  shows "ring_Get h key (ring_AddWeighted h node v r) \<in> {ring_Get h key r, node}"
proof (cases "map_of (ring_nodes r) node")
  case None
  let ?r = "ring_AddWeighted h node v r" and ?Q = "set (vnode_points h node v)"
  note wf' = ring_wf_AddWeighted [OF assms, of h node v]
  have m: "ring_map ?r = (\<lambda>p. if p \<in> ?Q then Some node else ring_map r p)"
    by (rule AddWeighted_map [OF None])
  have f: "finite (dom (ring_map ?r))" using wf' by (metis List.finite_set ring_wf_def)
  show ?thesis
  proof (cases "dom (ring_map ?r) = {}")
    case True
    moreover have "dom (ring_map r) \<subseteq> dom (ring_map ?r)" unfolding m by auto
    ultimately have "dom (ring_map r) = {}" by blast
    with True show ?thesis using Get_succ [OF assms] Get_succ [OF wf'] by simp
  next
    case False
    let ?s = "succ_point (dom (ring_map ?r)) (h key)"
    have s: "?s \<in> dom (ring_map ?r)" by (rule succ_point_in [OF f False])
    show ?thesis
    proof (cases "?s \<in> ?Q")
      case True
      then have "ring_map ?r ?s = Some node" by (simp only: m if_True)
      then show ?thesis using Get_succ [OF wf', of h key] False by (simp only: ring_owner_def) simp
    next
      case out: False
      then have eq: "ring_map r ?s = ring_map ?r ?s" by (simp only: m if_False)
      have "ring_Get h key r = ring_Get h key ?r"
      proof (rule Get_transfer [OF wf' assms])
        show "dom (ring_map r) \<subseteq> dom (ring_map ?r)" unfolding m by auto
        show "?s \<in> dom (ring_map r)" using s eq by (simp only: domIff) simp
      qed (rule refl, rule eq)
      then show ?thesis by simp
    qed
  qed
qed (simp add: ring_AddWeighted_def)

theorem ring_Add_moves_only_to_new_witness:
  "ring_Get len_hash ''key0x'' (ring_AddWeighted len_hash ''ccc'' 1 two_node_ring)
     \<in> {ring_Get len_hash ''key0x'' two_node_ring, ''ccc''}"
  by (rule ring_Add_moves_only_to_new [OF two_node_ring_wf])

text \<open>Consistency of removing: when no other node shares a point with it, removing a
  node leaves every key of every other node where it was.\<close>

theorem ring_Remove_keeps_others:
  assumes "ring_wf r" and "owns_points h node r" and "ring_Get h key r \<noteq> node"
  shows "ring_Get h key (ring_Remove h node r) = ring_Get h key r"
proof (cases "map_of (ring_nodes r) node")
  case (Some v)
  let ?r = "ring_Remove h node r" and ?Q = "set (vnode_points h node v)"
  note wf' = ring_wf_Remove [OF assms(1,2)]
  have m: "ring_map ?r = (\<lambda>p. if p \<in> ?Q then None else ring_map r p)"
    by (rule Remove_map [OF Some])
  have f: "finite (dom (ring_map r))" using assms(1) by (metis List.finite_set ring_wf_def)
  show ?thesis
  proof (cases "dom (ring_map r) = {}")
    case True
    moreover have "dom (ring_map ?r) \<subseteq> dom (ring_map r)" unfolding m by (auto split: if_splits)
    ultimately have "dom (ring_map ?r) = {}" by blast
    with True show ?thesis using Get_succ [OF assms(1)] Get_succ [OF wf'] by simp
  next
    case False
    let ?s = "succ_point (dom (ring_map r)) (h key)"
    have s: "?s \<in> dom (ring_map r)" by (rule succ_point_in [OF f False])
    then obtain n where n: "ring_map r ?s = Some n" by blast
    then have "ring_Get h key r = n" using Get_succ [OF assms(1), of h key] False by (simp add: ring_owner_def)
    with assms(3) have "n \<noteq> node" by simp
    moreover have "?s \<in> ?Q \<longleftrightarrow> ring_map r ?s = Some node"
      using assms(2) Some s unfolding owns_points_def by blast
    ultimately have out: "?s \<notin> ?Q" using n by simp
    then have eq: "ring_map ?r ?s = ring_map r ?s" by (simp only: m if_False)
    show ?thesis
    proof (rule Get_transfer [OF assms(1) wf'])
      show "dom (ring_map ?r) \<subseteq> dom (ring_map r)" unfolding m by (auto split: if_splits)
      show "?s \<in> dom (ring_map ?r)" using s eq by (simp only: domIff) simp
    qed (rule refl, rule eq)
  qed
qed (simp add: ring_Remove_def)

theorem ring_Remove_keeps_others_witness:
  "ring_Get len_hash ''key0'' (ring_Remove len_hash ''a'' two_node_ring) = ring_Get len_hash ''key0'' two_node_ring"
proof (rule ring_Remove_keeps_others [OF two_node_ring_wf])
  have n: "map_of (ring_nodes two_node_ring) ''a'' = Some 1"
    by (simp add: two_node_ring_def ring_AddWeighted_def ring_New_def Let_def)
  show "owns_points len_hash ''a'' two_node_ring"
    using n by (auto simp: owns_points_def two_node_points two_node_ring_map)
  have "succ_point {3, 4} (4 :: point) = 4" by (rule succ_point_eqI) auto
  then have "ring_Get len_hash ''key0'' two_node_ring = ''bb''"
    by (simp add: Get_succ [OF two_node_ring_wf] two_node_ring_map ring_owner_def len_hash_def insert_commute)
  then show "ring_Get len_hash ''key0'' two_node_ring \<noteq> ''a''" by simp
qed

section \<open>Replica lists\<close>

definition walk_owner :: "ring \<Rightarrow> nat \<Rightarrow> string" where
  "walk_owner r i = ring_owner r (ring_sorted r ! (i mod length (ring_sorted r)))"

lemma getN_loop_stop: "\<not> length res < n \<Longrightarrow> getN_loop r n idx res = Some res"
  by (simp add: getN_loop.simps [of r n idx res])

lemma getN_loop_step:
  "length res < n \<Longrightarrow> getN_loop r n idx res
     = getN_loop r n (Suc idx) (if walk_owner r idx \<in> set res then res else res @ [walk_owner r idx])"
  by (subst getN_loop.simps) (simp add: walk_owner_def Let_def)

text \<open>The walk returns as soon as it has seen \<open>n\<close> distinct owners: if the next \<open>m\<close> points
  complete them, \<open>m\<close> steps are enough.\<close>

lemma getN_loop_returns:
  assumes "distinct res" "length res \<le> n" "n \<le> card (set res \<union> walk_owner r ` {idx..<idx + m})"
  shows "\<exists>out. getN_loop r n idx res = Some out \<and> distinct out \<and> length out = n
     \<and> prefix res out \<and> set out \<subseteq> set res \<union> range (walk_owner r)"
  using assms
proof (induction m arbitrary: idx res)
  case 0
  then have "length res = n" by (simp add: distinct_card)
  with 0 show ?case by (auto simp: getN_loop_stop)
next
  case (Suc m)
  show ?case
  proof (cases "length res < n")
    case False
    with Suc.prems show ?thesis by (auto simp: getN_loop_stop)
  next
    case True
    define res' where "res' = (if walk_owner r idx \<in> set res then res else res @ [walk_owner r idx])"
    have r': "distinct res'" "length res' \<le> n" "set res' = insert (walk_owner r idx) (set res)" "prefix res res'"
      using Suc.prems True by (auto simp: res'_def)
    have "{idx..<idx + Suc m} = insert idx {Suc idx..<Suc idx + m}" by auto
    then have "set res \<union> walk_owner r ` {idx..<idx + Suc m} = set res' \<union> walk_owner r ` {Suc idx..<Suc idx + m}"
      using r'(3) by auto
    with Suc.prems(3) have "n \<le> card (set res' \<union> walk_owner r ` {Suc idx..<Suc idx + m})" by simp
    with Suc.IH r' obtain out where "getN_loop r n (Suc idx) res' = Some out" "distinct out" "length out = n"
        "prefix res' out" "set out \<subseteq> set res' \<union> range (walk_owner r)"
      by blast
    moreover from this r'(3,4) have "prefix res out" "set out \<subseteq> set res \<union> range (walk_owner r)"
      by (auto intro: prefix_order.order_trans)
    ultimately show ?thesis using getN_loop_step [OF True] by (simp add: res'_def)
  qed
qed

text \<open>Every registered node still has a point on the ring.\<close>

definition all_present :: "ring \<Rightarrow> bool" where
  "all_present r \<longleftrightarrow> fst ` set (ring_nodes r) = ran (ring_map r)"

lemma walk_covers:
  assumes "ring_wf r" "ring_sorted r \<noteq> []"
  shows "ran (ring_map r) \<subseteq> walk_owner r ` {idx..<idx + length (ring_sorted r)}"
proof
  let ?L = "length (ring_sorted r)"
  fix n assume "n \<in> ran (ring_map r)"
  then obtain p where p: "ring_map r p = Some n" by (auto simp: ran_def)
  then have "p \<in> set (ring_sorted r)" using assms(1) unfolding ring_wf_def by blast
  then obtain i where i: "i < ?L" "ring_sorted r ! i = p" by (auto simp: in_set_conv_nth)
  define j where "j = idx + (i + ?L - idx mod ?L) mod ?L"
  have lt: "idx mod ?L < ?L" using assms(2) by simp
  have "(i + ?L - idx mod ?L) mod ?L < ?L" using assms(2) by simp
  then have j: "j \<in> {idx..<idx + ?L}" by (simp add: j_def)
  have "j mod ?L = (idx mod ?L + (i + ?L - idx mod ?L)) mod ?L" by (simp add: j_def mod_simps)
  also have "idx mod ?L + (i + ?L - idx mod ?L) = i + ?L" using lt by simp
  finally have "j mod ?L = i" using i(1) by simp
  with i(2) p have "walk_owner r j = n" by (simp add: walk_owner_def ring_owner_def)
  with j show "n \<in> walk_owner r ` {idx..<idx + ?L}" by blast
qed

lemma walk_owner_ran:
  assumes "ring_wf r" "ring_sorted r \<noteq> []"
  shows "walk_owner r i \<in> ran (ring_map r)"
proof -
  have "ring_sorted r ! (i mod length (ring_sorted r)) \<in> dom (ring_map r)"
    using assms unfolding ring_wf_def by (metis length_greater_0_conv mod_less_divisor nth_mem)
  then show ?thesis by (auto simp: walk_owner_def ring_owner_def ran_def)
qed

lemma prefix_getN_loop:
  "getN_loop r n idx res = Some out \<Longrightarrow> prefix res out"
proof (rule getN_loop.raw_induct [of "\<lambda>r n idx res out. prefix res out"])
  fix f r n idx res out
  assume IH: "\<And>r n idx res out. f r n idx res = Some out \<Longrightarrow> prefix res out"
    and eq: "(if length res < n then let node = ring_owner r (ring_sorted r ! (idx mod length (ring_sorted r))) in
         f r n (idx + 1) (if node \<in> set res then res else res @ [node]) else Some res) = Some out"
  show "prefix res out"
  proof (cases "length res < n")
    case True
    with eq have "\<exists>u. f r n (idx + 1) (res @ u) = Some out"
      by (simp add: Let_def split: if_splits) (metis append_Nil2)+
    then obtain u where "prefix (res @ u) out" using IH by blast
    then show ?thesis by (rule append_prefixD)
  qed (use eq in simp)
qed

lemma getN_loop_hd:
  assumes "ring_wf r" "ring_sorted r \<noteq> []" "getN_loop r n (ring_search h key r) [] = Some out" "length out = n" "0 < n"
  shows "hd out = ring_Get h key r"
proof -
  let ?i = "ring_search h key r"
  have "getN_loop r n (Suc ?i) [walk_owner r ?i] = Some out"
    using getN_loop_step [of "[]" n r ?i] assms(3,5) by simp
  then have "prefix [walk_owner r ?i] out" by (rule prefix_getN_loop)
  then have "hd out = walk_owner r ?i" by (auto simp: prefix_def)
  moreover have "walk_owner r ?i = ring_owner r (succ_point (set (ring_sorted r)) (h key))"
    using search_is_succ [OF _ assms(2), of h key] assms(1) by (simp add: walk_owner_def ring_wf_def)
  moreover have "dom (ring_map r) = set (ring_sorted r)" "set (ring_sorted r) \<noteq> {}"
    using assms(1,2) unfolding ring_wf_def by (simp, metis set_empty)
  ultimately show ?thesis by (simp add: Get_succ [OF assms(1)] del: dom_eq_empty_conv)
qed

text \<open>On a well-formed ring where every node has a point, \<open>GetN\<close> returns: it terminates
  without a panic with \<open>min n (Size)\<close> distinct registered nodes, the first of them the node
  \<open>Get\<close> returns.\<close>

theorem ring_GetN_returns_distinct:
  assumes "ring_wf r" and "all_present r" and "0 \<le> n"
  shows "\<exists>out. ring_GetN h key n r = Some (Inr out) \<and> distinct out
       \<and> int (length out) = min n (int (ring_Size r)) \<and> set out \<subseteq> set (ring_Nodes r)
       \<and> (0 < n \<and> ring_nodes r \<noteq> [] \<longrightarrow> hd out = ring_Get h key r)"
proof (cases "ring_nodes r = []")
  case True
  then show ?thesis using assms(3) by (simp add: ring_GetN_def ring_Size_def)
next
  case False
  let ?n' = "if n > int (length (ring_nodes r)) then int (length (ring_nodes r)) else n"
  let ?i = "ring_search h key r" and ?L = "length (ring_sorted r)"
  have ne: "ring_sorted r \<noteq> []"
  proof
    assume "ring_sorted r = []"
    then have "dom (ring_map r) = {}" using assms(1) unfolding ring_wf_def by (metis list.set(1))
    then have "ran (ring_map r) = {}" by (auto simp: ran_def)
    then show False using assms(2) False unfolding all_present_def by simp
  qed
  have cardn: "card (ran (ring_map r)) = length (ring_nodes r)"
    using assms(1,2) unfolding all_present_def ring_wf_def
    by (metis card_image distinct_card length_map list.set_map)
  have "nat ?n' \<le> length (ring_nodes r)" by auto
  also have "\<dots> \<le> card (set [] \<union> walk_owner r ` {?i..<?i + ?L})"
    unfolding cardn [symmetric] using walk_covers [OF assms(1) ne, of ?i] by (intro card_mono) auto
  finally obtain out where out: "getN_loop r (nat ?n') ?i [] = Some out" "distinct out"
      "length out = nat ?n'" "set out \<subseteq> range (walk_owner r)"
    using getN_loop_returns [of "[]" "nat ?n'" r ?i ?L] by auto
  have sub: "set out \<subseteq> set (ring_Nodes r)"
    using out(4) walk_owner_ran [OF assms(1) ne] assms(2)
    unfolding all_present_def ring_Nodes_def by auto
  have hd: "hd out = ring_Get h key r" if "0 < n"
    using getN_loop_hd [OF assms(1) ne out(1)] out(3) that False by simp
  have "ring_GetN h key n r = Some (Inr out)"
    using False ne assms(3) out(1) by (simp add: ring_GetN_def Let_def split: if_splits)
  with out(2,3) sub hd assms(3) show ?thesis by (auto simp: ring_Size_def)
qed

theorem ring_GetN_returns_distinct_witness:
  "\<exists>out. ring_GetN len_hash ''key0'' 5 two_node_ring = Some (Inr out) \<and> distinct out \<and> length out = 2"
proof -
  have n: "ring_nodes two_node_ring = [(''a'', 1), (''bb'', 1)]"
    by (simp add: two_node_ring_def ring_AddWeighted_def ring_New_def Let_def)
  have "all_present two_node_ring"
    by (simp add: all_present_def n two_node_ring_map ran_map_upd insert_commute)
  from ring_GetN_returns_distinct [OF two_node_ring_wf this, of 5 len_hash "''key0''"] n
  show ?thesis by (auto simp: ring_Size_def)
qed

end
