(* ===== verification/LayeredGateway.thy ===== *)
theory LayeredGateway
  imports Gateway
begin

text \<open>
  The module \<open>gateway/\<close>: the ingest handlers over a service layer that deduplicates and
  publishes, and a repository layer that archives.  The state and the environment are those of
  the theory \<open>Gateway\<close>, and so is \<open>readBody\<close>, which the module repeats; \<open>now\<close> is the
  instant of the request in milliseconds.  Archive writes are started and not waited for.
\<close>

section \<open>The service layer\<close>

record ingest_result =
  rr_Accepted :: nat
  rr_Filtered :: nat

definition ProcessBatch ::
  "'b bloom_lib \<Rightarrow> gateway_env \<Rightarrow> int \<Rightarrow> string \<Rightarrow> string \<Rightarrow> string \<Rightarrow> event list \<Rightarrow> 'b gateway \<Rightarrow>
   (go_error + ingest_result) \<times> 'b gateway" where
  "ProcessBatch BL env now appID deviceID clientIP events gw =
     (let original = length events;
          (unique, f) = dedup_loop BL now (ge_newID env) 0 events (gw_filter gw);
          filtered = original - length unique;
          gw1 = gw\<lparr>gw_filter := f\<rparr>
      in if unique = [] then (Inr \<lparr>rr_Accepted = 0, rr_Filtered = filtered\<rparr>, gw1)
         else
           (let batch = empty_batch\<lparr>eb_AppID := appID, eb_DeviceID := deviceID, eb_Events := unique\<rparr>;
                (err, p) = PublishAsync (tp_raw (ge_topics env)) (appID @ '':'' @ deviceID)
                  (encode_ingest batch (Some clientIP) now) (gw_producer gw1)
            in case err of
                 Some e \<Rightarrow> (Inl e, gw1\<lparr>gw_producer := p\<rparr>)
               | None \<Rightarrow> (Inr \<lparr>rr_Accepted = length unique, rr_Filtered = filtered\<rparr>, gw1\<lparr>gw_producer := p\<rparr>)))"

definition PublishIdentify ::
  "gateway_env \<Rightarrow> int \<Rightarrow> string \<Rightarrow> string \<Rightarrow> props \<Rightarrow> producer \<Rightarrow> go_error option \<times> producer" where
  "PublishIdentify env now appID userID traits p =
     (let evt = \<lparr>ev_EventID = ge_newID env 0, ev_EventName = ''user_updated'', ev_EventTime = now,
            ev_Props = traits, ev_Device = None, ev_App = None, ev_Revenue = 0\<rparr>;
          batch = empty_batch\<lparr>eb_AppID := appID, eb_UserID := userID, eb_Events := [evt]\<rparr>
      in PublishAsync (tp_raw (ge_topics env)) (appID @ '':'' @ userID) (encode_ingest batch None now) p)"

definition PublishTrack :: "gateway_env \<Rightarrow> int \<Rightarrow> string \<Rightarrow> event \<Rightarrow> producer \<Rightarrow> go_error option \<times> producer" where
  "PublishTrack env now appID evt p =
     (let evt1 = (if ev_EventID evt = [] then evt\<lparr>ev_EventID := ge_newID env 0\<rparr> else evt);
          evt2 = (if ev_EventTime evt1 = 0 then evt1\<lparr>ev_EventTime := now\<rparr> else evt1);
          batch = empty_batch\<lparr>eb_AppID := appID, eb_Events := [evt2]\<rparr>
      in PublishAsync (tp_raw (ge_topics env)) appID (encode_ingest batch None now) p)"

section \<open>The repository layer\<close>

text \<open>A nil client archives nothing.\<close>

definition gateway_archive :: "mongo_write \<Rightarrow> 'b gateway \<Rightarrow> 'b gateway" where
  "gateway_archive wr gw = gw\<lparr>gw_mongo := map_option (\<lambda>m. m @ [wr]) (gw_mongo gw)\<rparr>"

section \<open>The handlers\<close>

definition HandleIngest ::
  "'b bloom_lib \<Rightarrow> gateway_env \<Rightarrow> int \<Rightarrow> app \<Rightarrow> ingest_request \<Rightarrow> 'b gateway \<Rightarrow> response \<times> 'b gateway" where
  "HandleIngest BL env now a r gw =
     (case readBody env r of
        None \<Rightarrow> (writeError 400 ''invalid body'', gw)
      | Some body \<Rightarrow>
     (case ge_parse env body \<bind> jobj \<bind> decode_batch of
        None \<Rightarrow> (writeError 400 ''invalid JSON'', gw)
      | Some batch \<Rightarrow>
          if eb_Events batch = [] then (status_only 202, gw)
          else if length (eb_Events batch) > 500 then (writeError 400 ''max 500 events per batch'', gw)
          else
            (let clientIP = ExtractIP (ge_v6 env) (ir_forwarded r) (ir_remote r)
             in case ProcessBatch BL env now (app_ID a) (eb_DeviceID batch) clientIP (eb_Events batch) gw of
                  (Inl _, gw1) \<Rightarrow> (writeError 500 ''internal error'', gw1)
                | (Inr result, gw1) \<Rightarrow>
                    (writeJSON 202 (accepted_body (rr_Accepted result) (rr_Filtered result)),
                     if rr_Accepted result > 0 then gateway_archive (RawBatch (app_ID a) (eb_Events batch)) gw1 else gw1))))"

definition HandleIdentify ::
  "gateway_env \<Rightarrow> int \<Rightarrow> app \<Rightarrow> json option \<Rightarrow> 'b gateway \<Rightarrow> response \<times> 'b gateway" where
  "HandleIdentify env now a body gw =
     (case do { j \<leftarrow> body; m \<leftarrow> jobj j; u \<leftarrow> to_string [] (jvals ''user_id'' m);
               t \<leftarrow> to_props (jvals ''traits'' m); Some (u, t) } of
        None \<Rightarrow> (writeError 400 ''user_id required'', gw)
      | Some (userID, traits) \<Rightarrow>
          if userID = [] then (writeError 400 ''user_id required'', gw)
          else (case PublishIdentify env now (app_ID a) userID traits (gw_producer gw) of
              (Some _, p) \<Rightarrow> (writeError 500 ''internal error'', gw\<lparr>gw_producer := p\<rparr>)
            | (None, p) \<Rightarrow> (status_only 202, gateway_archive (ProfileUpsert (app_ID a) userID traits) (gw\<lparr>gw_producer := p\<rparr>))))"

definition HandleTrack ::
  "gateway_env \<Rightarrow> int \<Rightarrow> app \<Rightarrow> json option \<Rightarrow> 'b gateway \<Rightarrow> response \<times> 'b gateway" where
  "HandleTrack env now a body gw =
     (case do { j \<leftarrow> body; m \<leftarrow> jobj j; decode_event m } of
        None \<Rightarrow> (writeError 400 ''invalid JSON'', gw)
      | Some evt \<Rightarrow>
          (case PublishTrack env now (app_ID a) evt (gw_producer gw) of
             (Some _, p) \<Rightarrow> (writeError 500 ''internal error'', gw\<lparr>gw_producer := p\<rparr>)
           | (None, p) \<Rightarrow> (status_only 202, gw\<lparr>gw_producer := p\<rparr>)))"

definition Gateway_Health :: response where
  "Gateway_Health = writeJSON 200 (jmap [(''status'', ''ok''), (''service'', ''gateway'')])"

section \<open>Properties\<close>

text \<open>The batch as it is published: nothing of the request's user, SDK version and sending
  time is left.\<close>

definition published_batch :: "app \<Rightarrow> event_batch \<Rightarrow> event list \<Rightarrow> event_batch" where
  "published_batch a batch es = empty_batch\<lparr>eb_AppID := app_ID a, eb_DeviceID := eb_DeviceID batch, eb_Events := es\<rparr>"

lemma HandleIngest_cases:
  assumes "request_batch env r = Some batch" "eb_Events batch \<noteq> []" "length (eb_Events batch) \<le> 500"
    "dedup_loop BL now (ge_newID env) 0 (eb_Events batch) (gw_filter gw) = (es, f)"
  shows "HandleIngest BL env now a r gw =
     (writeJSON 202 (accepted_body (length es) (length (eb_Events batch) - length es)),
      if es = [] then gw\<lparr>gw_filter := f\<rparr>
      else gw\<lparr>gw_filter := f,
           gw_producer := \<lparr>pr_out = pr_out (gw_producer gw) @
             [(tp_raw (ge_topics env), app_ID a @ '':'' @ eb_DeviceID batch,
               the (encode_ingest (published_batch a batch es)
                 (Some (ExtractIP (ge_v6 env) (ir_forwarded r) (ir_remote r))) now))]\<rparr>,
           gw_mongo := map_option (\<lambda>m. m @ [RawBatch (app_ID a) (eb_Events batch)]) (gw_mongo gw)\<rparr>)"
proof -
  obtain body where body: "readBody env r = Some body" "ge_parse env body \<bind> jobj \<bind> decode_batch = Some batch"
    using assms(1) by (auto simp: request_batch_def bind_eq_Some_conv)
  then show ?thesis
    using assms(2-4)
    by (simp add: HandleIngest_def ProcessBatch_def Let_def PublishAsync_def encode_ingest_def gateway_archive_def
        published_batch_def)
qed

lemma published_batch_wf:
  assumes "wf_batch batch" "dedup_loop BL now newID 0 (eb_Events batch) flt = (es, f)"
  shows "wf_batch (published_batch a batch es)"
proof -
  have sub: "set es \<subseteq> set (named_events newID 0 (eb_Events batch))"
    using dedup_loop_FilterBatch [of BL now newID 0 "eb_Events batch" flt] assms(2) by (auto elim!: list_emb_set)
  have "list_all (\<lambda>e. wf_props (ev_Props e) \<and> in_i64 (ev_EventTime e)) (named_events newID 0 (eb_Events batch))"
    using assms(1) named_events_wf by (simp add: wf_batch_def)
  with sub show ?thesis
    by (auto simp: wf_batch_def published_batch_def empty_batch_def list_all_iff in_i64_def)
qed

text \<open>What the gateway module makes of a batch: the answer counts the new events and the
  duplicates; the message published for it decodes to the new events under the authenticated
  application, but to no user, whoever the batch names; and the archive gets all the events of
  the request, duplicates included and without the ids the gateway has assigned.\<close>

theorem service_batch_loses_user:
  assumes "request_batch env r = Some batch" "eb_Events batch \<noteq> []" "length (eb_Events batch) \<le> 500"
    "wf_batch batch" "in_i64 now"
    "dedup_loop BL now (ge_newID env) 0 (eb_Events batch) (gw_filter gw) = (es, f)" "es \<noteq> []"
    "HandleIngest BL env now a r gw = (resp, gw')"
  shows "resp = writeJSON 202 (accepted_body (length es) (length (eb_Events batch) - length es))
    \<and> (\<exists>j msg. pr_out (gw_producer gw') = pr_out (gw_producer gw) @
          [(tp_raw (ge_topics env), app_ID a @ '':'' @ eb_DeviceID batch, j)]
        \<and> decode_ingest j = Some msg \<and> eb_AppID (im_Batch msg) = app_ID a
        \<and> eb_DeviceID (im_Batch msg) = eb_DeviceID batch \<and> eb_Events (im_Batch msg) = es
        \<and> eb_UserID (im_Batch msg) = [])
    \<and> gw_mongo gw' = map_option (\<lambda>m. m @ [RawBatch (app_ID a) (eb_Events batch)]) (gw_mongo gw)"
proof -
  let ?ip = "ExtractIP (ge_v6 env) (ir_forwarded r) (ir_remote r)"
  note h = HandleIngest_cases [OF assms(1-3,6), of a]
  obtain v msg where v: "encode_ingest (published_batch a batch es) (Some ?ip) now = Some v"
    "decode_ingest v = Some msg" "im_Batch msg = published_batch a batch es"
    using ingest_roundtrip [OF published_batch_wf [OF assms(4,6)] assms(5), of a "Some ?ip"] by auto
  then show ?thesis
    using h assms(7,8) by (auto simp: published_batch_def empty_batch_def)
qed

theorem service_batch_loses_user_witness:
  "\<exists>resp gw'. HandleIngest list_bloom demo_env 1 demo_app demo_request demo_gateway = (resp, gw')
     \<and> (\<exists>j msg. pr_out (gw_producer gw') = [(''raw'', ''a:d'', j)] \<and> decode_ingest j = Some msg
        \<and> eb_UserID (im_Batch msg) = [] \<and> eb_Events (im_Batch msg) = [plain_event])"
proof -
  obtain resp gw' where h: "HandleIngest list_bloom demo_env 1 demo_app demo_request demo_gateway = (resp, gw')"
    by (cases "HandleIngest list_bloom demo_env 1 demo_app demo_request demo_gateway")
  obtain f where loop: "dedup_loop list_bloom 1 (ge_newID demo_env) 0 (eb_Events (batch_of [plain_event])) (gw_filter demo_gateway)
      = ([plain_event], f)"
    by (simp add: batch_of_def plain_event_def demo_gateway_def NewFilter_def list_bloom_def TestAndAdd_def maybeRotate_def Let_def)
  have b: "eb_Events (batch_of [plain_event]) \<noteq> []" "length (eb_Events (batch_of [plain_event])) \<le> 500"
    "in_i64 1" "[plain_event] \<noteq> []"
    by (simp_all add: batch_of_def in_i64_def)
  have "pr_out (gw_producer demo_gateway) = []" "tp_raw (ge_topics demo_env) = ''raw''" "app_ID demo_app = ''a''"
    "eb_DeviceID (batch_of [plain_event]) = ''d''"
    by (simp_all add: demo_gateway_def demo_app_def demo_env_def batch_of_def)
  with service_batch_loses_user [OF demo_batch(1) b(1,2) demo_batch(2) b(3) loop b(4) h] h
  show ?thesis by auto
qed

text \<open>Identify requires a user.\<close>

lemma identify_requires_user:
  assumes "HandleIdentify env now a body gw = (resp, gw')" "rs_status resp = 202"
  shows "\<exists>u traits. u \<noteq> [] \<and> gw_mongo gw' = map_option (\<lambda>m. m @ [ProfileUpsert (app_ID a) u traits]) (gw_mongo gw)"
  using assms
  by (auto simp: HandleIdentify_def gateway_archive_def PublishIdentify_def PublishAsync_def encode_ingest_def Let_def
      split: option.splits if_splits) blast+

end
