(* ===== verification/LayeredEnricher.thy ===== *)
theory LayeredEnricher
  imports Pipeline
begin

text \<open>
  The module \<open>enricher/\<close>: enrichment with a user-agent classifier of its own, applied to
  each event, and its message handler.  The location comes from the shared \<open>geo\<close>
  package; \<open>now\<close> is the clock in milliseconds.
\<close>

section \<open>Searching\<close>

text \<open>The loop of \<open>containsStr\<close> from \<open>i\<close>; \<open>len(s)-len(sub)\<close> can be negative.\<close>

function containsStr_from :: "string \<Rightarrow> string \<Rightarrow> nat \<Rightarrow> bool" where
  "containsStr_from s sub i =
     (if int i \<le> int (length s) - int (length sub) then
        (if take (length sub) (drop i s) = sub then True else containsStr_from s sub (i + 1))
      else False)"
  by pat_completeness auto
termination by (relation "measure (\<lambda>(s, sub, i). Suc (length s) - i)") auto

declare containsStr_from.simps [simp del]

definition containsStr :: "string \<Rightarrow> string \<Rightarrow> bool" where
  "containsStr s sub = containsStr_from s sub 0"

definition contains :: "string \<Rightarrow> string \<Rightarrow> bool" where
  "contains s sub \<longleftrightarrow> length s \<ge> length sub \<and> (s = sub \<or> length s > 0 \<and> containsStr s sub)"

section \<open>User agents\<close>

record ua_info =
  ua_Browser :: string
  ua_Version :: string
  ua_OS :: string

definition service_parseUA :: "string \<Rightarrow> ua_info" where
  "service_parseUA ua = \<lparr>
     ua_Browser =
       (if contains ua ''Chrome'' then ''Chrome''
        else if contains ua ''Firefox'' then ''Firefox''
        else if contains ua ''Safari'' then ''Safari''
        else if contains ua ''Edge'' then ''Edge''
        else []),
     ua_Version = [],
     ua_OS =
       (if contains ua ''Windows'' then ''Windows''
        else if contains ua ''Mac OS'' then ''macOS''
        else if contains ua ''Linux'' then ''Linux''
        else if contains ua ''Android'' then ''Android''
        else if contains ua ''iPhone'' \<or> contains ua ''iPad'' then ''iOS''
        else [])\<rparr>"

section \<open>Enrichment\<close>

text \<open>\<open>Lookup\<close> never returns an error.\<close>

definition EnricherService_event ::
  "(string \<Rightarrow> nat list option) \<Rightarrow> geo_db option option \<Rightarrow> string \<Rightarrow> event_batch \<Rightarrow> int \<Rightarrow> event \<Rightarrow> enriched_event" where
  "EnricherService_event v6 geo clientIP batch serverTs evt =
     (let loc = (case geo of
            Some db \<Rightarrow> if clientIP \<noteq> [] then geo_Lookup v6 db clientIP else zero_location
          | None \<Rightarrow> zero_location);
          ua = (case ev_Device evt of
            Some d \<Rightarrow> if UserAgent d \<noteq> [] then service_parseUA (UserAgent d) else \<lparr>ua_Browser = [], ua_Version = [], ua_OS = []\<rparr>
          | None \<Rightarrow> \<lparr>ua_Browser = [], ua_Version = [], ua_OS = []\<rparr>)
      in \<lparr>ee_EventID = ev_EventID evt, ee_EventName = ev_EventName evt,
        ee_EventTime = ev_EventTime evt, ee_Props = ev_Props evt, ee_Device = ev_Device evt,
        ee_App = ev_App evt, ee_Revenue = ev_Revenue evt, ee_AppID = eb_AppID batch,
        ee_UserID = eb_UserID batch, ee_DeviceID = eb_DeviceID batch, ee_SessionID = [],
        ee_ServerTime = serverTs, ee_ClientOffsetMs = i64 (serverTs - ev_EventTime evt),
        ee_CountryCode = lc_CountryCode loc, ee_CountryName = lc_CountryName loc,
        ee_Region = lc_Region loc, ee_City = lc_City loc, ee_Latitude = lc_Latitude loc,
        ee_Longitude = lc_Longitude loc, ee_Browser = ua_Browser ua,
        ee_BrowserVersion = ua_Version ua, ee_OSFamily = ua_OS ua,
        ee_InstallSource = [], ee_CampaignID = [], ee_AdsetID = []\<rparr>)"

definition EnricherService_Enrich ::
  "(string \<Rightarrow> nat list option) \<Rightarrow> geo_db option option \<Rightarrow> int \<Rightarrow> ingest_message \<Rightarrow> enriched_event list" where
  "EnricherService_Enrich v6 geo now msg =
     (let batch = im_Batch msg; serverTs = (if im_ServerTS msg = 0 then now else im_ServerTS msg)
      in map (EnricherService_event v6 geo (im_ClientIP msg) batch serverTs) (eb_Events batch))"

definition EnricherHandler_Handle ::
  "(string \<Rightarrow> nat list option) \<Rightarrow> geo_db option option \<Rightarrow> string \<Rightarrow> int \<Rightarrow> producer handler" where
  "EnricherHandler_Handle v6 geo topicOut now key value p =
     (case value \<bind> decode_ingest of
        None \<Rightarrow> (None, p)
      | Some msg \<Rightarrow> (None, publish_all topicOut
          (map (\<lambda>e. (device_key e, Some (encode_enriched e))) (EnricherService_Enrich v6 geo now msg)) p))"

section \<open>Properties\<close>

lemma containsStr_from_iff:
  "containsStr_from s sub i \<longleftrightarrow> (\<exists>j \<ge> i. j + length sub \<le> length s \<and> take (length sub) (drop j s) = sub)"
proof (induction s sub i rule: containsStr_from.induct)
  case (1 s sub i)
  have split: "(\<exists>j \<ge> i. P j) \<longleftrightarrow> P i \<or> (\<exists>j \<ge> i + 1. P j)" for P
    by (metis Suc_eq_plus1 Suc_leD le_antisym not_less_eq_eq order_refl)
  show ?case
  proof (cases "int i \<le> int (length s) - int (length sub)")
    case True
    then have "i + length sub \<le> length s" by simp
    with True "1.IH" show ?thesis
      by (subst containsStr_from.simps) (simp add: split [of "\<lambda>j. j + length sub \<le> length s \<and> take (length sub) (drop j s) = sub"])
  next
    case False
    then show ?thesis by (subst containsStr_from.simps) auto
  qed
qed

lemma sublist_take_drop: "sublist sub s \<longleftrightarrow> (\<exists>j. j + length sub \<le> length s \<and> take (length sub) (drop j s) = sub)"
proof
  assume "sublist sub s"
  then obtain u v where "s = u @ sub @ v" by (auto simp: sublist_def)
  then show "\<exists>j. j + length sub \<le> length s \<and> take (length sub) (drop j s) = sub"
    by (intro exI [of _ "length u"]) simp
next
  assume "\<exists>j. j + length sub \<le> length s \<and> take (length sub) (drop j s) = sub"
  then obtain j where "take (length sub) (drop j s) = sub" by blast
  then have "s = take j s @ sub @ drop (length sub) (drop j s)"
    by (metis append_take_drop_id)
  then show "sublist sub s" by (metis sublist_appendI)
qed

text \<open>C33: The hand-written search is the library's: \<open>contains\<close> decides whether the second
  string occurs in the first, for all strings, the empty ones included.\<close>

theorem contains_is_sublist: "contains s sub = str_contains s sub"
proof -
  have "containsStr s sub \<longleftrightarrow> sublist sub s"
    by (simp add: containsStr_def containsStr_from_iff sublist_take_drop)
  then show ?thesis
    unfolding str_contains_iff contains_def by (auto dest: sublist_length_le)
qed

text \<open>The order of the tests decides: whatever names Linux is Linux, as all Android user
  agents do, and whatever names Mac OS is macOS, as those of iPhones and iPads do; Edge is
  found only where neither Chrome nor Safari is named.\<close>

lemma android_is_linux:
  assumes "str_contains ua ''Linux''"
  shows "ua_OS (service_parseUA ua) \<noteq> ''Android''"
    and "str_contains ua ''Mac OS'' \<Longrightarrow> ua_OS (service_parseUA ua) \<noteq> ''iOS''"
  using assms by (simp_all add: service_parseUA_def contains_is_sublist)

lemma EnricherService_event_wf:
  "wf_props (ev_Props evt) \<Longrightarrow> in_i64 (ev_EventTime evt) \<Longrightarrow> in_i64 serverTs \<Longrightarrow>
   wf_enriched (EnricherService_event v6 geo ip batch serverTs evt)"
  by (simp add: wf_enriched_def EnricherService_event_def Let_def)

end
