(* ===== verification/LayeredSession.thy ===== *)
theory LayeredSession
  imports Pipeline
begin

text \<open>
  The module \<open>session/\<close>: a session engine that goes by its own clock instead of the
  events' times and keeps one state for each application and device in Redis for 35 minutes.
  \<open>Process\<close> reads the clock for \<open>now\<close>, for \<open>updated_at\<close> and, on the server, for
  the expiry; one instant \<open>clock\<close> (nanoseconds) stands for them.  \<open>newID\<close> is the id
  the call draws when it opens a session.
\<close>

section \<open>The repository layer\<close>

definition sessionTTL :: int where
  "sessionTTL = 35 * 60 * 1000000000"

definition sessionKey :: "string \<Rightarrow> string \<Rightarrow> string" where
  "sessionKey appID deviceID = ''session:'' @ appID @ '':'' @ deviceID"

definition GetSession ::
  "('s, json) redis \<Rightarrow> 's \<Rightarrow> int \<Rightarrow> string \<Rightarrow> string \<Rightarrow> go_error + session_state" where
  "GetSession R s clock appID deviceID =
     redis_GetJSON R decode_session_state s clock (sessionKey appID deviceID)"

definition SaveSession ::
  "('s, json) redis \<Rightarrow> 's \<Rightarrow> int \<Rightarrow> session_state \<Rightarrow> go_error option \<times> 's" where
  "SaveSession R s clock state =
     (case encode_session_state state of
        None \<Rightarrow> (Some (Errorf ''json''), s)
      | Some data \<Rightarrow> redis_Set R s clock (sessionKey (ss_AppID state) (ss_DeviceID state)) data sessionTTL)"

definition DeleteSession :: "('s, json) redis \<Rightarrow> 's \<Rightarrow> int \<Rightarrow> string \<Rightarrow> string \<Rightarrow> go_error option \<times> 's" where
  "DeleteSession R s clock appID deviceID = redis_Del R s clock (sessionKey appID deviceID)"

section \<open>The service layer\<close>

text \<open>\<open>sessionTimeout.Milliseconds()\<close>.\<close>

definition sessionTimeout_ms :: int where
  "sessionTimeout_ms = 30 * 60 * 1000"

definition screenFromProps :: "props \<Rightarrow> string" where
  "screenFromProps p = (case prop_string p ''screen_name'' of Some s \<Rightarrow> s | None \<Rightarrow> [])"

definition new_session :: "int \<Rightarrow> string \<Rightarrow> enriched_event \<Rightarrow> session_state" where
  "new_session now newID event =
     \<lparr>ss_SessionID = newID, ss_AppID = ee_AppID event, ss_UserID = ee_UserID event,
      ss_DeviceID = ee_DeviceID event, ss_StartTimeMs = now, ss_LastEventMs = now, ss_EventCount = 1,
      ss_Screens = [], ss_EntryScreen = screenFromProps (ee_Props event), ss_UpdatedAt = now\<rparr>"

definition continue_session :: "int \<Rightarrow> enriched_event \<Rightarrow> session_state \<Rightarrow> session_state" where
  "continue_session now event st =
     (let st1 = st\<lparr>ss_EventCount := i64 (ss_EventCount st + 1), ss_LastEventMs := now, ss_UpdatedAt := now\<rparr>;
          screen = screenFromProps (ee_Props event)
      in if screen \<noteq> [] then st1\<lparr>ss_Screens := ss_Screens st1 @ [screen]\<rparr> else st1)"

definition buildSessionStart :: "session_state \<Rightarrow> session_event" where
  "buildSessionStart s =
     \<lparr>se_SessionID = ss_SessionID s, se_AppID = ss_AppID s, se_UserID = ss_UserID s,
      se_DeviceID = ss_DeviceID s, se_StartTimeMs = ss_StartTimeMs s, se_EndTimeMs = 0, se_DurationS = 0,
      se_EventCount = 0, se_Screens = None, se_EntryScreen = ss_EntryScreen s, se_ExitScreen = [],
      se_ExitReason = [], se_Type = ''session_start''\<rparr>"

definition buildSessionEnd :: "session_state \<Rightarrow> int \<Rightarrow> string \<Rightarrow> string \<Rightarrow> session_event" where
  "buildSessionEnd s endMs exitScreen reason =
     \<lparr>se_SessionID = ss_SessionID s, se_AppID = ss_AppID s, se_UserID = ss_UserID s,
      se_DeviceID = ss_DeviceID s, se_StartTimeMs = ss_StartTimeMs s, se_EndTimeMs = endMs,
      se_DurationS = go_quot (i64 (endMs - ss_StartTimeMs s)) 1000,
      se_EventCount = ss_EventCount s, se_Screens = None, se_EntryScreen = ss_EntryScreen s,
      se_ExitScreen = exitScreen, se_ExitReason = reason, se_Type = ''session_end''\<rparr>"

text \<open>The updated event and the synthetic ones; a failed save is only logged, and no error
  is ever returned.\<close>

definition SessionService_Process ::
  "('s, json) redis \<Rightarrow> int \<Rightarrow> string \<Rightarrow> enriched_event \<Rightarrow> 's \<Rightarrow> (enriched_event \<times> session_event list) \<times> 's" where
  "SessionService_Process R clock newID event s =
     (let now = clock div 1000000;
          (state, sessionEvts) = (case GetSession R s clock (ee_AppID event) (ee_DeviceID event) of
              Inl _ \<Rightarrow> (let st = new_session now newID event in (st, [buildSessionStart st]))
            | Inr old \<Rightarrow>
                if i64 (now - ss_LastEventMs old) > sessionTimeout_ms
                then (let st = new_session now newID event in
                      (st, [buildSessionEnd old now (screenFromProps (ee_Props event)) ''timeout'', buildSessionStart st]))
                else (continue_session now event old, []))
      in ((event\<lparr>ee_SessionID := ss_SessionID state\<rparr>, sessionEvts), snd (SaveSession R s clock state)))"

section \<open>The handler layer\<close>

definition SessionHandler_Handle ::
  "('s, json) redis \<Rightarrow> string \<Rightarrow> int \<Rightarrow> string \<Rightarrow> ('s \<times> producer) handler" where
  "SessionHandler_Handle R topicOut clock newID key value sp =
     (case value \<bind> decode_enriched of
        None \<Rightarrow> (None, sp)
      | Some event \<Rightarrow>
          (case SessionService_Process R clock newID event (fst sp) of
             ((updated, sessionEvts), s') \<Rightarrow>
               (None, (s', publish_all topicOut
                  ((device_key updated, Some (encode_enriched updated))
                   # map (\<lambda>se. (device_key updated, Some (encode_session_event se))) sessionEvts) (snd sp)))))"

section \<open>Lemmas\<close>

lemma to_int_in_i64: "in_i64 z \<Longrightarrow> to_int z vs = Some i \<Longrightarrow> in_i64 i"
  by (induction z vs rule: to_int.induct) (auto split: if_splits)

text \<open>Whatever was stored, the numbers read from it are 64-bit.\<close>

lemma decode_session_state_wf: "decode_session_state j = Some st \<Longrightarrow> wf_session_state st"
  by (auto simp: decode_session_state_def wf_session_state_def bind_eq_Some_conv in_i64_def
      dest!: to_int_in_i64 [rotated])

lemma new_session_wf: "valid_ms now \<Longrightarrow> wf_session_state (new_session now newID event)"
  by (simp add: new_session_def wf_session_state_def valid_ms_def in_i64_def)

lemma continue_session_wf: "wf_session_state st \<Longrightarrow> valid_ms now \<Longrightarrow> wf_session_state (continue_session now event st)"
  using i64_range [of "ss_EventCount st + 1"]
  by (auto simp: continue_session_def wf_session_state_def Let_def valid_ms_def in_i64_def)

text \<open>A state found under a device's key is that device's.\<close>

definition own_state :: "('s, json) redis \<Rightarrow> 's \<Rightarrow> int \<Rightarrow> string \<Rightarrow> string \<Rightarrow> bool" where
  "own_state R s clock appID deviceID \<longleftrightarrow>
     (case GetSession R s clock appID deviceID of
        Inl _ \<Rightarrow> True | Inr st \<Rightarrow> ss_AppID st = appID \<and> ss_DeviceID st = deviceID)"

text \<open>The state the call leaves for a device.\<close>

definition next_state :: "('s, json) redis \<Rightarrow> int \<Rightarrow> string \<Rightarrow> enriched_event \<Rightarrow> 's \<Rightarrow> session_state" where
  "next_state R clock newID event s =
     (let now = clock div 1000000 in
      case GetSession R s clock (ee_AppID event) (ee_DeviceID event) of
        Inl _ \<Rightarrow> new_session now newID event
      | Inr old \<Rightarrow> if i64 (now - ss_LastEventMs old) > sessionTimeout_ms then new_session now newID event
          else continue_session now event old)"

lemma Process_next_state:
  "snd (SessionService_Process R clock newID event s) = snd (SaveSession R s clock (next_state R clock newID event s))"
  "fst (fst (SessionService_Process R clock newID event s)) = event\<lparr>ee_SessionID := ss_SessionID (next_state R clock newID event s)\<rparr>"
  by (simp_all add: SessionService_Process_def next_state_def Let_def split: sum.splits)

lemma session_fields [simp]:
  "ss_SessionID (new_session now i event) = i" "ss_SessionID (continue_session now event st) = ss_SessionID st"
  "ss_LastEventMs (new_session now i event) = now" "ss_LastEventMs (continue_session now event st) = now"
  "ss_AppID (new_session now i event) = ee_AppID event" "ss_AppID (continue_session now event st) = ss_AppID st"
  "ss_DeviceID (new_session now i event) = ee_DeviceID event" "ss_DeviceID (continue_session now event st) = ss_DeviceID st"
  by (simp_all add: new_session_def continue_session_def Let_def)

lemma next_state_facts:
  fixes newID :: string
  assumes "valid_ms (clock div 1000000)" "own_state R s clock (ee_AppID event) (ee_DeviceID event)"
  defines "st \<equiv> next_state R clock newID event s"
  shows "wf_session_state st" "ss_LastEventMs st = clock div 1000000"
    "ss_AppID st = ee_AppID event" "ss_DeviceID st = ee_DeviceID event"
proof -
  have wf: "wf_session_state old" if "GetSession R s clock (ee_AppID event) (ee_DeviceID event) = Inr old" for old
    using that by (auto simp: GetSession_def redis_GetJSON_def split: sum.splits option.splits
        intro: decode_session_state_wf)
  show "wf_session_state st"
    using assms(1) wf by (auto simp: st_def next_state_def Let_def new_session_wf continue_session_wf split: sum.splits)
  show "ss_LastEventMs st = clock div 1000000"
    by (simp add: st_def next_state_def Let_def split: sum.splits)
  show "ss_AppID st = ee_AppID event" "ss_DeviceID st = ee_DeviceID event"
    using assms(2) by (simp_all add: st_def next_state_def own_state_def Let_def split: sum.splits)
qed

lemma GetSession_after:
  assumes "redis_kv R" "redis_up R" "valid_ms (clock div 1000000)" "own_state R s clock (ee_AppID event) (ee_DeviceID event)"
    "clock \<le> t"
  shows "GetSession R (snd (SessionService_Process R clock newID event s)) t (ee_AppID event) (ee_DeviceID event) =
    (if t < clock + sessionTTL then Inr (next_state R clock newID event s) else Inl ErrNotFound)"
proof -
  note st = next_state_facts [OF assms(3,4), of newID]
  let ?st = "next_state R clock newID event s"
  obtain v where v: "encode_session_state ?st = Some v" "decode_session_state v = Some ?st"
    using session_state_roundtrip [OF st(1)] by blast
  obtain s' where s': "raw_Set R s clock (sessionKey (ee_AppID event) (ee_DeviceID event)) v sessionTTL = (None, s')"
    using assms(2) by (metis prod.collapse redis_up_def)
  have "raw_Get R s' t (sessionKey (ee_AppID event) (ee_DeviceID event)) =
      (if t < clock + sessionTTL then Inr v else Inl ErrNotFound)"
    using assms(1,5) s' unfolding redis_kv_def by metis
  then show ?thesis
    using v s' st by (simp add: Process_next_state SaveSession_def redis_Set_def GetSession_def redis_GetJSON_def)
qed

section \<open>Properties\<close>



text \<open>The end of a session is dated to the event that came after the silence: every
  session that is ended counts at least the thirty minutes nobody was there, and its exit screen
  is the first screen of the next session.\<close>

lemma session_end_overstates:
  assumes "SessionService_Process R clock newID event s = ((updated, evts), s')" "se \<in> set evts" "se_Type se = ''session_end''"
    "GetSession R s clock (ee_AppID event) (ee_DeviceID event) = Inr old" "ss_StartTimeMs old \<le> ss_LastEventMs old"
    "valid_ms (clock div 1000000)" "valid_ms (ss_StartTimeMs old)"
    "valid_ms (ss_LastEventMs old)"
  shows "se_DurationS se \<ge> (ss_LastEventMs old - ss_StartTimeMs old) div 1000 + 1800
     \<and> se_ExitScreen se = screenFromProps (ee_Props event)"
proof -
  define now where "now = clock div 1000000"
  have w: "i64 (now - ss_LastEventMs old) = now - ss_LastEventMs old" "i64 (now - ss_StartTimeMs old) = now - ss_StartTimeMs old"
    using assms(6-8) by (auto intro!: i64_id simp: valid_ms_def in_i64_def now_def)
  have se: "now - ss_LastEventMs old > 1800000" "se = buildSessionEnd old now (screenFromProps (ee_Props event)) ''timeout''"
    using assms(1-4) w
    by (auto simp: SessionService_Process_def Let_def now_def [symmetric] sessionTimeout_ms_def buildSessionStart_def split: if_splits)
  have "(ss_LastEventMs old - ss_StartTimeMs old) div 1000 + 1800 \<le> (now - ss_StartTimeMs old) div 1000"
    using se(1) by (simp add: zdiv_mono1 [of "ss_LastEventMs old - ss_StartTimeMs old + 1800000" "now - ss_StartTimeMs old" 1000, simplified])
  then show ?thesis
    using se w(2) assms(5) by (simp add: buildSessionEnd_def)
qed

end
