(* ===== verification/LayeredWriter.thy ===== *)
theory LayeredWriter
  imports Pipeline
begin

text \<open>
  The module \<open>chwriter/\<close>: the handler that turns the records of the session topic into
  rows, and the two conversions.  \<open>g\<close> is \<open>strconv.FormatFloat(t, 'f', -1, 64)\<close>.
\<close>

section \<open>The rows\<close>

definition asString :: "(f64 \<Rightarrow> string) \<Rightarrow> json \<Rightarrow> string" where
  "asString g v = (case v of
      JNull \<Rightarrow> []
    | JStr t \<Rightarrow> t
    | JNum t \<Rightarrow> g t
    | JBool t \<Rightarrow> if t then ''true'' else ''false''
    | _ \<Rightarrow> [])"

definition EnrichedToCHEvent :: "(f64 \<Rightarrow> string) \<Rightarrow> enriched_event \<Rightarrow> ch_event" where
  "EnrichedToCHEvent g e =
     \<lparr>ch_AppID = ee_AppID e, ch_EventID = ee_EventID e, ch_UserID = ee_UserID e,
      ch_DeviceID = ee_DeviceID e, ch_EventName = ee_EventName e, ch_EventTime = ee_EventTime e,
      ch_ServerTime = ee_ServerTime e, ch_SessionID = ee_SessionID e,
      ch_CountryCode = ee_CountryCode e,
      ch_Platform = (case ee_App e of None \<Rightarrow> [] | Some a \<Rightarrow> Platform a),
      ch_AppVersion = (case ee_App e of None \<Rightarrow> [] | Some a \<Rightarrow> Version a),
      ch_OSFamily = ee_OSFamily e, ch_Browser = ee_Browser e, ch_City = ee_City e,
      ch_Revenue = ee_Revenue e,
      ch_Props = (case ee_Props e of None \<Rightarrow> [] | Some m \<Rightarrow> map (\<lambda>(k, v). (k, asString g v)) m),
      ch_CampaignID = ee_CampaignID e, ch_InstallSrc = ee_InstallSource e\<rparr>"

definition SessionToCHEvent :: "session_event \<Rightarrow> ch_event" where
  "SessionToCHEvent se = zero_ch_event
     \<lparr>ch_AppID := se_AppID se, ch_EventID := se_SessionID se @ ''-'' @ se_Type se,
      ch_UserID := se_UserID se, ch_DeviceID := se_DeviceID se, ch_EventName := se_Type se,
      ch_EventTime := se_StartTimeMs se, ch_ServerTime := se_StartTimeMs se,
      ch_SessionID := se_SessionID se,
      ch_Props := [(''session_duration_s'', itoa (se_DurationS se)),
        (''event_count'', itoa (se_EventCount se)), (''entry_screen'', se_EntryScreen se),
        (''exit_screen'', se_ExitScreen se), (''exit_reason'', se_ExitReason se)]\<rparr>"

section \<open>The handler\<close>

text \<open>The row of a record, \<open>None\<close> when it is skipped.\<close>

definition record_row :: "(f64 \<Rightarrow> string) \<Rightarrow> json option \<Rightarrow> ch_event option" where
  "record_row g value =
     (case (case value \<bind> decode_enriched of
              Some enriched \<Rightarrow> if ee_EventID enriched \<noteq> [] then Some (EnrichedToCHEvent g enriched) else None
            | None \<Rightarrow> None) of
        Some r \<Rightarrow> Some r
      | None \<Rightarrow> (case value \<bind> decode_session_event of
            Some se \<Rightarrow> if se_SessionID se \<noteq> [] then Some (SessionToCHEvent se) else None
          | None \<Rightarrow> None))"

text \<open>\<open>Repo.WriteEvents\<close> drops the error of \<open>Write\<close>; the state is \<open>None\<close> after a
  panic.\<close>

definition WriteEvents :: "ch_event list \<Rightarrow> sharded option \<Rightarrow> sharded option" where
  "WriteEvents events sw = sw \<bind> (\<lambda>w. map_option snd (sharded_Write events w))"

definition WriterHandler_Handle :: "(f64 \<Rightarrow> string) \<Rightarrow> sharded option handler" where
  "WriterHandler_Handle g key value sw =
     (case record_row g value of
        None \<Rightarrow> (None, sw)
      | Some chEvt \<Rightarrow> (None, WriteEvents [chEvt] sw))"

section \<open>Properties\<close>

lemma record_row_enriched:
  "wf_enriched e \<Longrightarrow> ee_EventID e \<noteq> [] \<Longrightarrow> record_row g (Some (encode_enriched e)) = Some (EnrichedToCHEvent g e)"
  by (simp add: record_row_def enriched_decodes)

lemma record_row_session:
  assumes "in_i64 (se_StartTimeMs se)" "in_i64 (se_EndTimeMs se)" "in_i64 (se_DurationS se)" "in_i64 (se_EventCount se)"
    "se_SessionID se \<noteq> []"
  shows "record_row g (Some (encode_session_event se)) = Some (SessionToCHEvent se)"
  using session_event_roundtrip [OF assms(1-4)] assms(5)
  by (simp add: record_row_def session_event_as_enriched zero_enriched_def)


definition ended_session :: session_event where
  "ended_session = \<lparr>se_SessionID = ''s'', se_AppID = ''a'', se_UserID = [], se_DeviceID = ''d'',
     se_StartTimeMs = 1000, se_EndTimeMs = 1900000, se_DurationS = 1899, se_EventCount = 3, se_Screens = None,
     se_EntryScreen = ''home'', se_ExitScreen = [], se_ExitReason = ''timeout'', se_Type = ''session_end''\<rparr>"


text \<open>Nested property values are written as empty strings.\<close>

lemma nested_props_emptied: "asString g (JArr xs) = [] \<and> asString g (JObj m) = []"
  by (simp add: asString_def)

end
