(* ===== verification/LayeredFlow.thy ===== *)
theory LayeredFlow
  imports LayeredGateway LayeredEnricher LayeredSession LayeredWriter
begin

text \<open>
  The modules \<open>gateway/\<close>, \<open>enricher/\<close>, \<open>session/\<close> and \<open>chwriter/\<close> put
  together along their topics, each handling the records of a topic in the order they were
  published in.  \<open>clk n\<close> and \<open>ids n\<close> are the session engine's clock and fresh id at
  its \<open>n\<close>th record.
\<close>

fun enricher_run ::
  "(string \<Rightarrow> nat list option) \<Rightarrow> geo_db option option \<Rightarrow> string \<Rightarrow> int \<Rightarrow> (string \<times> string \<times> json) list \<Rightarrow> producer \<Rightarrow> producer" where
  "enricher_run v6 geo topic now [] p = p"
| "enricher_run v6 geo topic now ((_, key, j) # rs) p =
     enricher_run v6 geo topic now rs (snd (EnricherHandler_Handle v6 geo topic now key (Some j) p))"

fun engine_run ::
  "('s, json) redis \<Rightarrow> string \<Rightarrow> (nat \<Rightarrow> int) \<Rightarrow> (nat \<Rightarrow> string) \<Rightarrow> nat \<Rightarrow> (string \<times> string \<times> json) list \<Rightarrow>
   's \<times> producer \<Rightarrow> 's \<times> producer" where
  "engine_run R topic clk ids n [] sp = sp"
| "engine_run R topic clk ids n ((_, key, j) # rs) sp =
     engine_run R topic clk ids (Suc n) rs (snd (SessionHandler_Handle R topic (clk n) (ids n) key (Some j) sp))"

definition written_rows :: "(f64 \<Rightarrow> string) \<Rightarrow> (string \<times> string \<times> json) list \<Rightarrow> ch_event list" where
  "written_rows g rs = List.map_filter (\<lambda>(topic, key, j). record_row g (Some j)) rs"

text \<open>The session service alone, on a list of events.\<close>

fun service_stream ::
  "('s, json) redis \<Rightarrow> (nat \<Rightarrow> int) \<Rightarrow> (nat \<Rightarrow> string) \<Rightarrow> nat \<Rightarrow> enriched_event list \<Rightarrow> 's \<Rightarrow> (enriched_event \<times> session_event list) list" where
  "service_stream R clk ids n [] s = []"
| "service_stream R clk ids n (e # es) s =
     (let (out, s') = SessionService_Process R (clk n) (ids n) e s in out # service_stream R clk ids (Suc n) es s')"

section \<open>Lemmas\<close>

lemma written_rows_append [simp]: "written_rows g (rs @ rs') = written_rows g rs @ written_rows g rs'"
  by (simp add: written_rows_def List.map_filter_def)

lemma written_rows_Nil [simp]: "written_rows g [] = []"
  by (simp add: written_rows_def List.map_filter_def)

lemma written_rows_Cons:
  "written_rows g ((t, k, j) # rs) = (case record_row g (Some j) of None \<Rightarrow> [] | Some r \<Rightarrow> [r]) @ written_rows g rs"
  by (simp add: written_rows_def List.map_filter_def split: option.splits)

text \<open>A synthetic event the writer reads as such.\<close>

definition ok_session_event :: "session_event \<Rightarrow> bool" where
  "ok_session_event se \<longleftrightarrow> in_i64 (se_StartTimeMs se) \<and> in_i64 (se_EndTimeMs se) \<and> in_i64 (se_DurationS se)
     \<and> in_i64 (se_EventCount se) \<and> se_SessionID se \<noteq> []"

lemma written_rows_sessions:
  "list_all ok_session_event ses \<Longrightarrow>
   written_rows g (map (\<lambda>se. (t, k, encode_session_event se)) ses) = map SessionToCHEvent ses"
  by (induction ses) (auto simp: written_rows_Cons record_row_session ok_session_event_def)

text \<open>The sessions stored all have an id, from \<open>from\<close> on.\<close>

definition ids_stored :: "('s, json) redis \<Rightarrow> 's \<Rightarrow> int \<Rightarrow> bool" where
  "ids_stored R s from \<longleftrightarrow> (\<forall>t a d st. from \<le> t \<longrightarrow> GetSession R s t a d = Inr st \<longrightarrow> ss_SessionID st \<noteq> [])"

lemma go_quot_1000_i64: "in_i64 x \<Longrightarrow> in_i64 (go_quot x 1000)"
proof -
  assume x: "in_i64 x"
  have "\<bar>x\<bar> div 1000 \<le> \<bar>x\<bar>" "0 \<le> \<bar>x\<bar> div 1000" by linarith+
  then show ?thesis using x by (cases "x < 0"; cases "x = 0") (auto simp: go_quot_def in_i64_def)
qed

lemma next_state_id:
  assumes "ids_stored R s clock" "newID \<noteq> []" "valid_ms (clock div 1000000)"
  shows "ss_SessionID (next_state R clock newID event s) \<noteq> []" "wf_session_state (next_state R clock newID event s)"
proof -
  have wf: "wf_session_state old" if "GetSession R s clock (ee_AppID event) (ee_DeviceID event) = Inr old" for old
    using that by (auto simp: GetSession_def redis_GetJSON_def split: sum.splits option.splits
        intro: decode_session_state_wf)
  show "ss_SessionID (next_state R clock newID event s) \<noteq> []"
    using assms(1,2) by (auto simp: next_state_def Let_def ids_stored_def split: sum.splits)
  show "wf_session_state (next_state R clock newID event s)"
    using assms(3) wf by (auto simp: next_state_def Let_def new_session_wf continue_session_wf split: sum.splits)
qed

lemma Process_sessions_ok:
  assumes "ids_stored R s clock" "newID \<noteq> []" "valid_ms (clock div 1000000)"
    "SessionService_Process R clock newID event s = ((u, evts), s')"
  shows "list_all ok_session_event evts"
proof -
  have wf: "wf_session_state old \<and> ss_SessionID old \<noteq> []"
    if "GetSession R s clock (ee_AppID event) (ee_DeviceID event) = Inr old" for old
    using that assms(1) by (auto simp: ids_stored_def GetSession_def redis_GetJSON_def split: sum.splits option.splits
        intro: decode_session_state_wf)
  have z: "in_i64 0" by (simp add: in_i64_def)
  have now: "in_i64 (clock div 1000000)" using assms(3) by (simp add: valid_ms_def in_i64_def)
  then have "ok_session_event (buildSessionStart (new_session (clock div 1000000) newID event))"
    using assms(2) z by (simp add: ok_session_event_def buildSessionStart_def new_session_def)
  moreover have "ok_session_event (buildSessionEnd old (clock div 1000000) x y)"
    if "GetSession R s clock (ee_AppID event) (ee_DeviceID event) = Inr old" for old x y
    using wf [OF that] now by (simp add: ok_session_event_def buildSessionEnd_def wf_session_state_def go_quot_1000_i64)
  ultimately show ?thesis
    using assms(4) by (auto simp: SessionService_Process_def Let_def split: sum.splits if_splits)
qed

lemma ids_stored_step:
  assumes "redis_kv R" "redis_up R" "ids_stored R s clock" "newID \<noteq> []" "valid_ms (clock div 1000000)"
  shows "ids_stored R (snd (SessionService_Process R clock newID event s)) clock"
proof -
  let ?st = "next_state R clock newID event s"
  note st = next_state_id [OF assms(3-5), of event]
  obtain v where v: "encode_session_state ?st = Some v" "decode_session_state v = Some ?st"
    using session_state_roundtrip [OF st(2)] by blast
  define k where "k = sessionKey (ss_AppID ?st) (ss_DeviceID ?st)"
  obtain s' where s': "raw_Set R s clock k v sessionTTL = (None, s')"
    using assms(2) by (metis prod.collapse redis_up_def)
  have get: "raw_Get R s' t j = (if j = k then (if t < clock + sessionTTL then Inr v else Inl ErrNotFound) else raw_Get R s t j)"
    if "clock \<le> t" for t j
    by (rule redis_kv_get [OF assms(1) s' that])
  have s1: "snd (SessionService_Process R clock newID event s) = s'"
    using v s' by (simp add: Process_next_state SaveSession_def redis_Set_def k_def)
  have "ss_SessionID st \<noteq> []" if t: "clock \<le> t" "GetSession R s' t a d = Inr st" for t a d st
  proof (cases "sessionKey a d = k")
    case True
    then have "GetSession R s' t a d = (if t < clock + sessionTTL then Inr ?st else Inl ErrNotFound)"
      using get [OF t(1)] v(2) by (simp add: GetSession_def redis_GetJSON_def)
    with t(2) st(1) show ?thesis by (simp split: if_splits)
  next
    case False
    then have "GetSession R s t a d = Inr st"
      using get [OF t(1)] t(2) by (simp add: GetSession_def redis_GetJSON_def)
    with assms(3) t(1) show ?thesis unfolding ids_stored_def by blast
  qed
  then show ?thesis unfolding s1 ids_stored_def by blast
qed

lemma ids_stored_later: "ids_stored R s from \<Longrightarrow> from \<le> t \<Longrightarrow> ids_stored R s t"
  by (auto simp: ids_stored_def intro: order_trans)

text \<open>The session handler on one event.\<close>

lemma SessionHandler_out:
  assumes "wf_enriched e" "SessionService_Process R clock newID e s = ((u, evts), s')"
  shows "SessionHandler_Handle R topic clock newID key (Some (encode_enriched e)) (s, p) =
    (None, s', \<lparr>pr_out = pr_out p @ (topic, device_key u, encode_enriched u)
       # map (\<lambda>se. (topic, device_key u, encode_session_event se)) evts\<rparr>)"
proof -
  have "pr_out (publish_all topic ((device_key u, Some (encode_enriched u))
      # map (\<lambda>se. (device_key u, Some (encode_session_event se))) evts) p)
    = pr_out p @ (topic, device_key u, encode_enriched u) # map (\<lambda>se. (topic, device_key u, encode_session_event se)) evts"
    using publish_all_out [of topic "\<lambda>_. device_key u" "encode_session_event" evts
        "snd (PublishAsync topic (device_key u) (Some (encode_enriched u)) p)"]
    by (simp add: PublishAsync_def)
  then show ?thesis
    using assms by (simp add: SessionHandler_Handle_def enriched_decodes producer_eq)
qed

definition stream_rows :: "(f64 \<Rightarrow> string) \<Rightarrow> (enriched_event \<times> session_event list) list \<Rightarrow> ch_event list" where
  "stream_rows g outs = concat (map (\<lambda>(u, evts). EnrichedToCHEvent g u # map SessionToCHEvent evts) outs)"

lemma engine_run_rows:
  assumes "redis_kv R" "redis_up R" "mono clk" "\<And>n. valid_ms (clk n div 1000000)" "\<And>n. ids n \<noteq> []"
  shows "list_all (\<lambda>e. wf_enriched e \<and> ee_EventID e \<noteq> []) es \<Longrightarrow> ids_stored R s (clk n) \<Longrightarrow>
    \<exists>X. pr_out (snd (engine_run R topic clk ids n (map (\<lambda>e. (t, k e, encode_enriched e)) es) (s, p))) = pr_out p @ X
      \<and> written_rows g X = stream_rows g (service_stream R clk ids n es s)"
proof (induction es arbitrary: n s p)
  case (Cons e es)
  have e: "wf_enriched e" "ee_EventID e \<noteq> []" and es: "list_all (\<lambda>e. wf_enriched e \<and> ee_EventID e \<noteq> []) es"
    using Cons.prems(1) by simp_all
  obtain u evts s' where pr: "SessionService_Process R (clk n) (ids n) e s = ((u, evts), s')"
    by (metis prod.collapse)
  let ?X = "(topic, device_key u, encode_enriched u) # map (\<lambda>se. (topic, device_key u, encode_session_event se)) evts"
  have u: "wf_enriched u" "ee_EventID u \<noteq> []"
    using Process_next_state(2) [of R "clk n" "ids n" e s] pr e by (simp_all add: wf_enriched_def)
  have rows: "written_rows g ?X = EnrichedToCHEvent g u # map SessionToCHEvent evts"
    using u Process_sessions_ok [OF Cons.prems(2) assms(5,4) pr]
    by (simp add: written_rows_Cons record_row_enriched written_rows_sessions)
  have "ids_stored R s' (clk n)"
    using ids_stored_step [OF assms(1,2) Cons.prems(2) assms(5) assms(4), of n e] pr by simp
  then have "ids_stored R s' (clk (Suc n))"
    by (rule ids_stored_later) (simp add: monoD [OF assms(3)])
  from Cons.IH [OF es this, of "\<lparr>pr_out = pr_out p @ ?X\<rparr>"]
  obtain Y where Y: "pr_out (snd (engine_run R topic clk ids (Suc n) (map (\<lambda>e. (t, k e, encode_enriched e)) es)
      (s', \<lparr>pr_out = pr_out p @ ?X\<rparr>))) = (pr_out p @ ?X) @ Y"
    "written_rows g Y = stream_rows g (service_stream R clk ids (Suc n) es s')" by auto
  have "written_rows g (?X @ Y) = written_rows g ?X @ written_rows g Y" by (rule written_rows_append)
  with Y show ?case
    using rows by (intro exI [of _ "?X @ Y"])
      (simp add: SessionHandler_out [OF e(1) pr] pr stream_rows_def)
qed (simp add: stream_rows_def)

section \<open>From the request to the rows\<close>

definition module_rows ::
  "(string \<Rightarrow> nat list option) \<Rightarrow> geo_db option option \<Rightarrow> ('s, json) redis \<Rightarrow> (f64 \<Rightarrow> string) \<Rightarrow> topics \<Rightarrow>
   int \<Rightarrow> (nat \<Rightarrow> int) \<Rightarrow> (nat \<Rightarrow> string) \<Rightarrow> 's \<Rightarrow> (string \<times> string \<times> json) list \<Rightarrow> ch_event list" where
  "module_rows v6 geo R g tp now clk ids s raw =
     written_rows g (pr_out (snd (engine_run R (tp_session tp) clk ids 0
       (pr_out (enricher_run v6 geo (tp_enriched tp) now raw \<lparr>pr_out = []\<rparr>)) (s, \<lparr>pr_out = []\<rparr>))))"

lemma EnricherHandler_out:
  assumes "wf_batch b" "in_i64 ts" "encode_ingest b (Some ip) ts = Some v"
  shows "EnricherHandler_Handle v6 geo topic now key (Some v) \<lparr>pr_out = []\<rparr> = (None, \<lparr>pr_out =
     map (\<lambda>e. (topic, device_key e, encode_enriched e))
       (EnricherService_Enrich v6 geo now \<lparr>im_Batch = b, im_ClientIP = ip, im_ServerTS = ts\<rparr>)\<rparr>)"
  using ingest_roundtrip [OF assms(1,2), of "Some ip"] assms(3)
  by (simp add: EnricherHandler_Handle_def publish_all_out producer_eq)

lemma EnricherService_Enrich_ok:
  assumes "wf_batch b" "in_i64 ts" "in_i64 now" "\<forall>e \<in> set (eb_Events b). ev_EventID e \<noteq> []"
  shows "list_all (\<lambda>e. wf_enriched e \<and> ee_EventID e \<noteq> [])
     (EnricherService_Enrich v6 geo now \<lparr>im_Batch = b, im_ClientIP = ip, im_ServerTS = ts\<rparr>)"
  using assms
  by (auto simp: EnricherService_Enrich_def Let_def list_all_iff wf_batch_def intro!: EnricherService_event_wf)
    (simp_all add: EnricherService_event_def Let_def)

lemma raw_batch_rows:
  assumes "redis_kv R" "redis_up R" "mono clk" "\<And>n. valid_ms (clk n div 1000000)" "\<And>n. ids n \<noteq> []" "ids_stored R s (clk 0)"
    and "wf_batch b" "in_i64 ts" "in_i64 now" "encode_ingest b (Some ip) ts = Some v" "\<forall>e \<in> set (eb_Events b). ev_EventID e \<noteq> []"
  shows "module_rows v6 geo R g tp now clk ids s [(topic, key, v)] =
     stream_rows g (service_stream R clk ids 0
       (EnricherService_Enrich v6 geo now \<lparr>im_Batch = b, im_ClientIP = ip, im_ServerTS = ts\<rparr>) s)"
proof -
  define es where "es = EnricherService_Enrich v6 geo now \<lparr>im_Batch = b, im_ClientIP = ip, im_ServerTS = ts\<rparr>"
  have ok: "list_all (\<lambda>e. wf_enriched e \<and> ee_EventID e \<noteq> []) es"
    unfolding es_def by (rule EnricherService_Enrich_ok [OF assms(7-9,11)])
  have out: "pr_out (enricher_run v6 geo (tp_enriched tp) now [(topic, key, v)] \<lparr>pr_out = []\<rparr>)
      = map (\<lambda>e. (tp_enriched tp, device_key e, encode_enriched e)) es"
    using EnricherHandler_out [OF assms(7,8,10)] by (simp add: es_def)
  obtain X where "pr_out (snd (engine_run R (tp_session tp) clk ids 0
      (map (\<lambda>e. (tp_enriched tp, device_key e, encode_enriched e)) es) (s, \<lparr>pr_out = []\<rparr>))) = X"
    "written_rows g X = stream_rows g (service_stream R clk ids 0 es s)"
    using engine_run_rows [OF assms(1-5) ok assms(6),
        where topic = "tp_session tp" and t = "tp_enriched tp" and k = device_key and p = "\<lparr>pr_out = []\<rparr>" and g = g] by auto
  then show ?thesis unfolding module_rows_def out es_def by simp
qed

text \<open>The events the session service passes on are those it got, with a session id.\<close>

lemma service_stream_events:
  "map (\<lambda>(u, _). u\<lparr>ee_SessionID := []\<rparr>) (service_stream R clk ids n es s) = map (\<lambda>e. e\<lparr>ee_SessionID := []\<rparr>) es"
proof (induction es arbitrary: n s)
  case (Cons e es)
  show ?case
    using Cons.IH Process_next_state(2) [of R "clk n" "ids n" e s] by (simp add: split_def Let_def)
qed simp



end
