(* ===== verification/LayeredFunnel.thy ===== *)
theory LayeredFunnel
  imports Pipeline Http
begin

text \<open>
  The module \<open>funnel/\<close>: a funnel processor that keeps, for each funnel and user, the steps
  completed so far as JSON in Redis.  \<open>Process\<close> reads the clock for nothing but the
  server's expiry, so one reading per event is enough.  \<open>step_timestamps\<close> is nil until
  the first \<open>append\<close>; nil and empty are both \<open>[]\<close> here, and \<open>[]\<close> is encoded
  as \<open>null\<close>.
\<close>

section \<open>State\<close>

record funnel_state =
  fs_FunnelID :: string
  fs_UserID :: string
  fs_CompletedSteps :: int
  fs_StepTimestamps :: "int list"
  fs_Converted :: bool

definition funnel_state_fields :: "funnel_state \<Rightarrow> (string \<times> json option) list" where
  "funnel_state_fields st =
     [(''funnel_id'', fstr (fs_FunnelID st)), (''user_id'', fstr (fs_UserID st)),
      (''completed_steps'', fint (fs_CompletedSteps st)),
      (''step_timestamps'', Some (nil_array (map (\<lambda>t. JNum (of_int t)) (fs_StepTimestamps st)))),
      (''converted'', Some (JBool (fs_Converted st)))]"

definition encode_funnel_state :: "funnel_state \<Rightarrow> json" where
  "encode_funnel_state st = JObj (obj_fields (funnel_state_fields st))"

definition to_ints :: "json list \<Rightarrow> int list option" where
  "to_ints vs = (case to_slice None vs of
      None \<Rightarrow> None | Some None \<Rightarrow> Some []
    | Some (Some xs) \<Rightarrow> those (map (\<lambda>x. to_int 0 [x]) xs))"

definition decode_funnel_state :: "json \<Rightarrow> funnel_state option" where
  "decode_funnel_state j = do {
     m \<leftarrow> jobj j;
     f \<leftarrow> to_string [] (jvals ''funnel_id'' m); u \<leftarrow> to_string [] (jvals ''user_id'' m);
     c \<leftarrow> to_int 0 (jvals ''completed_steps'' m); ts \<leftarrow> to_ints (jvals ''step_timestamps'' m);
     b \<leftarrow> to_bool False (jvals ''converted'' m);
     Some \<lparr>fs_FunnelID = f, fs_UserID = u, fs_CompletedSteps = c, fs_StepTimestamps = ts,
       fs_Converted = b\<rparr> }"

definition fresh_funnel_state :: "funnel_definition \<Rightarrow> enriched_event \<Rightarrow> funnel_state" where
  "fresh_funnel_state f event = \<lparr>fs_FunnelID = fd_FunnelID f, fs_UserID = ee_UserID event,
     fs_CompletedSteps = 0, fs_StepTimestamps = [], fs_Converted = False\<rparr>"

record funnel_conversion =
  fc_AppID :: string
  fc_UserID :: string
  fc_FunnelID :: string
  fc_Steps :: int
  fc_Converted :: bool
  fc_TimeMs :: int

section \<open>The service\<close>

definition stateKey :: "funnel_definition \<Rightarrow> enriched_event \<Rightarrow> string" where
  "stateKey f event = ''funnel:'' @ fd_FunnelID f @ '':'' @ ee_UserID event"

text \<open>\<open>7*24*time.Hour\<close>.\<close>

definition state_ttl :: int where
  "state_ttl = 7 * 24 * 3600000000000"

text \<open>What the event makes of the state: \<open>None\<close> is the panic of indexing with a negative
  step, \<open>Some None\<close> leaves it as it is, otherwise the new state and whether a record is
  returned.\<close>

definition advance :: "funnel_definition \<Rightarrow> enriched_event \<Rightarrow> funnel_state \<Rightarrow> (funnel_state \<times> bool) option option" where
  "advance f event st =
     (let nextStep = fs_CompletedSteps st in
      if fs_Converted st then Some None
      else if nextStep \<ge> int (length (fd_Steps f)) then Some None
      else if nextStep < 0 then None
      else if fd_Steps f ! nat nextStep \<noteq> ee_EventName event then Some None
      else
        (let st1 = st\<lparr>fs_CompletedSteps := fs_CompletedSteps st + 1,
               fs_StepTimestamps := fs_StepTimestamps st @ [ee_EventTime event]\<rparr>;
             windowMs = i64 (fd_WindowSeconds f * 1000)
         in if length (fs_StepTimestamps st1) > 1
               \<and> i64 (ee_EventTime event - fs_StepTimestamps st1 ! 0) > windowMs
            then Some (Some (fresh_funnel_state f event, False))
            else Some (Some (st1\<lparr>fs_Converted := (fs_CompletedSteps st1 = int (length (fd_Steps f)))\<rparr>, True))))"

definition evaluateFunnel ::
  "('s, json) redis \<Rightarrow> int \<Rightarrow> funnel_definition \<Rightarrow> enriched_event \<Rightarrow> 's \<Rightarrow> (funnel_conversion option \<times> 's) option" where
  "evaluateFunnel R clock f event s =
     (let state = (case redis_GetJSON R decode_funnel_state s clock (stateKey f event) of
             Inl _ \<Rightarrow> fresh_funnel_state f event | Inr st \<Rightarrow> st)
      in case advance f event state of
           None \<Rightarrow> None
         | Some None \<Rightarrow> Some (None, s)
         | Some (Some (st', emit)) \<Rightarrow>
             Some (if emit then Some \<lparr>fc_AppID = ee_AppID event, fc_UserID = ee_UserID event,
                 fc_FunnelID = fd_FunnelID f, fc_Steps = fs_CompletedSteps st', fc_Converted = fs_Converted st',
                 fc_TimeMs = ee_EventTime event\<rparr> else None,
               snd (redis_Set R s clock (stateKey f event) (encode_funnel_state st') state_ttl)))"

text \<open>The loop of \<open>Process\<close>; \<open>evaluateFunnel\<close> never returns an error.\<close>

fun FunnelService_Process ::
  "('s, json) redis \<Rightarrow> int \<Rightarrow> enriched_event \<Rightarrow> funnel_definition list \<Rightarrow> 's \<Rightarrow> (funnel_conversion list \<times> 's) option" where
  "FunnelService_Process R clock event [] s = Some ([], s)"
| "FunnelService_Process R clock event (f # funnels) s =
     (if fd_AppID f \<noteq> ee_AppID event then FunnelService_Process R clock event funnels s
      else (case evaluateFunnel R clock f event s of
          None \<Rightarrow> None
        | Some (conv, s1) \<Rightarrow> map_option (\<lambda>(cs, s2). ((case conv of None \<Rightarrow> cs | Some c \<Rightarrow> c # cs), s2))
            (FunnelService_Process R clock event funnels s1)))"

definition Reload :: "funnel_definition list \<Rightarrow> funnel_definition list \<Rightarrow> funnel_definition list" where
  "Reload new funnels = new"

text \<open>The repository's loader, which the service is started with and reloads from.\<close>

definition ListAllFunnels :: "funnel_definition list" where
  "ListAllFunnels = []"

definition encode_funnel_conversion :: "funnel_conversion \<Rightarrow> json" where
  "encode_funnel_conversion c = JObj (obj_fields
     [(''app_id'', fstr (fc_AppID c)), (''user_id'', fstr (fc_UserID c)), (''funnel_id'', fstr (fc_FunnelID c)),
      (''steps_completed'', fint (fc_Steps c)), (''converted'', Some (JBool (fc_Converted c))),
      (''time_ms'', fint (fc_TimeMs c))])"

text \<open>The message handler; \<open>None\<close> is a panic.\<close>

definition FunnelHandler_Handle ::
  "('s, json) redis \<Rightarrow> string \<Rightarrow> int \<Rightarrow> funnel_definition list \<Rightarrow> json option \<Rightarrow> 's \<times> producer \<Rightarrow> ('s \<times> producer) option" where
  "FunnelHandler_Handle R topicOut clock funnels value sp =
     (case value \<bind> decode_enriched of
        None \<Rightarrow> Some sp
      | Some event \<Rightarrow> map_option (\<lambda>(conversions, s'). (s', publish_all topicOut
            (map (\<lambda>c. (fc_AppID c @ '':'' @ fc_UserID c, Some (encode_funnel_conversion c))) conversions) (snd sp)))
          (FunnelService_Process R clock event funnels (fst sp)))"

section \<open>The stored state\<close>

definition wf_funnel_state :: "funnel_state \<Rightarrow> bool" where
  "wf_funnel_state st \<longleftrightarrow> fs_CompletedSteps st = int (length (fs_StepTimestamps st))
     \<and> in_i64 (fs_CompletedSteps st) \<and> list_all in_i64 (fs_StepTimestamps st)"

lemma wf_funnel_state_fields: "wf_fields (funnel_state_fields st)"
  unfolding wf_fields_def funnel_state_fields_def by (simp add: to_lower_def to_lower_char_def)

lemma to_ints_nil_array:
  "list_all in_i64 ts \<Longrightarrow> to_ints [nil_array (map (\<lambda>t. JNum (of_int t)) ts)] = Some ts"
proof (cases "ts = []")
  case False
  assume "list_all in_i64 ts"
  then have "those (map (\<lambda>x. to_int 0 [x]) (map (\<lambda>t. JNum (of_int t)) ts)) = Some (map (\<lambda>t. t) ts)"
    unfolding map_map by (intro those_map_Some) (auto simp: list_all_iff)
  with False show ?thesis by (simp add: to_ints_def nil_array_def)
qed (simp add: to_ints_def nil_array_def)

lemma funnel_state_roundtrip:
  assumes "wf_funnel_state st"
  shows "decode_funnel_state (encode_funnel_state st) = Some st"
proof -
  have c: "in_i64 (fs_CompletedSteps st)" and ts: "list_all in_i64 (fs_StepTimestamps st)"
    using assms unfolding wf_funnel_state_def by blast+
  show ?thesis
    unfolding decode_funnel_state_def encode_funnel_state_def
    by (simp add: jobj_def jvals_obj_fields [OF wf_funnel_state_fields])
      (simp add: funnel_state_fields_def wire_simps vals_of_def to_ints_nil_array ts c)
qed

section \<open>What a user's progress is\<close>

text \<open>The specification: the completed steps' times \<open>ts\<close>, the next event of the awaited
  name completes a step, unless it is more than \<open>w\<close> milliseconds after the first one,
  which throws the progress away; each completed step is reported.\<close>

fun track :: "string list \<Rightarrow> int \<Rightarrow> int list \<Rightarrow> enriched_event list \<Rightarrow> (nat \<times> int) list" where
  "track steps w ts [] = []"
| "track steps w ts (e # es) =
     (if length ts \<ge> length steps then []
      else if steps ! length ts \<noteq> ee_EventName e then track steps w ts es
      else if ts \<noteq> [] \<and> ee_EventTime e - hd ts > w then track steps w [] es
      else (length ts + 1, ee_EventTime e) # track steps w (ts @ [ee_EventTime e]) es)"

text \<open>The records the service returns for a sequence of events and one funnel.\<close>

fun funnel_records ::
  "('s, json) redis \<Rightarrow> funnel_definition list \<Rightarrow> (int \<times> enriched_event) list \<Rightarrow> 's \<Rightarrow> funnel_conversion list option" where
  "funnel_records R fs [] s = Some []"
| "funnel_records R fs ((clock, ev) # es) s =
     (case FunnelService_Process R clock ev fs s of
        None \<Rightarrow> None
      | Some (cs, s') \<Rightarrow> map_option (\<lambda>ds. cs @ ds) (funnel_records R fs es s'))"

text \<open>The stored form of some progress.\<close>

definition state_of :: "funnel_definition \<Rightarrow> string \<Rightarrow> int list \<Rightarrow> funnel_state" where
  "state_of f u ts = \<lparr>fs_FunnelID = fd_FunnelID f, fs_UserID = u, fs_CompletedSteps = int (length ts),
     fs_StepTimestamps = ts, fs_Converted = (ts \<noteq> [] \<and> length ts = length (fd_Steps f))\<rparr>"

definition progress_ok :: "funnel_definition \<Rightarrow> int list \<Rightarrow> bool" where
  "progress_ok f ts \<longleftrightarrow> length ts \<le> length (fd_Steps f) \<and> list_all valid_ms ts"

text \<open>A funnel whose window and number of steps fit their types.\<close>

definition funnel_ok :: "funnel_definition \<Rightarrow> bool" where
  "funnel_ok f \<longleftrightarrow> length (fd_Steps f) < 2 ^ 62 \<and> in_i64 (fd_WindowSeconds f * 1000)"

lemma fresh_state_of: "fresh_funnel_state f ev = state_of f (ee_UserID ev) []"
  by (simp add: fresh_funnel_state_def state_of_def)

lemma valid_ms_i64: "valid_ms t \<Longrightarrow> in_i64 t"
  by (simp add: valid_ms_def in_i64_def)

lemma state_of_wf: "funnel_ok f \<Longrightarrow> progress_ok f ts \<Longrightarrow> wf_funnel_state (state_of f u ts)"
  by (auto simp: funnel_ok_def progress_ok_def wf_funnel_state_def state_of_def list_all_iff in_i64_def valid_ms_def)

text \<open>One step of the specification.\<close>

definition track_step :: "funnel_definition \<Rightarrow> enriched_event \<Rightarrow> int list \<Rightarrow> (int list \<times> bool) option" where
  "track_step f e ts =
     (if length ts \<ge> length (fd_Steps f) \<or> fd_Steps f ! length ts \<noteq> ee_EventName e then None
      else if ts \<noteq> [] \<and> ee_EventTime e - hd ts > fd_WindowSeconds f * 1000 then Some ([], False)
      else Some (ts @ [ee_EventTime e], True))"

lemma advance_state_of:
  assumes "funnel_ok f" "progress_ok f ts" "valid_ms (ee_EventTime e)"
  shows "advance f e (state_of f (ee_UserID e) ts) =
    Some (map_option (\<lambda>(ts', emit). (state_of f (ee_UserID e) ts', emit)) (track_step f e ts))"
proof -
  have "i64 (ee_EventTime e - t) = ee_EventTime e - t" if "valid_ms t" for t
    using that assms(3) by (intro i64_id) (simp add: valid_ms_def in_i64_def)
  then have d: "i64 (ee_EventTime e - hd ts) = ee_EventTime e - hd ts" if "ts \<noteq> []"
    using that assms(2) by (cases ts) (simp_all add: progress_ok_def)
  show ?thesis
    using assms(1) d
    by (cases "ts = []")
      (auto simp: advance_def state_of_def track_step_def Let_def funnel_ok_def fresh_funnel_state_def
        nth_append hd_conv_nth)
qed

lemma track_step_ok:
  "progress_ok f ts \<Longrightarrow> valid_ms (ee_EventTime e) \<Longrightarrow> track_step f e ts = Some (ts', emit) \<Longrightarrow> progress_ok f ts'"
  by (auto simp: progress_ok_def track_step_def Suc_le_eq split: if_splits)

lemma track_eq:
  "track (fd_Steps f) (fd_WindowSeconds f * 1000) ts (e # es) =
     (case track_step f e ts of
        None \<Rightarrow> track (fd_Steps f) (fd_WindowSeconds f * 1000) ts es
      | Some (ts', emit) \<Rightarrow> (if emit then [(length ts', ee_EventTime e)] else [])
          @ track (fd_Steps f) (fd_WindowSeconds f * 1000) ts' es)"
proof -
  have "track steps w ts es = []" if "length ts \<ge> length steps" for steps w
    using that by (cases es) simp_all
  then show ?thesis by (auto simp: track_step_def)
qed

section \<open>The service keeps it\<close>

text \<open>Until \<open>limit\<close> the key reads as \<open>st\<close>.\<close>

definition reads_as :: "('s, json) redis \<Rightarrow> 's \<Rightarrow> int \<Rightarrow> int \<Rightarrow> string \<Rightarrow> funnel_state \<Rightarrow> funnel_state \<Rightarrow> bool" where
  "reads_as R s from limit key z st \<longleftrightarrow> (\<forall>t. from \<le> t \<longrightarrow> t < limit \<longrightarrow>
     (case redis_GetJSON R decode_funnel_state s t key of Inl _ \<Rightarrow> z | Inr st' \<Rightarrow> st') = st)"

lemma reads_as_Set:
  assumes "redis_kv R" "redis_up R" "wf_funnel_state st" "limit \<le> clock + state_ttl"
  shows "reads_as R (snd (redis_Set R s clock key (encode_funnel_state st) state_ttl)) clock limit key z st"
proof -
  obtain s' where s': "raw_Set R s clock key (encode_funnel_state st) state_ttl = (None, s')"
    using assms(2) by (metis prod.collapse redis_up_def)
  have "raw_Get R s' t key = Inr (encode_funnel_state st)" if "clock \<le> t" "t < limit" for t
  proof -
    have "raw_Get R s' t key = (if t < clock + state_ttl then Inr (encode_funnel_state st) else Inl ErrNotFound)"
      using assms(1) s' that(1) unfolding redis_kv_def by metis
    with that(2) assms(4) show ?thesis by simp
  qed
  then show ?thesis
    by (simp add: reads_as_def redis_Set_def s' redis_GetJSON_def funnel_state_roundtrip [OF assms(3)])
qed

lemma FunnelService_Process_one:
  assumes "redis_kv R" "redis_up R" "funnel_ok f" "progress_ok f ts" "valid_ms (ee_EventTime e)" "fd_AppID f = ee_AppID e"
    "reads_as R s from limit (stateKey f e) (state_of f (ee_UserID e) []) (state_of f (ee_UserID e) ts)"
    "from \<le> clock" "clock < limit" "limit \<le> clock + state_ttl"
  shows "\<exists>cs s'. FunnelService_Process R clock e [f] s = Some (cs, s')
     \<and> (case track_step f e ts of
          None \<Rightarrow> cs = [] \<and> s' = s
        | Some (ts', emit) \<Rightarrow>
            cs = (if emit then [\<lparr>fc_AppID = ee_AppID e, fc_UserID = ee_UserID e, fc_FunnelID = fd_FunnelID f,
                fc_Steps = int (length ts'), fc_Converted = (length ts' = length (fd_Steps f)), fc_TimeMs = ee_EventTime e\<rparr>] else [])
          \<and> reads_as R s' clock limit (stateKey f e) (state_of f (ee_UserID e) []) (state_of f (ee_UserID e) ts'))"
proof -
  have st: "(case redis_GetJSON R decode_funnel_state s clock (stateKey f e) of
      Inl _ \<Rightarrow> fresh_funnel_state f e | Inr st \<Rightarrow> st) = state_of f (ee_UserID e) ts"
    using assms(7-9) unfolding fresh_state_of by (simp add: reads_as_def)
  show ?thesis
  proof (cases "track_step f e ts")
    case None
    then show ?thesis
      using assms(6) by (simp add: evaluateFunnel_def st advance_state_of [OF assms(3-5)])
  next
    case (Some p)
    obtain ts' emit where p: "p = (ts', emit)" by (cases p)
    have "progress_ok f ts'" using track_step_ok [OF assms(4,5)] Some p by simp
    note r = reads_as_Set [OF assms(1,2) state_of_wf [OF assms(3) this] assms(10)]
    have ne: "emit \<Longrightarrow> ts' \<noteq> []" using Some p by (auto simp: track_step_def split: if_splits)
    show ?thesis
      using assms(6) r ne
      by (simp add: evaluateFunnel_def st advance_state_of [OF assms(3-5)] Some p) (simp add: state_of_def)
  qed
qed

text \<open>The events of one user for the funnel's application, handled in order before
  \<open>limit\<close>.\<close>

fun user_stream :: "funnel_definition \<Rightarrow> string \<Rightarrow> int \<Rightarrow> int \<Rightarrow> (int \<times> enriched_event) list \<Rightarrow> bool" where
  "user_stream f u from limit [] = True"
| "user_stream f u from limit ((clock, e) # es) =
     (from \<le> clock \<and> clock < limit \<and> fd_AppID f = ee_AppID e \<and> ee_UserID e = u \<and> valid_ms (ee_EventTime e)
      \<and> user_stream f u clock limit es)"

definition step_record :: "funnel_definition \<Rightarrow> string \<Rightarrow> nat \<times> int \<Rightarrow> funnel_conversion" where
  "step_record f u p = \<lparr>fc_AppID = fd_AppID f, fc_UserID = u, fc_FunnelID = fd_FunnelID f, fc_Steps = int (fst p),
     fc_Converted = (fst p = length (fd_Steps f)), fc_TimeMs = snd p\<rparr>"

lemma funnel_records_track:
  assumes "redis_kv R" "redis_up R" "funnel_ok f"
  shows "user_stream f u from limit es \<Longrightarrow> progress_ok f ts \<Longrightarrow> limit \<le> from + state_ttl \<Longrightarrow>
     reads_as R s from limit (''funnel:'' @ fd_FunnelID f @ '':'' @ u) (state_of f u []) (state_of f u ts) \<Longrightarrow>
     funnel_records R [f] es s =
       Some (map (step_record f u) (track (fd_Steps f) (fd_WindowSeconds f * 1000) ts (map snd es)))"
proof (induction es arbitrary: "from" ts s)
  case (Cons p es)
  obtain clock e where p: "p = (clock, e)" by (cases p)
  have e: "from \<le> clock" "clock < limit" "fd_AppID f = ee_AppID e" "ee_UserID e = u" "valid_ms (ee_EventTime e)"
    and es: "user_stream f u clock limit es"
    using Cons.prems(1) by (simp_all add: p)
  have key: "stateKey f e = ''funnel:'' @ fd_FunnelID f @ '':'' @ u" using e(4) by (simp add: stateKey_def)
  from Cons.prems(4) have r: "reads_as R s from limit (stateKey f e) (state_of f (ee_UserID e) []) (state_of f (ee_UserID e) ts)"
    by (simp add: key e(4))
  have lim: "limit \<le> clock + state_ttl" using Cons.prems(3) e(1) by simp
  obtain cs s' where step: "FunnelService_Process R clock e [f] s = Some (cs, s')"
    and cases: "case track_step f e ts of
          None \<Rightarrow> cs = [] \<and> s' = s
        | Some (ts', emit) \<Rightarrow>
            cs = (if emit then [\<lparr>fc_AppID = ee_AppID e, fc_UserID = ee_UserID e, fc_FunnelID = fd_FunnelID f,
                fc_Steps = int (length ts'), fc_Converted = (length ts' = length (fd_Steps f)), fc_TimeMs = ee_EventTime e\<rparr>] else [])
          \<and> reads_as R s' clock limit (stateKey f e) (state_of f (ee_UserID e) []) (state_of f (ee_UserID e) ts')"
    using FunnelService_Process_one [OF assms Cons.prems(2) e(5,3) r e(1,2) lim] by blast
  show ?case
  proof (cases "track_step f e ts")
    case None
    have "reads_as R s clock limit (''funnel:'' @ fd_FunnelID f @ '':'' @ u) (state_of f u []) (state_of f u ts)"
      using Cons.prems(4) e(1) by (simp add: reads_as_def)
    from Cons.IH [OF es Cons.prems(2) lim this] step cases None show ?thesis
      by (simp add: p track_eq del: FunnelService_Process.simps track.simps)
  next
    case (Some q)
    obtain ts' emit where q: "q = (ts', emit)" by (cases q)
    have ok: "progress_ok f ts'" using track_step_ok [OF Cons.prems(2) e(5)] Some q by simp
    from cases Some q key e(4)
    have "reads_as R s' clock limit (''funnel:'' @ fd_FunnelID f @ '':'' @ u) (state_of f u []) (state_of f u ts')"
      by simp
    from Cons.IH [OF es ok lim this] step cases Some q e(3,4) show ?thesis
      by (simp add: p track_eq step_record_def del: FunnelService_Process.simps track.simps)
  qed
qed simp

lemma absent_reads_as:
  assumes "\<forall>t \<ge> from. raw_Get R s t key = Inl ErrNotFound"
  shows "reads_as R s from limit key z z"
  using assms by (simp add: reads_as_def redis_GetJSON_def)

text \<open>Every reported step is the last of a run of events through the steps before it.\<close>

lemma track_runs:
  assumes "(n, t) \<in> set (track steps w (map ee_EventTime ds) es)"
    "map ee_EventName ds = take (length ds) steps"
    "\<forall>x \<in> set ds. x = hd ds \<or> ee_EventTime x - ee_EventTime (hd ds) \<le> w"
  shows "\<exists>sub. subseq sub (ds @ es) \<and> sub \<noteq> [] \<and> map ee_EventName sub = take n steps \<and> ee_EventTime (last sub) = t
     \<and> length sub = n \<and> (\<forall>x \<in> set sub. x = hd sub \<or> ee_EventTime x - ee_EventTime (hd sub) \<le> w)"
  using assms
proof (induction es arbitrary: ds)
  case (Cons e es)
  have skip: "subseq sub (ds @ e # es)" if "subseq sub (ds @ es)" for sub
    using that by (rule subseq_order.order_trans) (auto simp: subseq_append')
  show ?case
  proof (cases "length ds \<ge> length steps")
    case True
    with Cons.prems(1) show ?thesis by simp
  next
    case long: False
    show ?thesis
    proof (cases "steps ! length ds = ee_EventName e")
      case False
      with Cons.prems(1) long have "(n, t) \<in> set (track steps w (map ee_EventTime ds) es)" by simp
      from Cons.IH [OF this Cons.prems(2,3)] skip show ?thesis by blast
    next
      case name: True
      show ?thesis
      proof (cases "ds \<noteq> [] \<and> ee_EventTime e - ee_EventTime (hd ds) > w")
        case True
        with Cons.prems(1) long name have "(n, t) \<in> set (track steps w (map ee_EventTime []) es)"
          by (simp add: hd_map)
        from Cons.IH [OF this] show ?thesis by (simp add: subseq_drop_many) (metis append_Cons append_Nil append_assoc list_emb_append2 subseq_Cons')
      next
        case False
        then have w: "\<forall>x \<in> set (ds @ [e]). x = hd (ds @ [e]) \<or> ee_EventTime x - ee_EventTime (hd (ds @ [e])) \<le> w"
          using Cons.prems(3) by (cases ds) auto
        have names: "map ee_EventName (ds @ [e]) = take (length (ds @ [e])) steps"
          using Cons.prems(2) name long by (simp add: take_Suc_conv_app_nth)
        from Cons.prems(1) long name False
        have "(n, t) = (Suc (length ds), ee_EventTime e)
           \<or> (n, t) \<in> set (track steps w (map ee_EventTime (ds @ [e])) es)"
          by (cases "ds = []") (auto simp: hd_map)
        then show ?thesis
        proof
          assume "(n, t) = (Suc (length ds), ee_EventTime e)"
          then show ?thesis
            using names w by (intro exI [of _ "ds @ [e]"]) (auto simp: subseq_append_iff)
        next
          assume "(n, t) \<in> set (track steps w (map ee_EventTime (ds @ [e])) es)"
          from Cons.IH [OF this names w] show ?thesis by simp
        qed
      qed
    qed
  qed
qed simp

lemma track_converts_once:
  "length (filter (\<lambda>(n, _). n = length steps) (track steps w ts es)) \<le> 1"
proof (induction es arbitrary: ts)
  case (Cons e es)
  have fin: "track steps w ts es = []" if "length ts \<ge> length steps" for ts
    using that by (cases es) simp_all
  show ?case
    using Cons.IH [of ts] Cons.IH [of "[]"] Cons.IH [of "ts @ [ee_EventTime e]"]
      fin [of "ts @ [ee_EventTime e]"] by auto
qed simp

section \<open>Properties\<close>

text \<open>C10: The funnel service implements its specification: from no stored state, the records
  it returns for a user's events, within the week the state is kept, are those of
  \<open>track\<close>, so every completed step is reported once, in order, with the event's time.\<close>

theorem funnel_service_tracks:
  assumes "redis_kv R" "redis_up R" "funnel_ok f"
    "\<forall>t \<ge> from. raw_Get R s t (''funnel:'' @ fd_FunnelID f @ '':'' @ u) = Inl ErrNotFound"
    "user_stream f u from (from + state_ttl) es"
  shows "funnel_records R [f] es s =
    Some (map (step_record f u) (track (fd_Steps f) (fd_WindowSeconds f * 1000) [] (map snd es)))"
  by (rule funnel_records_track [OF assms(1-3,5) _ _ absent_reads_as [OF assms(4)]])
    (simp_all add: progress_ok_def)

definition two_steps :: funnel_definition where
  "two_steps = \<lparr>fd_FunnelID = ''f'', fd_AppID = ''a'', fd_Name = [], fd_Steps = [''view'', ''pay''],
     fd_WindowSeconds = 60, fd_CreatedAt = 0\<rparr>"

definition event_at :: "string \<Rightarrow> int \<Rightarrow> enriched_event" where
  "event_at name t = zero_enriched\<lparr>ee_EventName := name, ee_EventTime := t, ee_AppID := ''a'', ee_UserID := ''u''\<rparr>"

lemma two_steps_ok: "funnel_ok two_steps"
  by (simp add: funnel_ok_def two_steps_def in_i64_def)

lemma mem_empty_absent: "raw_Get (mem_redis :: ('v mem, 'v) redis) mem_empty t k = Inl ErrNotFound"
  by (simp add: mem_redis_def mem_get_def mem_empty_def)

lemma two_steps_stream:
  "user_stream two_steps ''u'' 0 (0 + state_ttl) [(0, event_at ''view'' 1000), (5, event_at ''pay'' 2000)]"
  by (simp add: event_at_def zero_enriched_def two_steps_def valid_ms_def state_ttl_def)

lemma mem_absent:
  "\<forall>t \<ge> from. raw_Get (mem_redis :: ('v mem, 'v) redis) mem_empty t k = Inl ErrNotFound"
  by (simp add: mem_empty_absent)

theorem funnel_service_tracks_witness:
  "funnel_records (mem_redis :: (json mem, json) redis) [two_steps] [(0, event_at ''view'' 1000), (5, event_at ''pay'' 2000)] mem_empty
     = Some [step_record two_steps ''u'' (1, 1000), step_record two_steps ''u'' (2, 2000)]"
proof -
  have "track (fd_Steps two_steps) (fd_WindowSeconds two_steps * 1000) []
      (map snd [(0 :: int, event_at ''view'' 1000), (5, event_at ''pay'' 2000)]) = [(1, 1000), (2, 2000)]"
    by (simp add: event_at_def zero_enriched_def two_steps_def)
  with funnel_service_tracks [OF mem_redis_kv mem_redis_up two_steps_ok mem_absent two_steps_stream]
  show ?thesis by simp
qed

text \<open>C9: A conversion is never reported without cause: when the service reports the funnel
  as converted, the user's events contain, in this order, one event for each step, none of them
  later than the window after the first; and it reports that at most once.\<close>

theorem funnel_conversion_sound:
  assumes "redis_kv R" "redis_up R" "funnel_ok f"
    "\<forall>t \<ge> from. raw_Get R s t (''funnel:'' @ fd_FunnelID f @ '':'' @ u) = Inl ErrNotFound"
    "user_stream f u from (from + state_ttl) es"
  shows "\<exists>cs. funnel_records R [f] es s = Some cs \<and> length (filter fc_Converted cs) \<le> 1
    \<and> list_all (\<lambda>c. fc_Converted c \<longrightarrow>
        (\<exists>sub. subseq sub (map snd es) \<and> sub \<noteq> [] \<and> map ee_EventName sub = fd_Steps f
           \<and> ee_EventTime (last sub) = fc_TimeMs c
           \<and> (\<forall>x \<in> set sub. x = hd sub \<or> ee_EventTime x - ee_EventTime (hd sub) \<le> fd_WindowSeconds f * 1000))) cs"
proof -
  let ?tr = "track (fd_Steps f) (fd_WindowSeconds f * 1000) [] (map snd es)"
  have run: "funnel_records R [f] es s = Some (map (step_record f u) ?tr)"
    by (rule funnel_records_track [OF assms(1-3,5) _ _ absent_reads_as [OF assms(4)]])
      (simp_all add: progress_ok_def)
  have once: "length (filter fc_Converted (map (step_record f u) ?tr)) \<le> 1"
    using track_converts_once [of "fd_Steps f" "fd_WindowSeconds f * 1000" "[]" "map snd es"]
    by (simp add: filter_map comp_def step_record_def split_def)
  have "\<exists>sub. subseq sub (map snd es) \<and> sub \<noteq> [] \<and> map ee_EventName sub = fd_Steps f
           \<and> ee_EventTime (last sub) = t
           \<and> (\<forall>x \<in> set sub. x = hd sub \<or> ee_EventTime x - ee_EventTime (hd sub) \<le> fd_WindowSeconds f * 1000)"
    if "(length (fd_Steps f), t) \<in> set ?tr" for t
    using track_runs [of "length (fd_Steps f)" t "fd_Steps f" "fd_WindowSeconds f * 1000" "[]" "map snd es"] that by auto
  with run once show ?thesis
    by (intro exI [of _ "map (step_record f u) ?tr"]) (auto simp: list_all_iff step_record_def)
qed

theorem funnel_conversion_sound_witness:
  "\<exists>cs. funnel_records (mem_redis :: (json mem, json) redis) [two_steps] [(0, event_at ''view'' 1000), (5, event_at ''pay'' 2000)] mem_empty = Some cs
     \<and> length (filter fc_Converted cs) \<le> 1"
  using funnel_conversion_sound [OF mem_redis_kv mem_redis_up two_steps_ok mem_absent two_steps_stream] by blast

text \<open>A conversion can be missed: while the second step is awaited a new first step is
  ignored, and when the second one comes too late for the old start, the progress is thrown
  away although the new start is within the window.\<close>

lemma stale_start_loses_conversion:
  "track [''view'', ''pay''] 60000 [] [event_at ''view'' 0, event_at ''view'' 100000, event_at ''pay'' 110000] = [(1, 0)]
   \<and> track [''view'', ''pay''] 60000 [] [event_at ''view'' 100000, event_at ''pay'' 110000] = [(1, 100000), (2, 110000)]"
  by (simp add: event_at_def zero_enriched_def)

text \<open>The service is started with no definitions and reloads none, so it reports nothing.\<close>

lemma funnel_service_never_reports:
  "FunnelHandler_Handle R topicOut clock (Reload ListAllFunnels funnels) value sp = Some sp"
  by (simp add: FunnelHandler_Handle_def Reload_def ListAllFunnels_def split: option.splits)

end
