(* ===== verification/LayeredMgmt.thy ===== *)
theory LayeredMgmt
  imports Mgmt
begin

text \<open>
  The module \<open>query-api/\<close>: its management handlers over \<open>shared/pkg/postgres\<close>, which has
  two columns \<open>internal/postgres\<close> has not (\<open>last_fired_at\<close> of an alert rule,
  \<open>last_computed_at\<close> of a cohort) and the statements that use them.  All ids are of the
  type UUID in \<open>migrations/postgres\<close>; the driver and the server reject a statement whose
  id is not the text of one.  That test is the parameter \<open>valid\<close> of the handlers, about
  which \<open>uuid_law\<close> states what is documented.  A handler reads from the pool \<open>rd\<close> and
  writes to the primary \<open>sd\<close>; \<open>ns\<close> is its clock in nanoseconds.
\<close>

section \<open>The shared store\<close>

text \<open>A row that is not listed has \<open>NULL\<close> in the column.\<close>

record shared_db =
  sd_db :: pg_db
  sd_fired :: "(string \<times> int) list"
  sd_computed :: "(string \<times> int) list"

definition is_hex :: "char \<Rightarrow> bool" where
  "is_hex c = (let n = (of_char c :: nat) in 48 \<le> n \<and> n \<le> 57 \<or> 97 \<le> n \<and> n \<le> 102 \<or> 65 \<le> n \<and> n \<le> 70)"

text \<open>A UUID is written with 32 hexadecimal digits, whatever separates them.\<close>

definition uuid_law :: "(string \<Rightarrow> bool) \<Rightarrow> bool" where
  "uuid_law valid \<longleftrightarrow> (\<forall>s. valid s \<longrightarrow> length (filter is_hex s) = 32)"

definition hex32 :: "string \<Rightarrow> bool" where
  "hex32 s \<longleftrightarrow> length (filter is_hex s) = 32"

lemma hex32_law: "uuid_law hex32"
  by (simp add: uuid_law_def hex32_def)

definition typed_read :: "(string \<Rightarrow> bool) \<Rightarrow> string list \<Rightarrow> (go_error + 'a) \<Rightarrow> go_error + 'a" where
  "typed_read valid ids r = (if list_all valid ids then r else Inl (Errorf ''invalid uuid''))"

definition typed_write ::
  "(string \<Rightarrow> bool) \<Rightarrow> string list \<Rightarrow> (pg_db \<Rightarrow> exec_result) \<Rightarrow> shared_db \<Rightarrow> go_error option \<times> shared_db" where
  "typed_write valid ids f sd =
     (if list_all valid ids then (case f (sd_db sd) of (e, db) \<Rightarrow> (e, sd\<lparr>sd_db := db\<rparr>))
      else (Some (Errorf ''invalid uuid''), sd))"

definition UpdateAlertLastFired :: "(string \<Rightarrow> bool) \<Rightarrow> string \<Rightarrow> int \<Rightarrow> shared_db \<Rightarrow> go_error option \<times> shared_db" where
  "UpdateAlertLastFired valid i t sd =
     (if \<not> valid i \<or> \<not> db_up (sd_db sd) then (Some (Errorf ''postgres''), sd)
      else (None, if i \<in> ar_ID ` set (t_alerts (sd_db sd)) then sd\<lparr>sd_fired := al_set i t (sd_fired sd)\<rparr> else sd))"

definition GetAlertRule :: "(string \<Rightarrow> bool) \<Rightarrow> string \<Rightarrow> shared_db \<Rightarrow> go_error + alert_rule \<times> int option" where
  "GetAlertRule valid i rd =
     (case typed_read valid [i] (select_row (sd_db rd) ''no rows'' (filter (\<lambda>r. ar_ID r = i) (t_alerts (sd_db rd)))) of
        Inl e \<Rightarrow> Inl e
      | Inr r \<Rightarrow> Inr (r, map_of (sd_fired rd) (ar_ID r)))"

definition GetCohort :: "(string \<Rightarrow> bool) \<Rightarrow> string \<Rightarrow> shared_db \<Rightarrow> go_error + cohort_definition \<times> int option" where
  "GetCohort valid i rd =
     (case typed_read valid [i] (select_row (sd_db rd) ''get cohort'' (filter (\<lambda>c. co_ID c = i) (t_cohorts (sd_db rd)))) of
        Inl e \<Rightarrow> Inl (Errorf ''get cohort'')
      | Inr c \<Rightarrow> Inr (c, map_of (sd_computed rd) (co_ID c)))"

definition UpdateCohortCount ::
  "(string \<Rightarrow> bool) \<Rightarrow> string \<Rightarrow> int \<Rightarrow> int \<Rightarrow> shared_db \<Rightarrow> go_error option \<times> shared_db" where
  "UpdateCohortCount valid i cnt computedAt sd =
     (if \<not> valid i \<or> \<not> db_up (sd_db sd) then (Some (Errorf ''postgres''), sd)
      else (None, sd
        \<lparr>sd_db := (sd_db sd)\<lparr>t_cohorts := map (\<lambda>c. if co_ID c = i then c\<lparr>co_UserCount := cnt\<rparr> else c) (t_cohorts (sd_db sd))\<rparr>,
         sd_computed := (if i \<in> co_ID ` set (t_cohorts (sd_db sd)) then al_set i computedAt (sd_computed sd) else sd_computed sd)\<rparr>))"

section \<open>JSON with the added columns\<close>

definition shared_alert_json :: "alert_rule \<Rightarrow> int option \<Rightarrow> json" where
  "shared_alert_json r fired = JObj (obj_fields
     [(''id'', fstr (ar_ID r)), (''app_id'', fstr (ar_AppID r)), (''name'', fstr (ar_Name r)),
      (''metric_name'', fstr (ar_MetricName r)), (''condition'', fstr (ar_Condition r)),
      (''threshold'', Some (JNum (ar_Threshold r))), (''window_mins'', fint (ar_WindowMins r)),
      (''channels'', fstrings (ar_Channels r)), (''webhook_url'', fstr (ar_WebhookURL r)),
      (''email_to'', fstrings (ar_EmailTo r)), (''active'', Some (JBool (ar_Active r))),
      (''last_fired_at'', otime fired), (''created_at'', fstr (format_rfc3339 (ar_CreatedAt r)))])"

definition decode_shared_alert :: "json \<Rightarrow> (alert_rule \<times> int option) option" where
  "decode_shared_alert j = do {
     r \<leftarrow> decode_alert j; m \<leftarrow> jobj j; f \<leftarrow> to_time_ptr None (jvals ''last_fired_at'' m); Some (r, f) }"

definition shared_cohort_json :: "cohort_definition \<Rightarrow> int option \<Rightarrow> json" where
  "shared_cohort_json c computed = JObj (obj_fields
     [(''id'', fstr (co_ID c)), (''app_id'', fstr (co_AppID c)), (''name'', fstr (co_Name c)),
      (''description'', ostr (co_Description c)), (''filter_sql'', ostr (co_FilterSQL c)),
      (''user_count'', fint (co_UserCount c)), (''last_computed_at'', otime computed),
      (''created_at'', fstr (format_rfc3339 (co_CreatedAt c)))])"

definition decode_shared_cohort :: "json \<Rightarrow> (cohort_definition \<times> int option) option" where
  "decode_shared_cohort j = do {
     c \<leftarrow> decode_cohort_def j; m \<leftarrow> jobj j; t \<leftarrow> to_time_ptr None (jvals ''last_computed_at'' m); Some (c, t) }"

definition decode_funnel_def :: "json \<Rightarrow> funnel_definition option" where
  "decode_funnel_def j = do {
     m \<leftarrow> jobj j;
     i \<leftarrow> to_string [] (jvals ''funnel_id'' m); a \<leftarrow> to_string [] (jvals ''app_id'' m);
     n \<leftarrow> to_string [] (jvals ''name'' m); ss \<leftarrow> to_strings (jvals ''steps'' m);
     w \<leftarrow> to_int 0 (jvals ''window_seconds'' m); t \<leftarrow> to_time zero_time (jvals ''created_at'' m);
     Some \<lparr>fd_FunnelID = i, fd_AppID = a, fd_Name = n, fd_Steps = (case ss of None \<Rightarrow> [] | Some xs \<Rightarrow> xs),
       fd_WindowSeconds = w, fd_CreatedAt = t\<rparr> }"

section \<open>The handlers\<close>

text \<open>The two shapes: a read answered by its rows, a write answered by a fixed response.\<close>

definition rows_answer :: "(go_error + 'a list) \<Rightarrow> string \<Rightarrow> ('a \<Rightarrow> json) \<Rightarrow> response" where
  "rows_answer r msg enc = (case r of
      Inl _ \<Rightarrow> writeError 500 msg | Inr xs \<Rightarrow> writeJSON 200 (nil_array (map enc xs)))"

definition done_answer :: "go_error option \<times> shared_db \<Rightarrow> string \<Rightarrow> response \<Rightarrow> response \<times> shared_db" where
  "done_answer r msg resp = (case r of (Some _, sd) \<Rightarrow> (writeError 500 msg, sd) | (None, sd) \<Rightarrow> (resp, sd))"

text \<open>\<open>fmt.Sprintf("x-%d", time.Now().UnixNano())\<close>, and the clock as the models keep it.\<close>

definition stamp_id :: "string \<Rightarrow> int \<Rightarrow> string" where
  "stamp_id p ns = p @ ''-'' @ itoa ns"

definition ms_of :: "int \<Rightarrow> int" where
  "ms_of ns = ns div 1000000"

definition service_CreateFunnel :: "(string \<Rightarrow> bool) \<Rightarrow> int \<Rightarrow> request \<Rightarrow> shared_db \<Rightarrow> response \<times> shared_db" where
  "service_CreateFunnel valid ns rq sd =
     (case Option.bind (rq_body rq) decode_funnel_def of
        None \<Rightarrow> (writeError 400 ''invalid request'', sd)
      | Some f0 \<Rightarrow>
          if fd_AppID f0 = [] then (writeError 400 ''invalid request'', sd)
          else let f = f0\<lparr>fd_FunnelID := stamp_id ''f'' ns, fd_CreatedAt := ms_of ns\<rparr>
            in done_answer (typed_write valid [fd_FunnelID f, fd_AppID f] (\<lambda>db. UpsertFunnel db f) sd)
                 ''create funnel failed'' (writeJSON 201 (jmap [(''funnel_id'', fd_FunnelID f)])))"

definition service_ListFunnels :: "(string \<Rightarrow> bool) \<Rightarrow> string \<Rightarrow> shared_db \<Rightarrow> response" where
  "service_ListFunnels valid appID rd =
     rows_answer (typed_read valid [appID] (ListFunnels (sd_db rd) appID)) ''list funnels failed''
       (\<lambda>f. JObj (obj_fields (funnel_definition_fields f)))"

definition service_ListApps :: "shared_db \<Rightarrow> response" where
  "service_ListApps rd = rows_answer (ListApps (sd_db rd)) ''list apps failed'' app_json"

definition service_GetApp :: "(string \<Rightarrow> bool) \<Rightarrow> string \<Rightarrow> shared_db \<Rightarrow> response" where
  "service_GetApp valid i rd = (case typed_read valid [i] (GetApp (sd_db rd) i) of
      Inl _ \<Rightarrow> writeError 404 ''app not found'' | Inr a \<Rightarrow> writeJSON 200 (app_json a))"

definition service_UpdateApp :: "(string \<Rightarrow> bool) \<Rightarrow> string \<Rightarrow> request \<Rightarrow> shared_db \<Rightarrow> response \<times> shared_db" where
  "service_UpdateApp valid i rq sd =
     (case Option.bind (rq_body rq) decode_app_update of
        None \<Rightarrow> (writeError 400 ''invalid JSON'', sd)
      | Some (name, rps, burst) \<Rightarrow>
          done_answer (typed_write valid [i] (\<lambda>db. UpdateApp db i name rps burst) sd) ''update failed'' (status_only 204))"

definition service_DeleteApp :: "(string \<Rightarrow> bool) \<Rightarrow> string \<Rightarrow> shared_db \<Rightarrow> response \<times> shared_db" where
  "service_DeleteApp valid i sd =
     done_answer (typed_write valid [i] (\<lambda>db. DeactivateApp db i) sd) ''delete failed'' (status_only 204)"

definition service_ListAlerts :: "(string \<Rightarrow> bool) \<Rightarrow> string \<Rightarrow> shared_db \<Rightarrow> response" where
  "service_ListAlerts valid appID rd =
     rows_answer (typed_read valid [appID] (ListAlertRules (sd_db rd) appID)) ''list alerts failed''
       (\<lambda>r. shared_alert_json r (map_of (sd_fired rd) (ar_ID r)))"

definition service_CreateAlert :: "(string \<Rightarrow> bool) \<Rightarrow> int \<Rightarrow> request \<Rightarrow> shared_db \<Rightarrow> response \<times> shared_db" where
  "service_CreateAlert valid ns rq sd =
     (case Option.bind (rq_body rq) decode_shared_alert of
        None \<Rightarrow> (writeError 400 ''invalid JSON'', sd)
      | Some (r0, fired) \<Rightarrow>
          let r = r0\<lparr>ar_ID := stamp_id ''a'' ns, ar_Active := True, ar_CreatedAt := ms_of ns\<rparr>
          in done_answer (typed_write valid [ar_ID r, ar_AppID r] (\<lambda>db. CreateAlertRule db r) sd)
               ''create alert failed'' (writeJSON 201 (shared_alert_json r fired)))"

text \<open>The answer is the request's rule with the id of the path, not the stored row.\<close>

definition service_UpdateAlert :: "(string \<Rightarrow> bool) \<Rightarrow> string \<Rightarrow> request \<Rightarrow> shared_db \<Rightarrow> response \<times> shared_db" where
  "service_UpdateAlert valid i rq sd =
     (case Option.bind (rq_body rq) decode_shared_alert of
        None \<Rightarrow> (writeError 400 ''invalid JSON'', sd)
      | Some (r, fired) \<Rightarrow>
          done_answer (typed_write valid [i] (\<lambda>db. UpdateAlertRule db (r\<lparr>ar_ID := i\<rparr>)) sd)
            ''update failed'' (writeJSON 200 (shared_alert_json (r\<lparr>ar_ID := i\<rparr>) fired)))"

definition service_DeleteAlert :: "(string \<Rightarrow> bool) \<Rightarrow> string \<Rightarrow> shared_db \<Rightarrow> response \<times> shared_db" where
  "service_DeleteAlert valid i sd =
     done_answer (typed_write valid [i] (\<lambda>db. DeleteAlertRule db i) sd) ''delete failed'' (status_only 204)"

definition service_ListCohorts :: "(string \<Rightarrow> bool) \<Rightarrow> string \<Rightarrow> shared_db \<Rightarrow> response" where
  "service_ListCohorts valid appID rd =
     rows_answer (typed_read valid [appID] (ListCohorts (sd_db rd) appID)) ''list cohorts failed''
       (\<lambda>c. shared_cohort_json c (map_of (sd_computed rd) (co_ID c)))"

definition service_CreateCohort :: "(string \<Rightarrow> bool) \<Rightarrow> int \<Rightarrow> request \<Rightarrow> shared_db \<Rightarrow> response \<times> shared_db" where
  "service_CreateCohort valid ns rq sd =
     (case Option.bind (rq_body rq) decode_shared_cohort of
        None \<Rightarrow> (writeError 400 ''invalid JSON'', sd)
      | Some (c0, computed) \<Rightarrow>
          let c = c0\<lparr>co_ID := stamp_id ''c'' ns, co_CreatedAt := ms_of ns\<rparr>
          in done_answer (typed_write valid [co_ID c, co_AppID c] (\<lambda>db. CreateCohort db c) sd)
               ''create cohort failed'' (writeJSON 201 (shared_cohort_json c computed)))"

definition service_DeleteCohort :: "(string \<Rightarrow> bool) \<Rightarrow> string \<Rightarrow> shared_db \<Rightarrow> response \<times> shared_db" where
  "service_DeleteCohort valid i sd =
     done_answer (typed_write valid [i] (\<lambda>db. DeleteCohort db i) sd) ''delete failed'' (status_only 204)"

definition service_ListExperiments :: "(string \<Rightarrow> bool) \<Rightarrow> string \<Rightarrow> shared_db \<Rightarrow> response" where
  "service_ListExperiments valid appID rd =
     rows_answer (typed_read valid [appID] (ListExperiments (sd_db rd) appID)) ''list experiments failed'' experiment_json"

definition service_CreateExperiment :: "(string \<Rightarrow> bool) \<Rightarrow> int \<Rightarrow> request \<Rightarrow> shared_db \<Rightarrow> response \<times> shared_db" where
  "service_CreateExperiment valid ns rq sd =
     (case Option.bind (rq_body rq) decode_experiment of
        None \<Rightarrow> (writeError 400 ''invalid JSON'', sd)
      | Some e0 \<Rightarrow>
          let e = e0\<lparr>ex_ID := stamp_id ''e'' ns, ex_CreatedAt := ms_of ns,
                ex_Status := (if ex_Status e0 = [] then ''draft'' else ex_Status e0)\<rparr>
          in done_answer (typed_write valid [ex_ID e, ex_AppID e] (\<lambda>db. CreateExperiment db e) sd)
               ''create experiment failed'' (writeJSON 201 (experiment_json e)))"

definition service_UpdateExperiment :: "(string \<Rightarrow> bool) \<Rightarrow> string \<Rightarrow> request \<Rightarrow> shared_db \<Rightarrow> response \<times> shared_db" where
  "service_UpdateExperiment valid i rq sd =
     (case Option.bind (rq_body rq) decode_experiment of
        None \<Rightarrow> (writeError 400 ''invalid JSON'', sd)
      | Some e \<Rightarrow>
          done_answer (typed_write valid [i] (\<lambda>db. UpdateExperiment db (e\<lparr>ex_ID := i\<rparr>)) sd)
            ''update failed'' (writeJSON 200 (experiment_json (e\<lparr>ex_ID := i\<rparr>))))"

definition service_DeleteExperiment :: "(string \<Rightarrow> bool) \<Rightarrow> string \<Rightarrow> shared_db \<Rightarrow> response \<times> shared_db" where
  "service_DeleteExperiment valid i sd =
     done_answer (typed_write valid [i] (\<lambda>db. DeleteExperiment db i) sd) ''delete failed'' (status_only 204)"

text \<open>The cohort's filter is spliced into the statement as it is; \<open>row\<close> is ClickHouse's
  answer, and a failing query keeps the old count.\<close>

definition recompute_sql :: "cohort_definition \<Rightarrow> string" where
  "recompute_sql c = ''SELECT uniqExact(user_id) FROM events WHERE app_id = '' @ [quote_char] @ co_AppID c @ [quote_char]
     @ '' AND ('' @ co_FilterSQL c @ '')''"

definition service_RecomputeCohort ::
  "(string \<Rightarrow> bool) \<Rightarrow> (string \<Rightarrow> go_error + int) \<Rightarrow> int \<Rightarrow> string \<Rightarrow> shared_db \<Rightarrow> shared_db \<Rightarrow> response \<times> shared_db" where
  "service_RecomputeCohort valid row ns i rd sd =
     (case GetCohort valid i rd of
        Inl _ \<Rightarrow> (writeError 404 ''cohort not found'', sd)
      | Inr (co, _) \<Rightarrow>
          let cnt = (case row (recompute_sql co) of Inl _ \<Rightarrow> co_UserCount co | Inr n \<Rightarrow> n)
          in done_answer (UpdateCohortCount valid i cnt (ms_of ns) sd) ''update cohort count failed''
               (writeJSON 200 (shared_cohort_json (co\<lparr>co_UserCount := cnt\<rparr>) (Some (ms_of ns)))))"

definition service_ListOrgs :: "shared_db \<Rightarrow> response" where
  "service_ListOrgs rd = rows_answer (ListOrgs (sd_db rd)) ''list orgs failed'' org_json"

definition service_CreateOrg :: "(string \<Rightarrow> bool) \<Rightarrow> int \<Rightarrow> request \<Rightarrow> shared_db \<Rightarrow> response \<times> shared_db" where
  "service_CreateOrg valid ns rq sd =
     (case Option.bind (rq_body rq) decode_org of
        None \<Rightarrow> (writeError 400 ''name required'', sd)
      | Some o0 \<Rightarrow>
          if org_Name o0 = [] then (writeError 400 ''name required'', sd)
          else let o1 = o0\<lparr>org_ID := stamp_id ''org'' ns, org_CreatedAt := ms_of ns,
                 org_Plan := (if org_Plan o0 = [] then ''free'' else org_Plan o0)\<rparr>
            in done_answer (typed_write valid [org_ID o1] (\<lambda>db. CreateOrg db o1) sd)
                 ''create org failed'' (writeJSON 201 (org_json o1)))"

definition service_UpdateOrg :: "(string \<Rightarrow> bool) \<Rightarrow> string \<Rightarrow> request \<Rightarrow> shared_db \<Rightarrow> response \<times> shared_db" where
  "service_UpdateOrg valid i rq sd =
     (case Option.bind (rq_body rq) decode_org of
        None \<Rightarrow> (writeError 400 ''invalid JSON'', sd)
      | Some r \<Rightarrow>
          done_answer (typed_write valid [i] (\<lambda>db. UpdateOrg db (r\<lparr>org_ID := i\<rparr>)) sd)
            ''update org failed'' (writeJSON 200 (org_json (r\<lparr>org_ID := i\<rparr>))))"

section \<open>The routes\<close>

text \<open>The routes of \<open>main\<close> behind \<open>JWTMiddleware\<close>, with what the handlers take from
  the path, the query string and the clock.\<close>

datatype service_route =
    SPostFunnels int | SGetFunnels string
  | SGetApps | SGetApp string | SPutApp string | SDeleteApp string
  | SGetAlerts string | SPostAlerts int | SPutAlert string | SDeleteAlert string
  | SGetCohorts string | SPostCohorts int | SDeleteCohort string | SRecompute int string "string \<Rightarrow> go_error + int"
  | SGetOrgs | SPostOrgs int | SPutOrg string
  | SGetExperiments string | SPostExperiments int | SPutExperiment string | SDeleteExperiment string

fun service_handle ::
  "(string \<Rightarrow> bool) \<Rightarrow> service_route \<Rightarrow> request \<Rightarrow> shared_db \<Rightarrow> shared_db \<Rightarrow> response \<times> shared_db" where
  "service_handle valid (SPostFunnels ns) rq rd sd = service_CreateFunnel valid ns rq sd"
| "service_handle valid (SGetFunnels appID) rq rd sd = (service_ListFunnels valid appID rd, sd)"
| "service_handle valid SGetApps rq rd sd = (service_ListApps rd, sd)"
| "service_handle valid (SGetApp i) rq rd sd = (service_GetApp valid i rd, sd)"
| "service_handle valid (SPutApp i) rq rd sd = service_UpdateApp valid i rq sd"
| "service_handle valid (SDeleteApp i) rq rd sd = service_DeleteApp valid i sd"
| "service_handle valid (SGetAlerts appID) rq rd sd = (service_ListAlerts valid appID rd, sd)"
| "service_handle valid (SPostAlerts ns) rq rd sd = service_CreateAlert valid ns rq sd"
| "service_handle valid (SPutAlert i) rq rd sd = service_UpdateAlert valid i rq sd"
| "service_handle valid (SDeleteAlert i) rq rd sd = service_DeleteAlert valid i sd"
| "service_handle valid (SGetCohorts appID) rq rd sd = (service_ListCohorts valid appID rd, sd)"
| "service_handle valid (SPostCohorts ns) rq rd sd = service_CreateCohort valid ns rq sd"
| "service_handle valid (SDeleteCohort i) rq rd sd = service_DeleteCohort valid i sd"
| "service_handle valid (SRecompute ns i row) rq rd sd = service_RecomputeCohort valid row ns i rd sd"
| "service_handle valid SGetOrgs rq rd sd = (service_ListOrgs rd, sd)"
| "service_handle valid (SPostOrgs ns) rq rd sd = service_CreateOrg valid ns rq sd"
| "service_handle valid (SPutOrg i) rq rd sd = service_UpdateOrg valid i rq sd"
| "service_handle valid (SGetExperiments appID) rq rd sd = (service_ListExperiments valid appID rd, sd)"
| "service_handle valid (SPostExperiments ns) rq rd sd = service_CreateExperiment valid ns rq sd"
| "service_handle valid (SPutExperiment i) rq rd sd = service_UpdateExperiment valid i rq sd"
| "service_handle valid (SDeleteExperiment i) rq rd sd = service_DeleteExperiment valid i sd"

definition service_request ::
  "jwt_lib \<Rightarrow> auth_config \<Rightarrow> int \<Rightarrow> (string \<Rightarrow> bool) \<Rightarrow> service_route \<Rightarrow> request \<Rightarrow> shared_db \<Rightarrow> shared_db \<Rightarrow> response \<times> shared_db" where
  "service_request J cfg now valid r rq rd sd =
     (case JWTMiddleware J cfg now rq of
        Answer resp \<Rightarrow> (resp, sd)
      | Pass c \<Rightarrow> service_handle valid r rq rd sd)"

section \<open>Ids\<close>

lemma show_nat_length: "n < 10 ^ k \<Longrightarrow> 0 < k \<Longrightarrow> length (show_nat n) \<le> k"
proof (induction n arbitrary: k rule: show_nat.induct)
  case (1 n)
  show ?case
  proof (cases "n < 10")
    case True
    then show ?thesis using "1.prems" by (simp add: show_nat.simps [of n])
  next
    case False
    obtain k' where k': "k = Suc k'" using "1.prems"(2) by (cases k) auto
    have "0 < k'" using False "1.prems"(1) k' by (cases k') auto
    moreover have "n div 10 < 10 ^ k'" using "1.prems"(1) k' by (simp add: less_mult_imp_div_less mult.commute)
    ultimately have "length (show_nat (n div 10)) \<le> k'" using "1.IH" False by simp
    then show ?thesis using False k' by (simp add: show_nat.simps [of n])
  qed
qed

text \<open>None of the ids the handlers make is a UUID.\<close>

lemma stamp_id_invalid:
  assumes "uuid_law valid" "in_i64 ns" "0 \<le> ns" "length p \<le> 3"
  shows "\<not> valid (stamp_id p ns)"
proof -
  have "nat ns < 10 ^ 19" using assms(2,3) by (simp add: in_i64_def)
  then have "length (itoa ns) \<le> 19" using assms(3) show_nat_length [of "nat ns" 19] by (simp add: itoa_def)
  then have "length (filter is_hex (itoa ns)) \<le> 19" by (rule le_trans [OF length_filter_le])
  moreover have "length (filter is_hex p) \<le> 3" by (rule le_trans [OF length_filter_le assms(4)])
  ultimately have "length (filter is_hex (stamp_id p ns)) \<noteq> 32" by (simp add: stamp_id_def is_hex_def Let_def)
  then show ?thesis using assms(1) by (auto simp: uuid_law_def)
qed

lemma typed_write_invalid: "\<not> list_all valid ids \<Longrightarrow> typed_write valid ids f sd = (Some (Errorf ''invalid uuid''), sd)"
  by (auto simp: typed_write_def)

section \<open>Properties\<close>

text \<open>C29: Nothing can be created: every request to create a funnel, an alert rule, a cohort, an
  experiment or an organisation is answered 400 or 500 and changes nothing, whatever its body,
  because the id the handler makes from the clock is not the UUID the table's column needs.\<close>

theorem service_creates_rejected:
  assumes "uuid_law valid" "in_i64 ns" "0 \<le> ns"
    and "r \<in> {SPostFunnels ns, SPostAlerts ns, SPostCohorts ns, SPostExperiments ns, SPostOrgs ns}"
  shows "rs_status (fst (service_handle valid r rq rd sd)) \<in> {400, 500} \<and> snd (service_handle valid r rq rd sd) = sd"
proof -
  have inv: "\<not> valid (stamp_id p ns)" if "length p \<le> 3" for p
    using stamp_id_invalid [OF assms(1-3) that] .
  from assms(4) show ?thesis
    by (auto simp: service_CreateFunnel_def service_CreateAlert_def service_CreateCohort_def
        service_CreateExperiment_def service_CreateOrg_def Let_def typed_write_invalid inv done_answer_def
        split: option.splits)
qed

theorem service_creates_rejected_witness:
  "rs_status (fst (service_handle hex32 (SPostAlerts 1700000000000000000) alert_request
      \<lparr>sd_db = demo_db, sd_fired = [], sd_computed = []\<rparr> \<lparr>sd_db = demo_db, sd_fired = [], sd_computed = []\<rparr>)) \<in> {400, 500}"
  using service_creates_rejected [OF hex32_law, of 1700000000000000000 "SPostAlerts 1700000000000000000"]
  by (simp add: in_i64_def)

lemma typed_write_wf:
  "(\<And>db. wf_mgmt db \<Longrightarrow> wf_mgmt (snd (f db))) \<Longrightarrow> wf_mgmt (sd_db sd) \<Longrightarrow> wf_mgmt (sd_db (snd (typed_write valid ids f sd)))"
  by (simp add: typed_write_def split_def)

lemma done_answer_db [simp]: "snd (done_answer r msg resp) = snd r"
  by (auto simp: done_answer_def split: prod.splits option.splits)

lemma wf_mgmt_funnels: "wf_mgmt db \<Longrightarrow> wf_mgmt (snd (UpsertFunnel db f))"
  by (simp add: UpsertFunnel_def exec_def wf_mgmt_def wf_db_def)

lemma UpdateCohortCount_wf:
  assumes "wf_mgmt (sd_db sd)"
  shows "wf_mgmt (sd_db (snd (UpdateCohortCount valid i n t sd)))"
proof -
  let ?rows = "map (\<lambda>c. if co_ID c = i then c\<lparr>co_UserCount := n\<rparr> else c) (t_cohorts (sd_db sd))"
  have ids: "map co_ID ?rows = map co_ID (t_cohorts (sd_db sd))" by (rule map_if_id) simp
  have apps: "co_AppID ` set ?rows = co_AppID ` set (t_cohorts (sd_db sd))" by (rule image_map_if_id) simp
  show ?thesis
    using assms unfolding UpdateCohortCount_def wf_mgmt_def wf_db_def
    by (simp add: ids apps del: map_map set_map image_set)
qed

lemma done_typed_wf:
  "(\<And>db. wf_mgmt db \<Longrightarrow> wf_mgmt (snd (f db))) \<Longrightarrow> wf_mgmt (sd_db sd) \<Longrightarrow>
    wf_mgmt (sd_db (snd (done_answer (typed_write valid ids f sd) msg resp)))"
  by (simp add: typed_write_wf)

lemma service_creates_wf:
  assumes "wf_mgmt (sd_db sd)"
  shows "wf_mgmt (sd_db (snd (service_CreateFunnel valid ns rq sd)))"
    "wf_mgmt (sd_db (snd (service_CreateAlert valid ns rq sd)))"
    "wf_mgmt (sd_db (snd (service_CreateCohort valid ns rq sd)))"
    "wf_mgmt (sd_db (snd (service_CreateExperiment valid ns rq sd)))"
    "wf_mgmt (sd_db (snd (service_CreateOrg valid ns rq sd)))"
  unfolding service_CreateFunnel_def service_CreateAlert_def service_CreateCohort_def
    service_CreateExperiment_def service_CreateOrg_def Let_def
  by (auto simp del: done_answer_db intro!: done_typed_wf simp: assms wf_mgmt_writes wf_mgmt_funnels
      split: option.split)

lemma service_updates_wf:
  assumes "wf_mgmt (sd_db sd)"
  shows "wf_mgmt (sd_db (snd (service_UpdateApp valid i rq sd)))"
    "wf_mgmt (sd_db (snd (service_UpdateAlert valid i rq sd)))"
    "wf_mgmt (sd_db (snd (service_UpdateExperiment valid i rq sd)))"
    "wf_mgmt (sd_db (snd (service_UpdateOrg valid i rq sd)))"
    "wf_mgmt (sd_db (snd (service_RecomputeCohort valid row ns i rd sd)))"
  unfolding service_UpdateApp_def service_UpdateAlert_def service_UpdateExperiment_def service_UpdateOrg_def
    service_RecomputeCohort_def Let_def
  by (auto simp del: done_answer_db intro!: done_typed_wf simp: assms wf_mgmt_writes split: option.split)
    (auto simp: UpdateCohortCount_wf assms split: sum.split)

lemma service_deletes_wf:
  assumes "wf_mgmt (sd_db sd)"
  shows "wf_mgmt (sd_db (snd (service_DeleteApp valid i sd)))" "wf_mgmt (sd_db (snd (service_DeleteAlert valid i sd)))"
    "wf_mgmt (sd_db (snd (service_DeleteCohort valid i sd)))" "wf_mgmt (sd_db (snd (service_DeleteExperiment valid i sd)))"
  unfolding service_DeleteApp_def service_DeleteAlert_def service_DeleteCohort_def service_DeleteExperiment_def
  by (auto simp del: done_answer_db intro!: done_typed_wf simp: assms wf_mgmt_writes)

lemma service_handle_wf:
  "wf_mgmt (sd_db sd) \<Longrightarrow> wf_mgmt (sd_db (snd (service_handle valid r rq rd sd)))"
  by (cases r) (simp_all only: service_handle.simps service_creates_wf service_updates_wf service_deletes_wf snd_conv)

lemma service_run_wf:
  "wf_mgmt (sd_db sd) \<Longrightarrow>
   wf_mgmt (sd_db (foldl (\<lambda>sd (now, r, rq, rd). snd (service_request J cfg now valid r rq rd sd)) sd rs))"
  by (induction rs arbitrary: sd) (auto simp: service_request_def service_handle_wf split: gate.split)

text \<open>Every sequence of requests through the token middleware, each reading from any replica,
  keeps the primary database sound.\<close>

theorem service_requests_keep_sound:
  assumes "wf_mgmt (sd_db sd)"
  shows "wf_mgmt (sd_db (foldl (\<lambda>sd (now, r, rq, rd). snd (service_request J cfg now valid r rq rd sd)) sd rs))"
  using assms by (rule service_run_wf)

theorem service_requests_keep_sound_witness:
  "wf_mgmt (sd_db (foldl (\<lambda>sd (now, r, rq, rd). snd (service_request demo_jwt demo_cfg now hex32 r rq rd sd))
     \<lparr>sd_db = demo_db, sd_fired = [], sd_computed = []\<rparr>
     [(0, SDeleteApp ''a'', blank_request, \<lparr>sd_db = demo_db, sd_fired = [], sd_computed = []\<rparr>)]))"
  by (rule service_requests_keep_sound) (use demo_db_wf in \<open>simp add: wf_mgmt_def demo_db_def empty_db_def\<close>)

text \<open>A token is as good as any other: whoever holds a valid one, for whatever application,
  switches off every application whose id is known.\<close>

lemma any_token_deletes:
  assumes "JWTMiddleware J cfg now rq = Pass c" "valid i" "db_up (sd_db sd)"
  shows "service_request J cfg now valid (SDeleteApp i) rq rd sd =
    (status_only 204, sd\<lparr>sd_db := update_app i (\<lambda>a. a\<lparr>app_Active := False\<rparr>) (sd_db sd)\<rparr>)"
  using assms
  by (simp add: service_request_def service_DeleteApp_def typed_write_def DeactivateApp_def exec_def done_answer_def)

text \<open>Recomputing a cohort stores what ClickHouse answers, and keeps the count when it fails.\<close>

lemma UpdateCohortCount_row:
  assumes "valid i" "db_up (sd_db sd)" "c \<in> set (t_cohorts (sd_db (snd (UpdateCohortCount valid i n t sd))))" "co_ID c = i"
  shows "co_UserCount c = n"
proof -
  have "c \<in> (\<lambda>c. if co_ID c = i then c\<lparr>co_UserCount := n\<rparr> else c) ` set (t_cohorts (sd_db sd))"
    using assms(1-3) by (simp add: UpdateCohortCount_def)
  then obtain x where x: "c = (if co_ID x = i then x\<lparr>co_UserCount := n\<rparr> else x)" by (rule imageE) blast
  show ?thesis using assms(4) unfolding x by (cases "co_ID x = i") simp_all
qed

lemma recompute_stores:
  assumes "GetCohort valid i rd = Inr (co, t)" "valid i" "db_up (sd_db sd)"
    "c \<in> set (t_cohorts (sd_db (snd (service_RecomputeCohort valid row ns i rd sd))))" "co_ID c = i"
  shows "co_UserCount c = (case row (recompute_sql co) of Inl _ \<Rightarrow> co_UserCount co | Inr n \<Rightarrow> n)"
proof (rule UpdateCohortCount_row [where valid = valid and sd = sd and i = i and t = "ms_of ns"])
  show "c \<in> set (t_cohorts (sd_db (snd (UpdateCohortCount valid i
      (case row (recompute_sql co) of Inl _ \<Rightarrow> co_UserCount co | Inr n \<Rightarrow> n) (ms_of ns) sd))))"
    using assms(4) by (simp add: service_RecomputeCohort_def assms(1) Let_def)
qed (fact assms)+

end
