(* ===== verification/LayeredQuery.thy ===== *)
theory LayeredQuery
  imports LayeredMgmt LayeredWriter
begin

text \<open>
  The module \<open>query-api/\<close>: its analytics handlers over the query service of the theory
  \<open>Query\<close>, whose copy the module uses, and all its routes behind the token middleware.
  \<open>q\<close> is the decoded query string, \<open>now\<close> the clock in milliseconds, \<open>joined\<close> what a
  joining caller of the service is handed (theory \<open>Query\<close>).
\<close>

definition Query_Health :: response where
  "Query_Health = writeJSON 200 (jmap [(''status'', ''ok''), (''service'', ''query-api'')])"

definition AuthLogin :: response where
  "AuthLogin = writeError 501 ''use auth service: POST /v1/auth/token''"

definition service_EventCount ::
  "('s, 'c, 'row) q_env \<Rightarrow> clock \<Rightarrow> (go_error + event_count_response) option \<Rightarrow> int \<Rightarrow> (string \<Rightarrow> string)
     \<Rightarrow> ('s, 'c) qservice \<Rightarrow> response \<times> (string \<times> string \<times> sql_arg list) option \<times> ('s, 'c) qservice" where
  "service_EventCount env clk joined now q st =
     (let appID = q ''app_id'' in
      if appID = [] then (writeError 400 ''app_id required'', None, st)
      else let req = \<lparr>cr_AppID = appID, cr_EventName = q ''event_name'',
             cr_FromMs = parseMillis (q ''from_ms'') (defaultFromMs now), cr_ToMs = parseMillis (q ''to_ms'') now,
             cr_Granularity = defaultStr (q ''granularity'') ''day'', cr_GroupBy = [], cr_Filters = []\<rparr>
        in case EventCount env clk joined req st of
             (Inl _, refresh, st') \<Rightarrow> (writeError 500 ''query failed'', refresh, st')
           | (Inr resp, refresh, st') \<Rightarrow> (writeJSON 200 (encode_count resp), refresh, st'))"

definition service_FunnelQuery ::
  "('s, 'c, 'row) q_env \<Rightarrow> clock \<Rightarrow> (go_error + funnel_step list) option \<Rightarrow> int \<Rightarrow> request
     \<Rightarrow> ('s, 'c) qservice \<Rightarrow> response \<times> ('s, 'c) qservice" where
  "service_FunnelQuery env clk joined now rq st =
     (case Option.bind (rq_body rq) decode_funnel_request of
        None \<Rightarrow> (writeError 400 ''invalid request'', st)
      | Some req0 \<Rightarrow>
          if fr_AppID req0 = [] then (writeError 400 ''invalid request'', st)
          else
            let req1 = (if fr_FromMs req0 = 0 then req0\<lparr>fr_FromMs := defaultFromMs now\<rparr> else req0);
                req2 = (if fr_ToMs req1 = 0 then req1\<lparr>fr_ToMs := now\<rparr> else req1);
                req = (if fr_WindowSeconds req2 = 0 then req2\<lparr>fr_WindowSeconds := 7 * 86400\<rparr> else req2)
            in case Funnel env clk joined req st of
                 (Inl e, st') \<Rightarrow> (writeError 500 (go_error_text e), st')
               | (Inr ss, st') \<Rightarrow> (writeJSON 200 (encode_funnel ss), st'))"

definition service_DAU ::
  "('s, 'c, 'row) q_env \<Rightarrow> clock \<Rightarrow> (go_error + event_count_response) option \<Rightarrow> int \<Rightarrow> (string \<Rightarrow> string)
     \<Rightarrow> ('s, 'c) qservice \<Rightarrow> response \<times> ('s, 'c) qservice" where
  "service_DAU env clk joined now q st =
     (let appID = q ''app_id'' in
      if appID = [] then (writeError 400 ''app_id required'', st)
      else let req = \<lparr>dr_AppID = appID, dr_FromMs = parseMillis (q ''from_ms'') (defaultFromMs now),
             dr_ToMs = parseMillis (q ''to_ms'') now, dr_Granularity = defaultStr (q ''granularity'') ''day''\<rparr>
        in case DAU env clk joined req st of
             (Inl _, st') \<Rightarrow> (writeError 500 ''query failed'', st')
           | (Inr resp, st') \<Rightarrow> (writeJSON 200 (encode_count resp), st'))"

definition service_Retention ::
  "('s, 'c, 'row) q_env \<Rightarrow> clock \<Rightarrow> (go_error + retention_cohort list) option \<Rightarrow> request
     \<Rightarrow> ('s, 'c) qservice \<Rightarrow> response \<times> ('s, 'c) qservice" where
  "service_Retention env clk joined rq st =
     (case Option.bind (rq_body rq) decode_retention_request of
        None \<Rightarrow> (writeError 400 ''invalid request'', st)
      | Some req0 \<Rightarrow>
          if rr_AppID req0 = [] then (writeError 400 ''invalid request'', st)
          else
            let req = (if rr_DayNs req0 = None then req0\<lparr>rr_DayNs := Some [1, 3, 7, 14, 30]\<rparr> else req0)
            in case Retention env clk joined req st of
                 (Inl _, st') \<Rightarrow> (writeError 500 ''query failed'', st')
               | (Inr cs, st') \<Rightarrow> (writeJSON 200 (encode_retention cs), st'))"

definition service_session_sql :: string where
  "service_session_sql =
     sql_line 2 ''SELECT'' @ sql_line 3 ''avg(duration_s) AS avg_duration,''
     @ sql_line 3 ''median(duration_s) AS median_duration,'' @ sql_line 3 ''count() AS total_sessions,''
     @ sql_line 3 ''avg(event_count) AS avg_events'' @ sql_line 2 ''FROM ('' @ sql_line 3 ''SELECT session_id,''
     @ sql_line 4 (''max(toInt64(props['' @ quoted ''session_duration_s'' @ ''])) AS duration_s,'')
     @ sql_line 4 ''count() AS event_count'' @ sql_line 3 ''FROM events''
     @ sql_line 3 ''WHERE app_id = ? AND event_time BETWEEN ? AND ?''
     @ sql_line 3 (''  AND event_name = '' @ quoted ''session_end'') @ sql_line 3 ''GROUP BY session_id''
     @ sql_line 2 '')''"

text \<open>\<open>scan\<close> is the one-row query with its four columns scanned, \<open>None\<close> an error.\<close>

definition service_SessionMetrics ::
  "('c \<Rightarrow> string \<Rightarrow> sql_arg list \<Rightarrow> (f64 \<times> f64 \<times> int \<times> f64) option) \<Rightarrow> int \<Rightarrow> (string \<Rightarrow> string)
     \<Rightarrow> ('s, 'c) qservice \<Rightarrow> response" where
  "service_SessionMetrics scan now q st =
     (let appID = q ''app_id'' in
      if appID = [] then writeError 400 ''app_id required''
      else
        (case scan (q_ch st) service_session_sql
                [AStr appID, ATime (parseMillis (q ''from_ms'') (defaultFromMs now)), ATime (parseMillis (q ''to_ms'') now)] of
           None \<Rightarrow> writeError 500 ''query failed''
         | Some (avgDur, medDur, totalSessions, avgEvents) \<Rightarrow>
             writeJSON 200 (JObj [(''avg_events_per_session'', JNum avgEvents),
               (''avg_session_duration_s'', JNum avgDur), (''median_session_duration_s'', JNum medDur),
               (''total_sessions'', JNum (of_int totalSessions))])))"

text \<open>No handler calls it.\<close>

definition GetClaimsAppID :: "claims option \<Rightarrow> (string \<Rightarrow> string) \<Rightarrow> string" where
  "GetClaimsAppID c q = (case c of Some cl \<Rightarrow> cl_AppID cl | None \<Rightarrow> q ''app_id'')"

section \<open>The routes\<close>

text \<open>The routes of \<open>main\<close> under \<open>/v1\<close>, all behind \<open>JWTMiddleware\<close>, which reads the
  clock \<open>t0\<close>; a handler takes nothing from the claims it is passed.\<close>

datatype 'c query_route =
    QEventCount "(go_error + event_count_response) option" "string \<Rightarrow> string"
  | QFunnel "(go_error + funnel_step list) option"
  | QDAU "(go_error + event_count_response) option" "string \<Rightarrow> string"
  | QRetention "(go_error + retention_cohort list) option"
  | QSession "'c \<Rightarrow> string \<Rightarrow> sql_arg list \<Rightarrow> (f64 \<times> f64 \<times> int \<times> f64) option" "string \<Rightarrow> string"
  | QManage service_route shared_db

fun query_handle ::
  "('s, 'c, 'row) q_env \<Rightarrow> clock \<Rightarrow> (string \<Rightarrow> bool) \<Rightarrow> int \<Rightarrow> 'c query_route \<Rightarrow> request \<Rightarrow>
   ('s, 'c) qservice \<times> shared_db \<Rightarrow> response \<times> ('s, 'c) qservice \<times> shared_db" where
  "query_handle env clk valid now (QEventCount j q) rq (st, sd) =
     (case service_EventCount env clk j now q st of (resp, _, st') \<Rightarrow> (resp, st', sd))"
| "query_handle env clk valid now (QFunnel j) rq (st, sd) =
     (case service_FunnelQuery env clk j now rq st of (resp, st') \<Rightarrow> (resp, st', sd))"
| "query_handle env clk valid now (QDAU j q) rq (st, sd) =
     (case service_DAU env clk j now q st of (resp, st') \<Rightarrow> (resp, st', sd))"
| "query_handle env clk valid now (QRetention j) rq (st, sd) =
     (case service_Retention env clk j rq st of (resp, st') \<Rightarrow> (resp, st', sd))"
| "query_handle env clk valid now (QSession scan q) rq (st, sd) = (service_SessionMetrics scan now q st, st, sd)"
| "query_handle env clk valid now (QManage r rd) rq (st, sd) =
     (case service_handle valid r rq rd sd of (resp, sd') \<Rightarrow> (resp, st, sd'))"

definition query_request ::
  "jwt_lib \<Rightarrow> auth_config \<Rightarrow> int \<Rightarrow> ('s, 'c, 'row) q_env \<Rightarrow> clock \<Rightarrow> (string \<Rightarrow> bool) \<Rightarrow> int \<Rightarrow> 'c query_route \<Rightarrow> request \<Rightarrow>
   ('s, 'c) qservice \<times> shared_db \<Rightarrow> response \<times> ('s, 'c) qservice \<times> shared_db" where
  "query_request J cfg t0 env clk valid now r rq st =
     (case JWTMiddleware J cfg t0 rq of
        Answer resp \<Rightarrow> (resp, st)
      | Pass c \<Rightarrow> query_handle env clk valid now r rq st)"

section \<open>Lemmas\<close>

lemma rows_answer_not_401 [simp]: "rs_status (rows_answer r msg enc) \<noteq> 401"
  by (simp add: rows_answer_def split: sum.split)

lemma done_answer_not_401: "rs_status resp \<noteq> 401 \<Longrightarrow> rs_status (fst (done_answer r msg resp)) \<noteq> 401"
  by (auto simp: done_answer_def split: prod.split option.split)

lemma mgmt_writes_not_401:
  "rs_status (fst (service_CreateFunnel valid ns rq sd)) \<noteq> 401"
  "rs_status (fst (service_CreateAlert valid ns rq sd)) \<noteq> 401"
  "rs_status (fst (service_CreateCohort valid ns rq sd)) \<noteq> 401"
  "rs_status (fst (service_CreateExperiment valid ns rq sd)) \<noteq> 401"
  "rs_status (fst (service_CreateOrg valid ns rq sd)) \<noteq> 401"
  "rs_status (fst (service_UpdateApp valid i rq sd)) \<noteq> 401"
  "rs_status (fst (service_UpdateAlert valid i rq sd)) \<noteq> 401"
  "rs_status (fst (service_UpdateExperiment valid i rq sd)) \<noteq> 401"
  "rs_status (fst (service_UpdateOrg valid i rq sd)) \<noteq> 401"
  "rs_status (fst (service_RecomputeCohort valid scan ns i rd sd)) \<noteq> 401"
  "rs_status (fst (service_DeleteApp valid i sd)) \<noteq> 401" "rs_status (fst (service_DeleteAlert valid i sd)) \<noteq> 401"
  "rs_status (fst (service_DeleteCohort valid i sd)) \<noteq> 401" "rs_status (fst (service_DeleteExperiment valid i sd)) \<noteq> 401"
  unfolding service_CreateFunnel_def service_CreateAlert_def service_CreateCohort_def service_CreateExperiment_def
    service_CreateOrg_def service_UpdateApp_def service_UpdateAlert_def service_UpdateExperiment_def
    service_UpdateOrg_def service_RecomputeCohort_def service_DeleteApp_def service_DeleteAlert_def
    service_DeleteCohort_def service_DeleteExperiment_def Let_def
  by (auto simp: done_answer_not_401 split: option.split sum.split)

lemma service_handle_not_401: "rs_status (fst (service_handle valid r rq rd sd)) \<noteq> 401"
  by (cases r)
    (simp_all only: service_handle.simps fst_conv mgmt_writes_not_401 not_False_eq_True,
     simp_all add: service_ListFunnels_def service_ListApps_def service_GetApp_def service_ListAlerts_def
       service_ListCohorts_def service_ListExperiments_def service_ListOrgs_def split: sum.split)

lemma analytics_not_401:
  "rs_status (fst (service_EventCount env clk j now q st)) \<noteq> 401"
  "rs_status (fst (service_FunnelQuery env clk j' now rq st)) \<noteq> 401"
  "rs_status (fst (service_DAU env clk j now q st)) \<noteq> 401"
  "rs_status (fst (service_Retention env clk j'' rq st)) \<noteq> 401"
  "rs_status (service_SessionMetrics scan now q st) \<noteq> 401"
  unfolding service_EventCount_def service_FunnelQuery_def service_DAU_def service_Retention_def
    service_SessionMetrics_def Let_def
  by (auto split: option.split sum.split prod.split)

lemma query_handle_not_401: "rs_status (fst (query_handle env clk valid now r rq st)) \<noteq> 401"
  by (cases st, cases r) (simp_all add: case_prod_unfold analytics_not_401 service_handle_not_401)

section \<open>Properties\<close>

text \<open>C18: Every route asks for a token and none for its owner: the answer is 401, with nothing
  changed, exactly when the request bears no token that validates, and otherwise it is the
  handler's, the same for every token that validates.\<close>

theorem query_api_gate:
  "(rs_status (fst (query_request J cfg t0 env clk valid now r rq st)) = 401) =
     (Option.bind (cut_prefix (rq_header rq ''Authorization'') ''Bearer '')
        (\<lambda>tok. case ValidateToken J cfg t0 tok of Inl _ \<Rightarrow> None | Inr c \<Rightarrow> Some c) = None)
   \<and> snd (query_request J cfg t0 env clk valid now r rq st) =
       (if rs_status (fst (query_request J cfg t0 env clk valid now r rq st)) = 401 then st
        else snd (query_handle env clk valid now r rq st))"
  by (auto simp: query_request_def JWTMiddleware_def query_handle_not_401 split: option.split sum.split)

text \<open>A caller's token says nothing about the application it may ask for.\<close>

lemma any_token_reads_any_app:
  assumes "JWTMiddleware J cfg t0 rq = Pass c" "JWTMiddleware J cfg t0 rq' = Pass c'" "rq_body rq = rq_body rq'"
  shows "query_request J cfg t0 env clk valid now r rq st = query_request J cfg t0 env clk valid now r rq' st"
proof (cases st)
  case (Pair qs sd)
  have "query_handle env clk valid now r rq (qs, sd) = query_handle env clk valid now r rq' (qs, sd)"
  proof (cases r)
    case (QManage r' rd)
    have "service_handle valid r' rq rd sd = service_handle valid r' rq' rd sd"
      by (cases r') (simp_all add: service_CreateFunnel_def service_CreateAlert_def service_CreateCohort_def
        service_CreateExperiment_def service_CreateOrg_def service_UpdateApp_def service_UpdateAlert_def
        service_UpdateExperiment_def service_UpdateOrg_def assms(3))
    then show ?thesis by (simp add: QManage)
  qed (simp_all add: service_FunnelQuery_def service_Retention_def assms(3))
  then show ?thesis using assms(1,2) by (simp add: query_request_def Pair)
qed

text \<open>The session metrics convert a property to a number: the rows the writer module makes
  of session ends hold one.\<close>

lemma session_duration_readable:
  "map_option atoi (map_of (ch_Props (SessionToCHEvent se)) ''session_duration_s'') = Some (Some (se_DurationS se))"
  by (simp add: SessionToCHEvent_def)

end
