(* ===== verification/LayeredAlert.thy ===== *)
theory LayeredAlert
  imports LayeredMgmt Notification Kafka
begin

text \<open>
  The modules \<open>alert-engine/\<close> and \<open>notification/\<close>: the evaluation of the rules every
  minute, the message on the notification topic, and its delivery.  Parameters: the answer of
  ClickHouse to a statement with its two arguments, about which \<open>binds_law\<close> states what is
  documented, the brokers' acknowledgements and the HTTP client.  A rule is evaluated with its
  own clock reading and answers (\<open>engine_env\<close>), a message is delivered with its own
  (\<open>notif_env\<close>).  Instants are milliseconds, the delivery's id is made of nanoseconds.
\<close>

section \<open>The metric\<close>

definition metricSQL :: "string \<Rightarrow> string" where
  "metricSQL metric =
     (let q = (\<lambda>s. [quote_char] @ s @ [quote_char]);
          since = '' AND event_time >= now() - toIntervalMinute(?)''
      in if metric = ''event_rate'' then ''SELECT count() / ? AS v FROM events WHERE app_id = ?'' @ since
         else if metric = ''error_rate'' then
           ''SELECT countIf(event_name = '' @ q ''error'' @ '') / count() AS v FROM events WHERE app_id = ?'' @ since
         else if metric = ''p99_latency'' then
           ''SELECT quantile(0.99)(toFloat64(props['' @ q ''latency_ms'' @ ''])) AS v FROM events WHERE app_id = ?''
             @ '' AND event_name = '' @ q ''api_call'' @ since
         else if metric = ''active_users'' then ''SELECT uniq(device_id) AS v FROM events WHERE app_id = ?'' @ since
         else [])"

type_synonym metric_row = "string \<Rightarrow> string \<Rightarrow> int \<Rightarrow> go_error + f64"

text \<open>A statement with more placeholders than its two arguments is refused.\<close>

definition binds_law :: "metric_row \<Rightarrow> bool" where
  "binds_law row \<longleftrightarrow>
     (\<forall>sql a w. 2 < length (filter (\<lambda>c. c = CHR ''?'') sql) \<longrightarrow> (\<exists>e. row sql a w = Inl e))"

definition QueryMetricValue :: "metric_row \<Rightarrow> string \<Rightarrow> string \<Rightarrow> int \<Rightarrow> go_error + f64" where
  "QueryMetricValue row appID metric windowMinutes =
     (let sql = metricSQL metric in if sql = [] then Inr 0 else row sql appID windowMinutes)"

definition compare :: "f64 \<Rightarrow> string \<Rightarrow> f64 \<Rightarrow> bool" where
  "compare v op threshold =
     (if op = ''>'' then v > threshold else if op = ''>='' then v \<ge> threshold
      else if op = ''<'' then v < threshold else if op = ''<='' then v \<le> threshold
      else if op = ''=='' then v = threshold else False)"

section \<open>The message\<close>

record alert_fired =
  af_RuleID :: string
  af_AppID :: string
  af_Metric :: string
  af_Value :: f64
  af_Threshold :: f64
  af_Operator :: string
  af_FiredAt :: int

definition alert_fired_fields :: "alert_fired \<Rightarrow> (string \<times> json option) list" where
  "alert_fired_fields e =
     [(''rule_id'', fstr (af_RuleID e)), (''app_id'', fstr (af_AppID e)), (''metric'', fstr (af_Metric e)),
      (''value'', Some (JNum (af_Value e))), (''threshold'', Some (JNum (af_Threshold e))),
      (''operator'', fstr (af_Operator e)), (''fired_at'', fstr (format_rfc3339 (af_FiredAt e)))]"

definition encode_alert_fired :: "alert_fired \<Rightarrow> json" where
  "encode_alert_fired e = JObj (obj_fields (alert_fired_fields e))"

definition decode_alert_fired :: "json \<Rightarrow> alert_fired option" where
  "decode_alert_fired j = do {
     m \<leftarrow> jobj j;
     i \<leftarrow> to_string [] (jvals ''rule_id'' m); a \<leftarrow> to_string [] (jvals ''app_id'' m);
     n \<leftarrow> to_string [] (jvals ''metric'' m); v \<leftarrow> to_float 0 (jvals ''value'' m);
     t \<leftarrow> to_float 0 (jvals ''threshold'' m); c \<leftarrow> to_string [] (jvals ''operator'' m);
     f \<leftarrow> to_time zero_time (jvals ''fired_at'' m);
     Some \<lparr>af_RuleID = i, af_AppID = a, af_Metric = n, af_Value = v, af_Threshold = t,
       af_Operator = c, af_FiredAt = f\<rparr> }"

section \<open>The alert engine\<close>

definition PublishJSON ::
  "go_error option \<Rightarrow> string \<Rightarrow> string \<Rightarrow> json option \<Rightarrow> producer \<Rightarrow> go_error option \<times> producer" where
  "PublishJSON ack topic key value p = PublishSync ack topic key value p"

record engine_env =
  en_row :: metric_row
  en_ack :: "go_error option"
  en_now :: int

definition engine_evaluate ::
  "(string \<Rightarrow> bool) \<Rightarrow> string \<Rightarrow> engine_env \<Rightarrow> alert_rule \<Rightarrow> producer \<times> shared_db \<Rightarrow> go_error option \<times> producer \<times> shared_db" where
  "engine_evaluate valid topic env rule st =
     (case QueryMetricValue (en_row env) (ar_AppID rule) (ar_MetricName rule) (ar_WindowMins rule) of
        Inl _ \<Rightarrow> (Some (Errorf (''query metric '' @ ar_MetricName rule)), st)
      | Inr v \<Rightarrow>
          if \<not> compare v (ar_Condition rule) (ar_Threshold rule) then (None, st)
          else let event = \<lparr>af_RuleID = ar_ID rule, af_AppID = ar_AppID rule, af_Metric = ar_MetricName rule,
                 af_Value = v, af_Threshold = ar_Threshold rule, af_Operator = ar_Condition rule,
                 af_FiredAt = en_now env\<rparr>
            in case PublishJSON (en_ack env) topic (ar_AppID rule) (Some (encode_alert_fired event)) (fst st) of
                 (Some e, p) \<Rightarrow> (Some e, p, snd st)
               | (None, p) \<Rightarrow> (None, p, snd (UpdateAlertLastFired valid (ar_ID rule) (en_now env) (snd st))))"

text \<open>The errors of single rules are logged.  The \<open>i\<close>-th rule is evaluated with
  \<open>env i\<close>.\<close>

fun evaluate_rules ::
  "(string \<Rightarrow> bool) \<Rightarrow> string \<Rightarrow> (nat \<Rightarrow> engine_env) \<Rightarrow> nat \<Rightarrow> alert_rule list \<Rightarrow> producer \<times> shared_db \<Rightarrow> producer \<times> shared_db" where
  "evaluate_rules valid topic env i [] st = st"
| "evaluate_rules valid topic env i (rule # rules) st =
     evaluate_rules valid topic env (Suc i) rules
       (if \<not> ar_Active rule then st else snd (engine_evaluate valid topic (env i) rule st))"

text \<open>The list is asked for with an empty application id.\<close>

definition ListActiveAlerts :: "(string \<Rightarrow> bool) \<Rightarrow> shared_db \<Rightarrow> go_error + alert_rule list" where
  "ListActiveAlerts valid rd = typed_read valid [''''] (ListAlertRules (sd_db rd) '''')"

definition EvaluateAll ::
  "(string \<Rightarrow> bool) \<Rightarrow> string \<Rightarrow> (nat \<Rightarrow> engine_env) \<Rightarrow> shared_db \<Rightarrow> producer \<times> shared_db \<Rightarrow> go_error option \<times> producer \<times> shared_db" where
  "EvaluateAll valid topic env rd st =
     (case ListActiveAlerts valid rd of
        Inl _ \<Rightarrow> (Some (Errorf ''list alerts''), st)
      | Inr rules \<Rightarrow> (None, evaluate_rules valid topic env 0 rules st))"

text \<open>The scheduler's runs, each reading its rules from a replica.\<close>

fun scheduler_runs ::
  "(string \<Rightarrow> bool) \<Rightarrow> string \<Rightarrow> ((nat \<Rightarrow> engine_env) \<times> shared_db) list \<Rightarrow> producer \<times> shared_db \<Rightarrow> producer \<times> shared_db" where
  "scheduler_runs valid topic [] st = st"
| "scheduler_runs valid topic ((env, rd) # ticks) st =
     scheduler_runs valid topic ticks (snd (EvaluateAll valid topic env rd st))"

definition service_health :: "string \<Rightarrow> response" where
  "service_health name = writeJSON 200 (jmap [(''status'', ''ok''), (''service'', name)])"

definition scheduler_Health :: response where
  "scheduler_Health = service_health ''alert-engine''"

section \<open>The notification module\<close>

text \<open>A delivery's error is kept as the error whose text the code stores.  The application with the contact columns; \<open>GetApp\<close> of \<open>shared/pkg/postgres\<close>
  selects none of them.\<close>

record contact_app =
  ct_app :: app
  ct_NotificationChannel :: string
  ct_WebhookURL :: string
  ct_NotificationEmail :: string

definition contact_GetApp :: "(string \<Rightarrow> bool) \<Rightarrow> string \<Rightarrow> shared_db \<Rightarrow> go_error + contact_app" where
  "contact_GetApp valid appID rd =
     (case typed_read valid [appID] (GetApp (sd_db rd) appID) of
        Inl _ \<Rightarrow> Inl (Errorf ''get app'')
      | Inr a \<Rightarrow> Inr \<lparr>ct_app = a, ct_NotificationChannel = [], ct_WebhookURL = [], ct_NotificationEmail = []\<rparr>)"

record delivery_attempt =
  nd_ID :: string
  nd_RuleID :: string
  nd_AppID :: string
  nd_Channel :: string
  nd_Recipient :: string
  nd_Status :: string
  nd_Error :: "go_error option"
  nd_Payload :: alert_fired
  nd_SentAt :: int

record notif_env =
  ne_http :: http_client
  ne_rd :: shared_db
  ne_mongo_up :: bool
  ne_ns :: int
  ne_now :: int

definition sendWebhook :: "http_client \<Rightarrow> string \<Rightarrow> alert_fired \<Rightarrow> go_error option \<times> http_out list" where
  "sendWebhook hc url evt =
     (if url = [] then (Some (Errorf ''webhook URL not configured''), [])
      else if \<not> valid_url hc url then (Some (Errorf ''parse url''), [])
      else let rq = \<lparr>ho_url = url, ho_headers = [(''Content-Type'', ''application/json'')], ho_body = encode_alert_fired evt\<rparr> in
        (case http_Do hc rq of
           Inl e \<Rightarrow> (Some e, [rq])
         | Inr status \<Rightarrow>
             (if status \<ge> 300 then Some (Errorf (''webhook returned HTTP '' @ itoa (int status))) else None, [rq])))"

text \<open>\<open>sendEmail\<close> is a log line.\<close>

definition sendEmail_stub :: "string \<Rightarrow> alert_fired \<Rightarrow> go_error option" where
  "sendEmail_stub to evt = None"

definition InsertOne :: "bool \<Rightarrow> 'd \<Rightarrow> 'd list \<Rightarrow> go_error option \<times> 'd list" where
  "InsertOne up doc col = (if up then (None, col @ [doc]) else (Some (Errorf ''mongo''), col))"

text \<open>The channel's outcome for an application, and the record saved; the error of saving it
  is logged.\<close>

definition deliver_channel :: "http_client \<Rightarrow> contact_app \<Rightarrow> alert_fired \<Rightarrow> go_error option \<times> http_out list" where
  "deliver_channel hc a evt =
     (if ct_NotificationChannel a = ''webhook'' then sendWebhook hc (ct_WebhookURL a) evt
      else if ct_NotificationChannel a = ''email'' then (sendEmail_stub (ct_NotificationEmail a) evt, [])
      else (None, []))"

definition delivery_record :: "notif_env \<Rightarrow> contact_app \<Rightarrow> alert_fired \<Rightarrow> go_error option \<Rightarrow> delivery_attempt" where
  "delivery_record env a evt err =
     \<lparr>nd_ID = stamp_id ''nd'' (ne_ns env), nd_RuleID = af_RuleID evt, nd_AppID = af_AppID evt,
      nd_Channel = ct_NotificationChannel a, nd_Recipient = [],
      nd_Status = (case err of Some _ \<Rightarrow> ''failed'' | None \<Rightarrow> ''delivered''),
      nd_Error = err,
      nd_Payload = evt, nd_SentAt = ne_now env\<rparr>"

definition Deliver ::
  "(string \<Rightarrow> bool) \<Rightarrow> notif_env \<Rightarrow> alert_fired \<Rightarrow> delivery_attempt list \<Rightarrow> go_error option \<times> http_out list \<times> delivery_attempt list" where
  "Deliver valid env evt col =
     (case contact_GetApp valid (af_AppID evt) (ne_rd env) of
        Inl _ \<Rightarrow> (Some (Errorf ''get app''), [], col)
      | Inr a \<Rightarrow>
          (case deliver_channel (ne_http env) a evt of
             (err, out) \<Rightarrow> (err, out, snd (InsertOne (ne_mongo_up env) (delivery_record env a evt err) col))))"

record notif_state =
  nt_step :: nat
  nt_sent :: "http_out list"
  nt_col :: "delivery_attempt list"

text \<open>The handler of \<open>Run\<close>'s consume loop; the \<open>n\<close>-th message meets \<open>env n\<close>.\<close>

definition notify_handler :: "(string \<Rightarrow> bool) \<Rightarrow> (nat \<Rightarrow> notif_env) \<Rightarrow> notif_state handler" where
  "notify_handler valid env key value s =
     (case Option.bind value decode_alert_fired of
        None \<Rightarrow> (None, s\<lparr>nt_step := Suc (nt_step s)\<rparr>)
      | Some evt \<Rightarrow>
          (case Deliver valid (env (nt_step s)) evt (nt_col s) of
             (err, out, col) \<Rightarrow> (err, \<lparr>nt_step = Suc (nt_step s), nt_sent = nt_sent s @ out, nt_col = col\<rparr>)))"

definition notification_Health :: response where
  "notification_Health = service_health ''notification''"

section \<open>The messages read back\<close>

lemma wf_alert_fired_fields: "wf_fields (alert_fired_fields e)"
  unfolding wf_fields_def alert_fired_fields_def by (simp add: to_lower_def to_lower_char_def)

lemma to_time_vals: "parse_rfc3339 s = Some t \<Longrightarrow> to_time z (vals_of (Some (fstr s))) = Some t"
  by (simp add: vals_of_def)

lemma alert_fired_roundtrip:
  "parse_rfc3339 (format_rfc3339 (af_FiredAt e)) = Some (af_FiredAt e) \<Longrightarrow>
   decode_alert_fired (encode_alert_fired e) = Some e"
  unfolding decode_alert_fired_def encode_alert_fired_def
  by (simp add: jobj_def jvals_obj_fields [OF wf_alert_fired_fields])
    (simp add: alert_fired_fields_def wire_simps to_time_vals)

section \<open>The engine\<close>

text \<open>A rule whose condition is one the engine knows fires when its threshold is crossed: one
  message, keyed with the application, and the stamp.\<close>

lemma engine_fires:
  assumes "QueryMetricValue (en_row env) (ar_AppID rule) (ar_MetricName rule) (ar_WindowMins rule) = Inr v"
    "compare v (ar_Condition rule) (ar_Threshold rule)" "en_ack env = None"
  obtains e where "engine_evaluate valid topic env rule (p, sd) =
      (None, p\<lparr>pr_out := pr_out p @ [(topic, ar_AppID rule, encode_alert_fired e)]\<rparr>,
       snd (UpdateAlertLastFired valid (ar_ID rule) (en_now env) sd))"
    "af_RuleID e = ar_ID rule" "af_Value e = v" "af_FiredAt e = en_now env"
  using assms by (simp add: engine_evaluate_def PublishJSON_def PublishSync_def Let_def)

lemma compare_condition_ok: "condition_ok op \<Longrightarrow> \<not> compare v op t"
  by (auto simp: condition_ok_def compare_def)

lemma engine_evaluate_silent:
  "condition_ok (ar_Condition rule) \<Longrightarrow> snd (engine_evaluate valid topic env rule st) = st"
  by (simp add: engine_evaluate_def compare_condition_ok split: sum.split)

lemma evaluate_rules_silent:
  "list_all (\<lambda>r. condition_ok (ar_Condition r)) rules \<Longrightarrow> evaluate_rules valid topic env i rules st = st"
  by (induction rules arbitrary: i) (simp_all add: engine_evaluate_silent)

lemma EvaluateAll_silent:
  assumes "wf_mgmt (sd_db rd)"
  shows "snd (EvaluateAll valid topic env rd st) = st"
proof -
  have "list_all (\<lambda>r. condition_ok (ar_Condition r)) rules" if "ListActiveAlerts valid rd = Inr rules" for rules
    using assms that
    by (auto simp: ListActiveAlerts_def typed_read_def ListAlertRules_def select_def wf_mgmt_def list_all_iff
        split: if_splits)
  then show ?thesis by (simp add: EvaluateAll_def evaluate_rules_silent split: sum.split)
qed

text \<open>The event rate has a placeholder too many, and a metric the engine does not know has the
  value 0.\<close>

lemma event_rate_fails:
  "binds_law row \<Longrightarrow> \<exists>e. QueryMetricValue row a ''event_rate'' w = Inl e"
proof -
  have "2 < length (filter (\<lambda>c. c = CHR ''?'') (metricSQL ''event_rate''))" by code_simp
  then show "binds_law row \<Longrightarrow> ?thesis" by (auto simp: binds_law_def QueryMetricValue_def Let_def)
qed

lemma unknown_metric_is_zero: "QueryMetricValue row a ''dau'' w = Inr 0"
  by (simp add: QueryMetricValue_def metricSQL_def Let_def)

text \<open>With ids that are UUIDs no run gets as far as the rules.\<close>

lemma engine_lists_nothing:
  assumes "uuid_law valid"
  shows "EvaluateAll valid topic env rd st = (Some (Errorf ''list alerts''), st)"
proof -
  have "\<not> valid []" using assms by (auto simp: uuid_law_def)
  then show ?thesis by (simp add: EvaluateAll_def ListActiveAlerts_def typed_read_def)
qed

section \<open>Properties\<close>

text \<open>C20: No alert is ever fired: the conditions the table admits are words, those the engine
  compares with are symbols, so whatever requests the query API has handled and whatever
  ClickHouse answers, the scheduler's runs publish nothing and stamp nothing.\<close>

theorem alert_engine_never_fires:
  assumes "wf_mgmt (sd_db sd)"
    and "list_all (\<lambda>(env, rd). \<exists>rs. rd = foldl (\<lambda>sd (now, r, rq, rd). snd (service_request J cfg now valid' r rq rd sd)) sd rs) ticks"
  shows "scheduler_runs valid topic ticks st = st"
proof -
  have "wf_mgmt (sd_db (foldl (\<lambda>sd (now, r, rq, rd). snd (service_request J cfg now valid' r rq rd sd)) sd rs))" for rs
    using assms(1) by (rule service_run_wf)
  then have "list_all (\<lambda>(env, rd). wf_mgmt (sd_db rd)) ticks"
    using assms(2) by (auto simp: list_all_iff)
  then show ?thesis by (induction ticks arbitrary: st) (auto simp: EvaluateAll_silent)
qed

theorem alert_engine_never_fires_witness:
  "scheduler_runs hex32 ''t'' [(\<lambda>i. \<lparr>en_row = \<lambda>sql a w. Inr 5, en_ack = None, en_now = 0\<rparr>,
       foldl (\<lambda>sd (now, r, rq, rd). snd (service_request demo_jwt demo_cfg now hex32 r rq rd sd))
         \<lparr>sd_db = demo_db, sd_fired = [], sd_computed = []\<rparr> [])] (\<lparr>pr_out = []\<rparr>, \<lparr>sd_db = demo_db, sd_fired = [], sd_computed = []\<rparr>)
   = (\<lparr>pr_out = []\<rparr>, \<lparr>sd_db = demo_db, sd_fired = [], sd_computed = []\<rparr>)"
proof (rule alert_engine_never_fires [where sd = "\<lparr>sd_db = demo_db, sd_fired = [], sd_computed = []\<rparr>"
      and J = demo_jwt and cfg = demo_cfg and valid' = hex32])
  show "wf_mgmt (sd_db \<lparr>sd_db = demo_db, sd_fired = [], sd_computed = []\<rparr>)"
    using demo_db_wf by (simp add: wf_mgmt_def demo_db_def empty_db_def)
qed (simp only: list.pred_inject prod.case, blast)

section \<open>Deliveries\<close>

text \<open>The webhook is called once, and what is recorded is whether it accepted.\<close>

lemma webhook_recorded:
  assumes "ct_NotificationChannel a = ''webhook''" "ct_WebhookURL a \<noteq> []" "valid_url hc (ct_WebhookURL a)"
    "deliver_channel hc a evt = (err, out)"
  shows "\<exists>rq. out = [rq] \<and> ho_url rq = ct_WebhookURL a \<and> ho_body rq = encode_alert_fired evt
    \<and> (nd_Status (delivery_record env a evt err) = ''delivered'' \<longleftrightarrow> (\<exists>st < 300. http_Do hc rq = Inr st))"
  using assms by (auto simp: deliver_channel_def sendWebhook_def delivery_record_def Let_def split: sum.splits if_splits)

lemma Deliver_silent:
  "Deliver valid env evt col = (err, out, col') \<Longrightarrow>
   out = [] \<and> (\<exists>ds. col' = col @ ds \<and> list_all (\<lambda>d. nd_Channel d = [] \<and> nd_Status d = ''delivered'') ds)"
  by (auto simp: Deliver_def contact_GetApp_def deliver_channel_def delivery_record_def InsertOne_def
      split: sum.splits if_splits)

lemma notify_handler_silent:
  "nt_sent (snd (notify_handler valid env k v s)) = nt_sent s
   \<and> (\<exists>ds. nt_col (snd (notify_handler valid env k v s)) = nt_col s @ ds
        \<and> list_all (\<lambda>d. nd_Channel d = [] \<and> nd_Status d = ''delivered'') ds)"
  by (auto simp: notify_handler_def split: option.split prod.split dest: Deliver_silent)

lemma notify_records_silent:
  "nt_sent (run_records (notify_handler valid env) rs s) = nt_sent s
   \<and> (\<exists>ds. nt_col (run_records (notify_handler valid env) rs s) = nt_col s @ ds
        \<and> list_all (\<lambda>d. nd_Channel d = [] \<and> nd_Status d = ''delivered'') ds)"
proof (induction rs arbitrary: s)
  case (Cons r rs)
  let ?s = "snd (notify_handler valid env (kr_key r) (kr_value r) s)"
  obtain ds where ds: "nt_sent ?s = nt_sent s" "nt_col ?s = nt_col s @ ds"
    "list_all (\<lambda>d. nd_Channel d = [] \<and> nd_Status d = ''delivered'') ds"
    using notify_handler_silent by blast
  obtain ds' where "nt_sent (run_records (notify_handler valid env) rs ?s) = nt_sent ?s"
    "nt_col (run_records (notify_handler valid env) rs ?s) = nt_col ?s @ ds'"
    "list_all (\<lambda>d. nd_Channel d = [] \<and> nd_Status d = ''delivered'') ds'"
    using Cons.IH [of ?s] by blast
  with ds show ?case by (intro conjI exI [of _ "ds @ ds'"]) simp_all
qed simp

text \<open>C27: No notification is ever sent: whatever is on the topic, whatever the applications and
  the receivers are, the consume loop makes no request, and every delivery it records has no
  channel and the status of one that went through.\<close>

theorem notifications_never_sent:
  "nt_sent (snd (ConsumeLoop (notify_handler valid env) polls c s)) = nt_sent s
   \<and> (\<exists>ds. nt_col (snd (ConsumeLoop (notify_handler valid env) polls c s)) = nt_col s @ ds
        \<and> list_all (\<lambda>d. nd_Channel d = [] \<and> nd_Status d = ''delivered'') ds)"
  by (simp add: ConsumeLoop_records notify_records_silent)

text \<open>The message of a fired rule for a known application is recorded as delivered with the
  rule's values, however the applications's owner wants to be told.\<close>

lemma fired_message_recorded:
  assumes "parse_rfc3339 (format_rfc3339 (af_FiredAt e)) = Some (af_FiredAt e)"
    "valid (af_AppID e)" "GetApp (sd_db (ne_rd (env (nt_step s)))) (af_AppID e) = Inr a" "ne_mongo_up (env (nt_step s))"
  obtains d where "nt_col (snd (notify_handler valid env k (Some (encode_alert_fired e)) s)) = nt_col s @ [d]"
    "nd_Payload d = e" "nd_Status d = ''delivered''"
  using assms
  by (simp add: notify_handler_def alert_fired_roundtrip Deliver_def contact_GetApp_def typed_read_def
      deliver_channel_def delivery_record_def InsertOne_def)

end
