(* ===== verification/LayeredAuth.thy ===== *)
theory LayeredAuth
  imports Auth
begin

text \<open>
  The module \<open>auth/\<close>: registration, tokens and key rotation in a service layer over the
  packages modelled in the theories \<open>Auth\<close> and \<open>Postgres\<close>, whose copies the module
  uses.  An error of the service is answered by its handler, whatever its cause.  The state
  is Redis and the database; one instant \<open>now\<close> stands for the clock readings of a
  request, fresh ids and random bytes are arguments.
\<close>

section \<open>The service layer\<close>

definition RegisterOrgApp ::
  "jwt_lib \<Rightarrow> auth_config \<Rightarrow> int \<Rightarrow> string \<times> string \<times> string \<Rightarrow> string \<Rightarrow> string \<Rightarrow> string \<Rightarrow> pg_client \<Rightarrow>
   (go_error + string \<times> string \<times> string \<times> string) \<times> pg_client" where
  "RegisterOrgApp J cfg now ids orgName appName email pg =
     (case CreateOrgAndApp (pg_write pg) (fst ids) (fst (snd ids)) (snd (snd ids)) now orgName appName email of
        ((orgID, appID, apiKey, Some e), db) \<Rightarrow> (Inl e, pg\<lparr>pg_write := db\<rparr>)
      | ((orgID, appID, apiKey, None), db) \<Rightarrow>
          (case GenerateToken J cfg now orgID appID ''admin'' of
             Inl e \<Rightarrow> (Inl e, pg\<lparr>pg_write := db\<rparr>)
           | Inr token \<Rightarrow> (Inr (orgID, appID, apiKey, token), pg\<lparr>pg_write := db\<rparr>)))"

definition ExchangeAPIKey ::
  "('s, json) redis \<Rightarrow> jwt_lib \<Rightarrow> auth_config \<Rightarrow> int \<Rightarrow> string \<Rightarrow> 's \<times> pg_client \<Rightarrow>
   (go_error + string \<times> app) \<times> 's \<times> pg_client" where
  "ExchangeAPIKey R J cfg now apiKey st =
     (case ValidateAPIKey R cfg now apiKey st of
        (Inl e, st') \<Rightarrow> (Inl e, st')
      | (Inr a, st') \<Rightarrow>
          (case GenerateToken J cfg now (app_OrgID a) (app_ID a) ''admin'' of
             Inl e \<Rightarrow> (Inl e, st')
           | Inr token \<Rightarrow> (Inr (token, a), st')))"

definition RefreshToken :: "jwt_lib \<Rightarrow> auth_config \<Rightarrow> int \<Rightarrow> string \<Rightarrow> go_error + string \<times> claims" where
  "RefreshToken J cfg now tokenStr =
     (case ValidateToken J cfg now tokenStr of
        Inl e \<Rightarrow> Inl e
      | Inr c \<Rightarrow>
          (case GenerateToken J cfg now (cl_OrgID c) (cl_AppID c) (cl_Role c) of
             Inl e \<Rightarrow> Inl e
           | Inr newToken \<Rightarrow> Inr (newToken, c)))"

text \<open>The cache entry deleted is the one of the new key.\<close>

definition RotateKey ::
  "('s, json) redis \<Rightarrow> int \<Rightarrow> nat list option \<Rightarrow> string \<Rightarrow> 's \<times> pg_client \<Rightarrow> (go_error + string) \<times> 's \<times> pg_client" where
  "RotateKey R now rnd appID st =
     (case generateAPIKey rnd of
        Inl e \<Rightarrow> (Inl (Errorf ''generate key''), st)
      | Inr newKey \<Rightarrow>
          (case RotateAPIKey (pg_write (snd st)) appID newKey of
             (Some e, db) \<Rightarrow> (Inl (Errorf ''rotate key''), fst st, (snd st)\<lparr>pg_write := db\<rparr>)
           | (None, db) \<Rightarrow>
               (Inr newKey, snd (redis_Del R (fst st) now (auth_cache_key newKey)), (snd st)\<lparr>pg_write := db\<rparr>)))"

section \<open>The handlers\<close>

text \<open>The time a token issued now expires, as it is announced.\<close>

definition expires_text :: "(int \<Rightarrow> string) \<Rightarrow> auth_config \<Rightarrow> int \<Rightarrow> string" where
  "expires_text rfc3339 cfg now = rfc3339 (now + ac_JWTExpiry cfg)"

definition Auth_Health :: response where
  "Auth_Health = writeJSON 200 (jmap [(''status'', ''ok''), (''service'', ''auth'')])"

definition Auth_Register ::
  "jwt_lib \<Rightarrow> auth_config \<Rightarrow> (int \<Rightarrow> string) \<Rightarrow> int \<Rightarrow> string \<times> string \<times> string \<Rightarrow> request \<Rightarrow> pg_client \<Rightarrow> response \<times> pg_client" where
  "Auth_Register J cfg rfc3339 now ids r pg =
     (case (body_string (rq_body r) ''org_name'', body_string (rq_body r) ''app_name'', body_string (rq_body r) ''email'') of
        (Some orgName, Some appName, Some email) \<Rightarrow>
          if orgName = [] \<or> email = [] then (writeError 400 ''org_name and email are required'', pg)
          else (case RegisterOrgApp J cfg now ids orgName (if appName = [] then orgName @ '' App'' else appName) email pg of
              (Inl _, pg') \<Rightarrow> (writeError 500 ''registration failed'', pg')
            | (Inr (orgID, appID, apiKey, token), pg') \<Rightarrow>
                (writeJSON 201 (jmap [(''org_id'', orgID), (''app_id'', appID), (''api_key'', apiKey),
                   (''token'', token), (''expires'', expires_text rfc3339 cfg now)]), pg'))
      | _ \<Rightarrow> (writeError 400 ''org_name and email are required'', pg))"

definition Auth_Token ::
  "('s, json) redis \<Rightarrow> jwt_lib \<Rightarrow> auth_config \<Rightarrow> (int \<Rightarrow> string) \<Rightarrow> int \<Rightarrow> request \<Rightarrow> 's \<times> pg_client \<Rightarrow> response \<times> 's \<times> pg_client" where
  "Auth_Token R J cfg rfc3339 now r st =
     (case body_string (rq_body r) ''api_key'' of
        None \<Rightarrow> (writeError 400 ''api_key required'', st)
      | Some k \<Rightarrow>
          if k = [] then (writeError 400 ''api_key required'', st)
          else (case ExchangeAPIKey R J cfg now k st of
              (Inl _, st') \<Rightarrow> (writeError 401 ''invalid api_key'', st')
            | (Inr (token, a), st') \<Rightarrow>
                (writeJSON 200 (jmap [(''token'', token), (''org_id'', app_OrgID a), (''app_id'', app_ID a),
                   (''expires'', expires_text rfc3339 cfg now)]), st')))"

definition Auth_Refresh :: "jwt_lib \<Rightarrow> auth_config \<Rightarrow> (int \<Rightarrow> string) \<Rightarrow> int \<Rightarrow> request \<Rightarrow> response" where
  "Auth_Refresh J cfg rfc3339 now r =
     (let tokenStr = extractBearer r in
      if tokenStr = [] then writeError 401 ''missing Bearer token''
      else (case RefreshToken J cfg now tokenStr of
          Inl _ \<Rightarrow> writeError 401 ''invalid or expired token''
        | Inr (newToken, c) \<Rightarrow> writeJSON 200 (jmap [(''token'', newToken), (''org_id'', cl_OrgID c),
            (''app_id'', cl_AppID c), (''expires'', expires_text rfc3339 cfg now)])))"

definition Auth_Validate :: "jwt_lib \<Rightarrow> auth_config \<Rightarrow> (int \<Rightarrow> string) \<Rightarrow> int \<Rightarrow> request \<Rightarrow> response" where
  "Auth_Validate J cfg rfc3339 now r =
     (case ValidateToken J cfg now (extractBearer r) of
        Inl _ \<Rightarrow> writeError 401 ''invalid token''
      | Inr c \<Rightarrow> writeJSON 200 (JObj [(''valid'', JBool True), (''org_id'', JStr (cl_OrgID c)),
          (''app_id'', JStr (cl_AppID c)), (''role'', JStr (cl_Role c)),
          (''expires'', JStr (rfc3339 (cl_ExpiresAt c * 1000000000)))]))"

definition Auth_RotateAPIKey ::
  "('s, json) redis \<Rightarrow> int \<Rightarrow> nat list option \<Rightarrow> request \<Rightarrow> 's \<times> pg_client \<Rightarrow> response \<times> 's \<times> pg_client" where
  "Auth_RotateAPIKey R now rnd r st =
     (case body_string (rq_body r) ''app_id'' of
        None \<Rightarrow> (writeError 400 ''app_id required'', st)
      | Some appID \<Rightarrow>
          if appID = [] then (writeError 400 ''app_id required'', st)
          else (case RotateKey R now rnd appID st of
              (Inl _, st') \<Rightarrow> (writeError 500 ''rotation failed'', st')
            | (Inr newKey, st') \<Rightarrow> (writeJSON 200 (jmap [(''app_id'', appID), (''api_key'', newKey)]), st')))"

text \<open>The routes of \<open>main\<close>: the last two are behind the token middleware, which reads the
  clock once more before (\<open>t0\<close>).\<close>

datatype auth_route =
    ARegister "string \<times> string \<times> string" | AToken | ARefresh | AValidate | ARotate "nat list option"

fun auth_handle ::
  "('s, json) redis \<Rightarrow> jwt_lib \<Rightarrow> auth_config \<Rightarrow> (int \<Rightarrow> string) \<Rightarrow> int \<Rightarrow> int \<Rightarrow> auth_route \<Rightarrow> request \<Rightarrow> 's \<times> pg_client \<Rightarrow>
   response \<times> 's \<times> pg_client" where
  "auth_handle R J cfg f t0 now (ARegister ids) rq st =
     (case Auth_Register J cfg f now ids rq (snd st) of (resp, pg) \<Rightarrow> (resp, fst st, pg))"
| "auth_handle R J cfg f t0 now AToken rq st = Auth_Token R J cfg f now rq st"
| "auth_handle R J cfg f t0 now ARefresh rq st = (Auth_Refresh J cfg f now rq, st)"
| "auth_handle R J cfg f t0 now AValidate rq st =
     (case JWTMiddleware J cfg t0 rq of Answer resp \<Rightarrow> (resp, st) | Pass c \<Rightarrow> (Auth_Validate J cfg f now rq, st))"
| "auth_handle R J cfg f t0 now (ARotate rnd) rq st =
     (case JWTMiddleware J cfg t0 rq of Answer resp \<Rightarrow> (resp, st) | Pass c \<Rightarrow> Auth_RotateAPIKey R now rnd rq st)"

section \<open>Lemmas\<close>

text \<open>Deleting a key leaves the others alone.\<close>

definition redis_del_law :: "('s, 'v) redis \<Rightarrow> bool" where
  "redis_del_law R \<longleftrightarrow> (\<forall>s now k e s' t j. raw_Del R s now k = (e, s') \<longrightarrow> now \<le> t \<longrightarrow> j \<noteq> k \<longrightarrow>
     raw_Get R s' t j = raw_Get R s t j)"

lemma mem_redis_del: "redis_del_law (mem_redis :: ('v mem, 'v) redis)"
  by (auto simp: redis_del_law_def mem_redis_def mem_get_def)

lemma auth_cache_key_inject [simp]: "auth_cache_key k = auth_cache_key k' \<longleftrightarrow> k = k'"
  by (simp add: auth_cache_key_def)

text \<open>A registration writes one organisation and one application, both new.\<close>

lemma register_creates:
  assumes "CreateOrgAndApp db i1 i2 i3 now on an em = ((oid, aid, key, None), db')"
  shows "oid = i1" "aid = i2" "key = ''pk_live_'' @ take 32 i3" "db_up db'" "aid \<notin> app_ID ` set (t_apps db)"
    "key \<notin> app_APIKey ` set (t_apps db)"
    "t_apps db' = t_apps db @ [\<lparr>app_ID = aid, app_OrgID = oid, app_Name = an, app_APIKey = key,
       app_RPS = 10000, app_Burst = 50000, app_Active = True, app_CreatedAt = now\<rparr>]"
  using assms by (auto simp: CreateOrgAndApp_def app_insertable_def Let_def split: if_splits)

lemma GetAppByAPIKey_new:
  assumes "db_up db'" "t_apps db' = t_apps db @ [a]" "app_APIKey a = key" "app_Active a" "key \<notin> app_APIKey ` set (t_apps db)"
  shows "GetAppByAPIKey db' key = Inr a"
proof -
  have "filter (\<lambda>a. app_APIKey a = key \<and> app_Active a) (t_apps db) = []"
    using assms(5) by (auto simp: filter_empty_conv)
  then show ?thesis using assms(1-4) by (simp add: GetAppByAPIKey_def select_row_def)
qed

section \<open>Properties\<close>

text \<open>C21: What registration hands out works: with no replica, the API key of an answered
  registration validates to a new active application of the new organisation, and its token
  passes the token middleware as administrator of that application until it expires.\<close>

theorem registration_usable:
  assumes "jwt_laws J" "pg_reads pg = []"
    and "RegisterOrgApp J cfg t0 ids orgName appName email pg = (Inr (orgID, appID, apiKey, token), pg')"
    and "redis_GetJSON R decode_app_model s t (auth_cache_key apiKey) = Inl e"
    and "t < (t0 + ac_JWTExpiry cfg) div 1000000000 * 1000000000"
  shows "appID \<notin> app_ID ` set (t_apps (pg_write pg))
    \<and> (\<exists>a. fst (ValidateAPIKey R cfg t apiKey (s, pg')) = Inr a \<and> app_ID a = appID \<and> app_OrgID a = orgID
         \<and> app_Active a \<and> app_Name a = appName)
    \<and> (\<exists>c. JWTMiddleware J cfg t (bearer token r) = Pass c
         \<and> (cl_OrgID c, cl_AppID c, cl_Role c) = (orgID, appID, ''admin''))"
proof -
  obtain db' where reg: "CreateOrgAndApp (pg_write pg) (fst ids) (fst (snd ids)) (snd (snd ids)) t0 orgName appName email
      = ((orgID, appID, apiKey, None), db')" "pg' = pg\<lparr>pg_write := db'\<rparr>"
    and tok: "GenerateToken J cfg t0 orgID appID ''admin'' = Inr token"
    using assms(3) by (auto simp: RegisterOrgApp_def split: prod.splits option.splits sum.splits)
  note new = register_creates [OF reg(1)]
  have "pg_read pg' = (db', pg')" using assms(2) reg(2) by (simp add: pg_read_def)
  then have "fst (ValidateAPIKey R cfg t apiKey (s, pg')) = GetAppByAPIKey db' apiKey"
    using assms(4) GetAppByAPIKey_new [OF new(4,7) _ _ new(6)] by (simp add: ValidateAPIKey_def)
  moreover have "cut_prefix (rq_header (bearer token r) ''Authorization'') ''Bearer '' = Some token"
    using cut_prefix_append [of "''Bearer ''" token] by (simp add: bearer_def)
  then have "JWTMiddleware J cfg t (bearer token r) = Pass \<lparr>cl_OrgID = orgID, cl_AppID = appID, cl_Role = ''admin'',
      cl_ExpiresAt = (t0 + ac_JWTExpiry cfg) div 1000000000, cl_IssuedAt = t0 div 1000000000, cl_Issuer = ''pulse-analytics''\<rparr>"
    using ValidateToken_generated [OF assms(1) tok, of t] assms(5) by (simp add: JWTMiddleware_def)
  ultimately show ?thesis
    using GetAppByAPIKey_new [OF new(4,7) _ _ new(6)] new(5) by simp
qed

theorem registration_usable_witness:
  "\<exists>c. JWTMiddleware demo_jwt demo_cfg 5 (bearer ''ts'' blank_request) = Pass c \<and> cl_AppID c = ''b''"
proof -
  let ?pg = "\<lparr>pg_write = empty_db, pg_reads = [], pg_rr = 0\<rparr>"
  have reg: "RegisterOrgApp demo_jwt demo_cfg 0 (''o'', ''b'', ''k'') ''Org'' ''App'' ''e'' ?pg
    = (Inr (''o'', ''b'', ''pk_live_k'', ''ts''), ?pg\<lparr>pg_write := snd (CreateOrgAndApp empty_db ''o'' ''b'' ''k'' 0 ''Org'' ''App'' ''e'')\<rparr>)"
    by (simp add: RegisterOrgApp_def CreateOrgAndApp_def empty_db_def org_insertable_def app_insertable_def plan_ok_def
        demo_token Let_def)
  have cold: "redis_GetJSON mem_redis decode_app_model mem_empty 5 (auth_cache_key ''pk_live_k'') = Inl ErrNotFound"
    by (simp add: redis_GetJSON_def mem_redis_def mem_get_def mem_empty_def)
  have "5 < (0 + ac_JWTExpiry demo_cfg) div 1000000000 * 1000000000" by (simp add: demo_cfg_def)
  from registration_usable [OF demo_jwt_laws _ reg cold this, of blank_request] show ?thesis by auto
qed

text \<open>C30: Rotation does not end the old key: the entry it deletes is that of the new key, which
  cannot be cached, so a key in the cache stays valid after the rotation the module reports
  as done, for as long as the entry lives.\<close>

theorem rotated_key_still_valid:
  assumes "redis_del_law R" "now \<le> t"
    and "RotateKey R now rnd appID (s, pg) = (Inr newKey, s', pg')" "oldKey \<noteq> newKey"
    and "redis_GetJSON R decode_app_model s t (auth_cache_key oldKey) = Inr a" "app_Active a"
  shows "fst (ValidateAPIKey R cfg t oldKey (s', pg')) = Inr a"
proof -
  obtain e where "raw_Del R s now (auth_cache_key newKey) = (e, s')"
    using assms(3) by (cases "raw_Del R s now (auth_cache_key newKey)")
      (auto simp: RotateKey_def redis_Del_def split: sum.splits prod.splits option.splits)
  then have "raw_Get R s' t (auth_cache_key oldKey) = raw_Get R s t (auth_cache_key oldKey)"
    using assms(1,2,4) unfolding redis_del_law_def by (metis auth_cache_key_inject)
  then have "redis_GetJSON R decode_app_model s' t (auth_cache_key oldKey) = Inr a"
    using assms(5) by (simp add: redis_GetJSON_def)
  with assms(6) show ?thesis by (simp add: ValidateAPIKey_cached)
qed

theorem rotated_key_still_valid_witness:
  "\<exists>s' pg'. RotateKey mem_redis 5 (Some [255]) ''a'' (snd (redis_SetJSON mem_redis encode_app_model mem_empty 0
       (auth_cache_key ''old'') demo_app 300), demo_pg) = (Inr ''pk_live_ff'', s', pg')
     \<and> fst (ValidateAPIKey mem_redis demo_cfg 299 ''old'' (s', pg')) = Inr demo_app"
proof -
  let ?s = "snd (redis_SetJSON mem_redis encode_app_model mem_empty 0 (auth_cache_key ''old'') demo_app 300)"
  have key: "generateAPIKey (Some [255]) = Inr ''pk_live_ff''" by code_simp
  have "\<exists>db. RotateAPIKey (pg_write demo_pg) ''a'' ''pk_live_ff'' = (None, db)"
    by (simp add: RotateAPIKey_def exec_def demo_pg_def demo_db_def empty_db_def demo_app_def)
  then obtain s' pg' where r: "RotateKey mem_redis 5 (Some [255]) ''a'' (?s, demo_pg) = (Inr ''pk_live_ff'', s', pg')"
    using key by (auto simp: RotateKey_def)
  have up: "\<forall>s t k v ttl. fst (raw_Set (mem_redis :: (json mem, json) redis) s t k v ttl) = None"
    by (simp add: mem_redis_def)
  have wf: "wf_app demo_app" by (simp add: wf_app_def demo_app_def in_i64_def)
  have "redis_GetJSON mem_redis decode_app_model ?s 299 (auth_cache_key ''old'') = Inr demo_app"
    using SetJSON_cached [OF mem_redis_kv up wf, of 0 299 300] by simp
  from rotated_key_still_valid [OF mem_redis_del _ r _ this, of demo_cfg] r show ?thesis
    by (simp add: demo_app_def)
qed

text \<open>The cache can hold what is not valid: an entry whose application is switched off is
  refused, but by the entry, not by the row.\<close>

lemma validate_by_entry:
  assumes "redis_GetJSON R decode_app_model s t (auth_cache_key k) = Inr a"
  shows "ValidateAPIKey R cfg t k (s, pg) = (if app_Active a then Inr a else Inl ErrInvalidAPIKey, s, pg)"
  using assms by (simp add: ValidateAPIKey_def)

text \<open>A failing signer makes a good API key look like a bad one.\<close>

lemma token_error_is_401:
  assumes "body_string (rq_body r) ''api_key'' = Some k" "k \<noteq> []" "fst (ValidateAPIKey R cfg now k st) = Inr a"
    "GenerateToken J cfg now (app_OrgID a) (app_ID a) ''admin'' = Inl e"
  shows "rs_status (fst (Auth_Token R J cfg f now r st)) = 401"
  using assms by (cases "ValidateAPIKey R cfg now k st") (simp add: Auth_Token_def ExchangeAPIKey_def)

end
