(* ===== verification/Ingest.thy ===== *)
theory Ingest
  imports LayeredGateway Auth
begin

text \<open>
  The ingest routes of \<open>cmd/gateway\<close> and of the module \<open>gateway/\<close>: the API-key
  middleware with its cache and rate limiter in front of the handlers.  The two servers mount
  different handlers (\<open>cmd_handlers\<close>, \<open>module_handlers\<close>); what their routes promise
  needs of a handler only that it publishes for the application it is given, the locale
  \<open>ingest_interface\<close>.
\<close>

section \<open>The routes\<close>

record 'b ingest_handlers =
  ih_events :: "gateway_env \<Rightarrow> int \<Rightarrow> app \<Rightarrow> ingest_request \<Rightarrow> 'b gateway \<Rightarrow> response \<times> 'b gateway"
  ih_identify :: "gateway_env \<Rightarrow> int \<Rightarrow> app \<Rightarrow> json option \<Rightarrow> 'b gateway \<Rightarrow> response \<times> 'b gateway"
  ih_track :: "gateway_env \<Rightarrow> int \<Rightarrow> app \<Rightarrow> json option \<Rightarrow> 'b gateway \<Rightarrow> response \<times> 'b gateway"

definition cmd_handlers :: "'b bloom_lib \<Rightarrow> 'b ingest_handlers" where
  "cmd_handlers BL = \<lparr>ih_events = handleIngest BL, ih_identify = handleIdentify,
     ih_track = (\<lambda>env now a body gw. case handleTrack env now a body (gw_producer gw) of
        (resp, p) \<Rightarrow> (resp, gw\<lparr>gw_producer := p\<rparr>))\<rparr>"

definition module_handlers :: "'b bloom_lib \<Rightarrow> 'b ingest_handlers" where
  "module_handlers BL = \<lparr>ih_events = HandleIngest BL, ih_identify = HandleIdentify, ih_track = HandleTrack\<rparr>"

datatype ingest_call = PostEvents ingest_request | PostIdentify "json option" | PostTrack "json option"

record ('s, 'l, 'b) ingest_api =
  ia_auth :: "'s \<times> pg_client"
  ia_limiter :: "'l limiter option"
  ia_gateway :: "'b gateway"

text \<open>A request with what it meets: the clock in nanoseconds, the limiter's Redis, the ids.\<close>

record ingest_turn =
  it_env :: gateway_env
  it_now :: int
  it_reachable :: bool
  it_request :: request
  it_call :: ingest_call

definition ingest_route ::
  "'b ingest_handlers \<Rightarrow> ('s, json) redis \<Rightarrow> 'l rate_lib \<Rightarrow> auth_config \<Rightarrow> ingest_turn \<Rightarrow> ('s, 'l, 'b) ingest_api \<Rightarrow>
   response \<times> ('s, 'l, 'b) ingest_api" where
  "ingest_route H R RL cfg t st =
     (case APIKeyMiddleware R RL (it_reachable t) cfg (it_now t) (it_request t) (ia_auth st) (ia_limiter st) of
        (Answer resp, au, l) \<Rightarrow> (resp, st\<lparr>ia_auth := au, ia_limiter := l\<rparr>)
      | (Pass a, au, l) \<Rightarrow>
          (case (case it_call t of
              PostEvents r \<Rightarrow> ih_events H (it_env t) (it_now t div 1000000) a r (ia_gateway st)
            | PostIdentify body \<Rightarrow> ih_identify H (it_env t) (it_now t div 1000000) a body (ia_gateway st)
            | PostTrack body \<Rightarrow> ih_track H (it_env t) (it_now t div 1000000) a body (ia_gateway st)) of
             (resp, gw) \<Rightarrow> (resp, st\<lparr>ia_auth := au, ia_limiter := l, ia_gateway := gw\<rparr>)))"

fun ingest_routes ::
  "'b ingest_handlers \<Rightarrow> ('s, json) redis \<Rightarrow> 'l rate_lib \<Rightarrow> auth_config \<Rightarrow> ingest_turn list \<Rightarrow> ('s, 'l, 'b) ingest_api \<Rightarrow>
   ('s, 'l, 'b) ingest_api" where
  "ingest_routes H R RL cfg [] st = st"
| "ingest_routes H R RL cfg (t # ts) st = ingest_routes H R RL cfg ts (snd (ingest_route H R RL cfg t st))"

abbreviation api_out :: "('s, 'l, 'b) ingest_api \<Rightarrow> (string \<times> string \<times> json) list" where
  "api_out st \<equiv> pr_out (gw_producer (ia_gateway st))"

section \<open>The key cache\<close>

text \<open>What the cache holds under a key is an application with that key, from \<open>from\<close> on.\<close>

definition cache_sound :: "('s, json) redis \<Rightarrow> 's \<Rightarrow> int \<Rightarrow> bool" where
  "cache_sound R s from \<longleftrightarrow> (\<forall>t k a. from \<le> t \<longrightarrow>
     redis_GetJSON R decode_app_model s t (auth_cache_key k) = Inr a \<longrightarrow> app_APIKey a = k)"

lemma cache_sound_later: "cache_sound R s from \<Longrightarrow> from \<le> t \<Longrightarrow> cache_sound R s t"
  by (auto simp: cache_sound_def intro: order_trans)

lemma decode_app_key:
  "decode_app_model (JObj m) = Some b \<Longrightarrow> to_string [] (jvals ''api_key'' m) = Some (app_APIKey b)"
  unfolding decode_app_model_def jobj_def by (auto simp: bind_eq_Some_conv)

lemma app_model_key:
  assumes "encode_app_model a = Some v" "decode_app_model v = Some b"
  shows "app_APIKey b = app_APIKey a"
proof -
  have v: "v = JObj (obj_fields (app_model_fields a))" using assms(1) by (simp add: encode_app_model_def)
  have "to_string [] (jvals ''api_key'' (obj_fields (app_model_fields a))) = Some (app_APIKey a)"
    unfolding jvals_obj_fields [OF wf_app_model_fields] by (simp add: app_model_fields_def wire_simps)
  with decode_app_key [OF assms(2) [unfolded v]] show ?thesis by simp
qed

lemma GetAppByAPIKey_key: "GetAppByAPIKey db k = Inr a \<Longrightarrow> app_APIKey a = k \<and> app_Active a"
  unfolding GetAppByAPIKey_def select_row_def
  by (auto split: if_splits dest!: hd_in_set)

lemma SetJSON_sound:
  assumes "redis_kv R" "redis_up R" "cache_sound R s t" "app_APIKey a = k"
  shows "cache_sound R (snd (redis_SetJSON R encode_app_model s t (auth_cache_key k) a ttl)) t"
proof -
  obtain v where v: "encode_app_model a = Some v" by (simp add: encode_app_model_def)
  obtain s' where s': "raw_Set R s t (auth_cache_key k) v ttl = (None, s')"
    using assms(2) by (metis prod.collapse redis_up_def)
  have get: "raw_Get R s' u j = (if j = auth_cache_key k then if u < t + ttl then Inr v else Inl ErrNotFound
      else raw_Get R s u j)" if "t \<le> u" for u j
    by (rule redis_kv_get [OF assms(1) s' that])
  have "app_APIKey b = j" if u: "t \<le> u" "redis_GetJSON R decode_app_model s' u (auth_cache_key j) = Inr b" for u j b
  proof (cases "j = k")
    case True
    then have "decode_app_model v = Some b"
      using u(2) get [OF u(1)] by (auto simp: redis_GetJSON_def split: if_splits option.splits)
    from app_model_key [OF v this] True assms(4) show ?thesis by simp
  next
    case False
    then have "redis_GetJSON R decode_app_model s u (auth_cache_key j) = Inr b"
      using u(2) get [OF u(1)] by (simp add: redis_GetJSON_def auth_cache_key_def)
    with assms(3) u(1) show ?thesis unfolding cache_sound_def by blast
  qed
  then show ?thesis using v s' by (simp add: redis_SetJSON_def cache_sound_def)
qed

lemma ValidateAPIKey_sound:
  assumes "redis_kv R" "redis_up R" "cache_sound R (fst st) t" "ValidateAPIKey R cfg t k st = (r, st')"
  shows "cache_sound R (fst st') t" "r = Inr a \<Longrightarrow> app_APIKey a = k \<and> app_Active a"
proof -
  obtain s pg where st: "st = (s, pg)" by (cases st)
  obtain db pg1 where pg: "pg_read pg = (db, pg1)" by (cases "pg_read pg")
  have "cache_sound R (fst st') t \<and> (\<forall>a. r = Inr a \<longrightarrow> app_APIKey a = k \<and> app_Active a)"
  proof (cases "redis_GetJSON R decode_app_model s t (auth_cache_key k)")
    case (Inr a)
    then have "app_APIKey a = k" using assms(3) unfolding cache_sound_def st by auto
    with Inr show ?thesis using assms(3,4) by (auto simp: st ValidateAPIKey_def split: if_splits)
  next
    case (Inl e)
    show ?thesis
    proof (cases "GetAppByAPIKey db k")
      case (Inl e')
      with \<open>redis_GetJSON _ _ _ _ _ = Inl e\<close> show ?thesis
        using assms(3,4) by (auto simp: st ValidateAPIKey_def pg)
    next
      case (Inr a)
      note key = GetAppByAPIKey_key [OF Inr]
      from SetJSON_sound [OF assms(1,2) _ key [THEN conjunct1], of s t] assms(3)
      show ?thesis using Inr Inl assms(4) key by (auto simp: st ValidateAPIKey_def pg)
    qed
  qed
  then show "cache_sound R (fst st') t" "r = Inr a \<Longrightarrow> app_APIKey a = k \<and> app_Active a" by blast+
qed

lemma middleware_sound:
  assumes "redis_kv R" "redis_up R" "cache_sound R (fst st) now" "APIKeyMiddleware R RL reachable cfg now rq st l = (g, st', l')"
  shows "cache_sound R (fst st') now" "g = Pass a \<Longrightarrow> app_APIKey a = rq_header rq ''X-API-Key'' \<and> app_Active a"
proof -
  obtain v st1 where v: "ValidateAPIKey R cfg now (rq_header rq ''X-API-Key'') st = (v, st1)"
    by (cases "ValidateAPIKey R cfg now (rq_header rq ''X-API-Key'') st")
  note val = ValidateAPIKey_sound [OF assms(1-3) v]
  have "cache_sound R (fst st') now \<and> (\<forall>a. g = Pass a \<longrightarrow> v = Inr a)"
    using assms(3,4) v val(1)
    by (auto simp: APIKeyMiddleware_def Let_def split: if_splits sum.splits option.splits prod.splits)
  with val(2) show "cache_sound R (fst st') now"
    "g = Pass a \<Longrightarrow> app_APIKey a = rq_header rq ''X-API-Key'' \<and> app_Active a" by blast+
qed

section \<open>The interface of the handlers\<close>

text \<open>A record for an application: on the raw topic, its key begins with the application's id,
  and its batch names the application.\<close>

definition own_record :: "gateway_env \<Rightarrow> app \<Rightarrow> string \<times> string \<times> json \<Rightarrow> bool" where
  "own_record env a d \<longleftrightarrow> (case d of (topic, key, j) \<Rightarrow>
     topic = tp_raw (ge_topics env) \<and> prefix (app_ID a) key
     \<and> (\<exists>b ip ts. encode_ingest b ip ts = Some j \<and> eb_AppID b = app_ID a))"

definition publishes_own :: "gateway_env \<Rightarrow> app \<Rightarrow> 'b gateway \<Rightarrow> 'b gateway \<Rightarrow> bool" where
  "publishes_own env a gw gw' \<longleftrightarrow>
     (\<exists>ds. pr_out (gw_producer gw') = pr_out (gw_producer gw) @ ds \<and> list_all (own_record env a) ds)"

fun in_time :: "int \<Rightarrow> ingest_turn list \<Rightarrow> bool" where
  "in_time from [] = True"
| "in_time from (t # ts) \<longleftrightarrow> from \<le> it_now t \<and> in_time (it_now t) ts"

text \<open>The record belongs to the key holder of one of the requests.\<close>

definition accounted :: "ingest_turn list \<Rightarrow> string \<times> string \<times> json \<Rightarrow> bool" where
  "accounted ts d \<longleftrightarrow> list_ex (\<lambda>t. \<exists>a. app_APIKey a = rq_header (it_request t) ''X-API-Key'' \<and> app_Active a
     \<and> own_record (it_env t) a d) ts"

locale ingest_interface =
  fixes H :: "'b ingest_handlers"
  assumes events_own: "publishes_own env a gw (snd (ih_events H env now a r gw))"
    and identify_own: "publishes_own env a gw (snd (ih_identify H env now a body gw))"
    and track_own: "publishes_own env a gw (snd (ih_track H env now a body gw))"
begin

lemma call_own:
  "publishes_own env a gw (snd (case c of
      PostEvents r \<Rightarrow> ih_events H env now a r gw
    | PostIdentify body \<Rightarrow> ih_identify H env now a body gw
    | PostTrack body \<Rightarrow> ih_track H env now a body gw))"
  by (cases c) (simp_all add: events_own identify_own track_own)

lemma route_own:
  assumes "redis_kv R" "redis_up R" "cache_sound R (fst (ia_auth st)) (it_now t)" "ingest_route H R RL cfg t st = (resp, st')"
  shows "cache_sound R (fst (ia_auth st')) (it_now t)
    \<and> (\<exists>ds. api_out st' = api_out st @ ds \<and> list_all (accounted [t]) ds)"
proof -
  obtain g au l where m: "APIKeyMiddleware R RL (it_reachable t) cfg (it_now t) (it_request t) (ia_auth st) (ia_limiter st)
      = (g, au, l)"
    by (cases "APIKeyMiddleware R RL (it_reachable t) cfg (it_now t) (it_request t) (ia_auth st) (ia_limiter st)") auto
  note sound = middleware_sound [OF assms(1-3) m]
  show ?thesis
  proof (cases g)
    case (Answer r)
    then show ?thesis using assms(4) m sound(1) by (auto simp: ingest_route_def)
  next
    case (Pass a)
    obtain gw where gw: "st' = st\<lparr>ia_auth := au, ia_limiter := l, ia_gateway := gw\<rparr>"
      "publishes_own (it_env t) a (ia_gateway st) gw"
      using assms(4) m Pass call_own [of "it_env t" a "ia_gateway st" "it_now t div 1000000" "it_call t"]
      by (auto simp: ingest_route_def split: prod.splits)
    then obtain ds where ds: "api_out st' = api_out st @ ds" "list_all (own_record (it_env t) a) ds"
      by (auto simp: publishes_own_def)
    have "list_all (accounted [t]) ds"
      using ds(2) sound(2) [OF Pass] by (auto simp: list_all_iff accounted_def)
    with ds(1) gw(1) sound(1) show ?thesis by auto
  qed
qed

lemma routes_accounted:
  assumes "redis_kv R" "redis_up R" "cache_sound R (fst (ia_auth st)) from" "in_time from ts"
  shows "\<exists>ds. api_out (ingest_routes H R RL cfg ts st) = api_out st @ ds \<and> list_all (accounted ts) ds"
  using assms(3,4)
proof (induction ts arbitrary: st "from")
  case (Cons t ts)
  obtain resp st1 where r: "ingest_route H R RL cfg t st = (resp, st1)" by (cases "ingest_route H R RL cfg t st")
  have "cache_sound R (fst (ia_auth st)) (it_now t)"
    using cache_sound_later [OF Cons.prems(1)] Cons.prems(2) by simp
  from route_own [OF assms(1,2) this r] obtain ds where
    ds: "cache_sound R (fst (ia_auth st1)) (it_now t)" "api_out st1 = api_out st @ ds" "list_all (accounted [t]) ds" by blast
  from Cons.IH [OF ds(1)] Cons.prems(2) obtain ds' where
    ds': "api_out (ingest_routes H R RL cfg ts st1) = api_out st1 @ ds'" "list_all (accounted ts) ds'" by auto
  have "list_all (accounted (t # ts)) (ds @ ds')"
    using ds(3) ds'(2) by (auto simp: list_all_iff accounted_def)
  with ds(2) ds'(1) r show ?case by auto
qed simp

end

section \<open>The two servers\<close>

lemma publishes_own_refl: "publishes_own env a gw gw"
  by (simp add: publishes_own_def)

lemma own_record_published:
  "prefix (app_ID a) key \<Longrightarrow> eb_AppID b = app_ID a \<Longrightarrow>
   own_record env a (tp_raw (ge_topics env), key, JObj (obj_fields (ingest_fields b ip ts)))"
  unfolding own_record_def encode_ingest_def by auto

lemmas own_simps = publishes_own_def PublishAsync_def encode_ingest_def own_record_published empty_batch_def
  Let_def

lemma handleIngest_own: "publishes_own env a gw (snd (handleIngest BL env now a r gw))"
  by (auto simp: handleIngest_def own_simps split: option.split prod.split)

lemma handleIdentify_own: "publishes_own env a gw (snd (handleIdentify env now a body gw))"
  by (auto simp: handleIdentify_def own_simps split: option.split prod.split)

lemma handleTrack_own:
  "publishes_own env a gw (gw\<lparr>gw_producer := snd (handleTrack env now a body (gw_producer gw))\<rparr>)"
  by (auto simp: handleTrack_def own_simps split: option.split prod.split)

interpretation cmd: ingest_interface "cmd_handlers BL"
  by unfold_locales (simp_all add: cmd_handlers_def handleIngest_own handleIdentify_own handleTrack_own split_def)

lemma ProcessBatch_own:
  assumes "ProcessBatch BL env now (app_ID a) dev ip es gw = (r, gw')"
  shows "publishes_own env a gw gw'"
  using assms by (auto simp: ProcessBatch_def own_simps split: prod.splits option.splits if_splits)

lemma gateway_archive_own: "publishes_own env a gw gw' \<Longrightarrow> publishes_own env a gw (gateway_archive w gw')"
  by (simp add: publishes_own_def gateway_archive_def)

lemma HandleIngest_own: "publishes_own env a gw (snd (HandleIngest BL env now a r gw))"
  unfolding HandleIngest_def Let_def
  by (auto simp: publishes_own_refl gateway_archive_own dest: ProcessBatch_own split: option.split prod.split sum.split)

lemma HandleIdentify_own: "publishes_own env a gw (snd (HandleIdentify env now a body gw))"
  by (auto simp: HandleIdentify_def PublishIdentify_def gateway_archive_def own_simps split: option.split prod.split)

lemma HandleTrack_own: "publishes_own env a gw (snd (HandleTrack env now a body gw))"
  by (auto simp: HandleTrack_def PublishTrack_def own_simps split: option.split prod.split)

interpretation module: ingest_interface "module_handlers BL"
  by unfold_locales (simp_all add: module_handlers_def HandleIngest_own HandleIdentify_own HandleTrack_own)

section \<open>Properties\<close>


lemma cache_sound_empty: "cache_sound mem_redis mem_empty from"
  by (simp add: cache_sound_def redis_GetJSON_def mem_redis_def mem_get_def mem_empty_def)

definition demo_turn :: ingest_turn where
  "demo_turn = \<lparr>it_env = demo_env, it_now = 1000000, it_reachable = True,
     it_request = blank_request\<lparr>rq_header := (\<lambda>_. [])(''X-API-Key'' := ''old'')\<rparr>, it_call = PostEvents demo_request\<rparr>"


text \<open>A request that is refused leaves the producer, the filter and the archive alone.\<close>

lemma refused_request_publishes_nothing:
  assumes "ingest_route H R RL cfg t st = (resp, st')"
    "APIKeyMiddleware R RL (it_reachable t) cfg (it_now t) (it_request t) (ia_auth st) (ia_limiter st) = (Answer a, au, l)"
  shows "ia_gateway st' = ia_gateway st" "resp = a"
  using assms by (auto simp: ingest_route_def)

end
