(* ===== verification/Profiles.thy ===== *)
theory Profiles
  imports Mongo
begin

text \<open>
  Package \<open>internal/mongo\<close>: user profiles.  The identify request hands the caller's traits
  to \<open>$set\<close>, where a name is a path.  What \<open>$set\<close> makes of one path is the parameter
  \<open>sp\<close> (\<open>None\<close> when the server refuses it); \<open>set_law\<close> states the documented case, a
  name without a dot or a dollar.  The server refuses an update whose paths overlap.
  Documents are association lists, instants in them are milliseconds.
\<close>

type_synonym doc = "(string \<times> json) list"

record profile_col =
  pc_up :: bool
  pc_unique :: bool
  pc_docs :: "doc list"

definition plain_name :: "string \<Rightarrow> bool" where
  "plain_name k \<longleftrightarrow> k \<noteq> [] \<and> k \<noteq> ''_id'' \<and> CHR ''.'' \<notin> set k \<and> hd k \<noteq> CHR ''$''"

type_synonym set_path = "string \<Rightarrow> json \<Rightarrow> doc \<Rightarrow> doc option"

definition set_law :: "set_path \<Rightarrow> bool" where
  "set_law sp \<longleftrightarrow> (\<forall>k v d. plain_name k \<longrightarrow> sp k v d = Some (al_set k v d))"

definition plain_set :: set_path where
  "plain_set k v d = (if plain_name k then Some (al_set k v d) else None)"

lemma plain_set_law: "set_law plain_set"
  by (simp add: set_law_def plain_set_def)

definition overlap :: "string \<Rightarrow> string \<Rightarrow> bool" where
  "overlap p q \<longleftrightarrow> p = q \<or> prefix (p @ ''.'') q \<or> prefix (q @ ''.'') p"

fun paths_ok :: "string list \<Rightarrow> bool" where
  "paths_ok [] = True"
| "paths_ok (p # ps) \<longleftrightarrow> \<not> list_ex (overlap p) ps \<and> paths_ok ps"

fun apply_sets :: "set_path \<Rightarrow> (string \<times> json) list \<Rightarrow> doc \<Rightarrow> doc option" where
  "apply_sets sp [] d = Some d"
| "apply_sets sp ((k, v) # kvs) d = Option.bind (sp k v d) (apply_sets sp kvs)"

text \<open>The filter of both methods, and the key of the unique index.\<close>

definition profile_key :: "doc \<Rightarrow> json option \<times> json option" where
  "profile_key d = (map_of d ''app_id'', map_of d ''user_id'')"

definition is_profile :: "string \<Rightarrow> string \<Rightarrow> doc \<Rightarrow> bool" where
  "is_profile appID userID d \<longleftrightarrow> profile_key d = (Some (JStr appID), Some (JStr userID))"

definition key_free :: "profile_col \<Rightarrow> doc \<Rightarrow> doc list \<Rightarrow> bool" where
  "key_free db d others \<longleftrightarrow> \<not> pc_unique db \<or> profile_key d \<notin> profile_key ` set others"

text \<open>The outcome of the update on the document it works on: \<open>others\<close> are the rest of the
  collection.\<close>

definition store_profile ::
  "profile_col \<Rightarrow> doc option \<Rightarrow> (doc \<Rightarrow> doc) \<Rightarrow> doc list \<Rightarrow> (doc \<Rightarrow> doc list) \<Rightarrow> go_error option \<times> profile_col" where
  "store_profile db d' stamp others put =
     (case d' of
        None \<Rightarrow> (Some (Errorf ''mongo''), db)
      | Some d \<Rightarrow>
          if key_free db (stamp d) others then (None, db\<lparr>pc_docs := put (stamp d)\<rparr>)
          else (Some (Errorf ''mongo''), db))"

definition stamp_updated :: "int \<Rightarrow> doc \<Rightarrow> doc" where
  "stamp_updated now d = al_set ''updated_at'' (JNum (of_int now)) d"

definition stamp_created :: "int \<Rightarrow> doc \<Rightarrow> doc" where
  "stamp_created now d = stamp_updated now (al_set ''created_at'' (JNum (of_int now)) d)"

text \<open>A nil map of traits makes \<open>$set\<close> a null, which is refused.  The first document that
  matches the filter is updated; without one, a document with the fields of the filter is.\<close>

definition UpsertUserProfile ::
  "set_path \<Rightarrow> string \<Rightarrow> string \<Rightarrow> props \<Rightarrow> int \<Rightarrow> profile_col \<Rightarrow> go_error option \<times> profile_col" where
  "UpsertUserProfile sp appID userID props now db =
     (case props of
        None \<Rightarrow> (Some (Errorf ''mongo''), db)
      | Some kvs \<Rightarrow>
          if \<not> pc_up db \<or> \<not> paths_ok (''created_at'' # ''updated_at'' # map fst kvs) then (Some (Errorf ''mongo''), db)
          else let before = takeWhile (\<lambda>d. \<not> is_profile appID userID d) (pc_docs db)
            in case dropWhile (\<lambda>d. \<not> is_profile appID userID d) (pc_docs db) of
                 d # after \<Rightarrow> store_profile db (apply_sets sp kvs d) (stamp_updated now) (before @ after) (\<lambda>d'. before @ d' # after)
               | [] \<Rightarrow> store_profile db (apply_sets sp kvs [(''app_id'', JStr appID), (''user_id'', JStr userID)])
                   (stamp_created now) (pc_docs db) (\<lambda>d'. pc_docs db @ [d']))"

text \<open>The collection is the one of the member that answers, which may lag behind the primary.\<close>

definition GetUserProfile :: "profile_col \<Rightarrow> string \<Rightarrow> string \<Rightarrow> go_error + doc" where
  "GetUserProfile db appID userID =
     (if \<not> pc_up db then Inl (Errorf ''mongo'')
      else case find (is_profile appID userID) (pc_docs db) of None \<Rightarrow> Inl ErrNotFound | Some d \<Rightarrow> Inr d)"

text \<open>The index of the profiles cannot be built over documents that share a key.\<close>

definition EnsureProfileIndex :: "profile_col \<Rightarrow> go_error option \<times> profile_col" where
  "EnsureProfileIndex db =
     (if pc_up db \<and> distinct (map profile_key (pc_docs db)) then (None, db\<lparr>pc_unique := True\<rparr>)
      else (Some (Errorf ''create user_profiles indexes''), db))"

text \<open>The gateway's writes to the profiles, in the order in which they reach the server.\<close>

fun profiles :: "set_path \<Rightarrow> (mongo_write \<times> int) list \<Rightarrow> profile_col \<Rightarrow> profile_col" where
  "profiles sp [] db = db"
| "profiles sp ((ProfileUpsert appID userID traits, now) # ws) db =
     profiles sp ws (snd (UpsertUserProfile sp appID userID traits now db))"
| "profiles sp ((RawBatch appID es, now) # ws) db = profiles sp ws db"

section \<open>Lemmas\<close>

lemma apply_sets_plain:
  assumes "set_law sp" "list_all plain_name (map fst kvs)" "distinct (map fst kvs)"
  shows "\<exists>d'. apply_sets sp kvs d = Some d' \<and> map_of d' = map_of d ++ map_of kvs"
  using assms(2,3)
proof (induction kvs arbitrary: d)
  case (Cons p kvs)
  obtain k v where p: "p = (k, v)" by (cases p)
  have "sp k v d = Some (al_set k v d)" using assms(1) Cons.prems(1) by (simp add: set_law_def p)
  moreover have "map_of kvs k = None" using Cons.prems(2) by (simp add: p map_of_eq_None_iff)
  then have "(map_of d)(k \<mapsto> v) ++ map_of kvs = map_of d ++ (map_of kvs)(k \<mapsto> v)"
    by (intro ext) (simp add: map_add_def split: option.split)
  moreover obtain d' where "apply_sets sp kvs (al_set k v d) = Some d'" "map_of d' = map_of (al_set k v d) ++ map_of kvs"
  proof -
    have "list_all plain_name (map fst kvs)" "distinct (map fst kvs)" using Cons.prems by (simp_all add: p)
    from Cons.IH [OF this, of "al_set k v d"] that show thesis by blast
  qed
  moreover have "map_of (p # kvs) = (map_of kvs)(k \<mapsto> v)" by (rule ext) (simp add: p)
  moreover have "map_of (al_set k v d) = (map_of d)(k \<mapsto> v)" by simp
  ultimately show ?case by (intro exI [of _ d']) (simp only: p apply_sets.simps bind.bind_lunit simp_thms)
qed simp

lemma profile_key_stamp [simp]:
  "profile_key (stamp_updated now d) = profile_key d" "profile_key (stamp_created now d) = profile_key d"
  by (simp_all add: profile_key_def stamp_updated_def stamp_created_def)

lemma find_split:
  assumes "dropWhile (\<lambda>d. \<not> P d) ds = d # rest"
  shows "ds = takeWhile (\<lambda>d. \<not> P d) ds @ d # rest" "P d"
  using takeWhile_dropWhile_id [of "\<lambda>d. \<not> P d" ds] hd_dropWhile [of "\<lambda>d. \<not> P d" ds] assms by auto

lemma find_before: "find P (takeWhile (\<lambda>d. \<not> P d) ds @ rest) = find P rest"
  by (induction ds) auto

lemma find_append: "find P (xs @ ys) = (case find P xs of None \<Rightarrow> find P ys | Some x \<Rightarrow> Some x)"
  by (induction xs) auto

lemma find_none_dropWhile: "dropWhile (\<lambda>d. \<not> P d) ds = [] \<Longrightarrow> find P ds = None"
  by (induction ds) (auto split: if_splits)

text \<open>A successful update stores one document: the one the filter found, or one made from the
  filter, with the paths applied.\<close>

lemma UpsertUserProfile_stores:
  assumes "UpsertUserProfile sp appID userID (Some kvs) now db = (None, db')"
  obtains pre post d d' stamp where
    "apply_sets sp kvs d = Some d'" "is_profile appID userID d" "find (is_profile appID userID) pre = None"
    "pc_docs db' = pre @ stamp d' # post" "pc_up db" "pc_up db'" "pc_unique db' = pc_unique db"
    "''created_at'' \<notin> fst ` set kvs" "''updated_at'' \<notin> fst ` set kvs"
    "pc_docs db = pre @ d # post \<and> stamp = stamp_updated now \<or> pc_docs db = pre \<and> post = [] \<and> stamp = stamp_created now"
    "key_free db (stamp d') (pre @ post)"
proof -
  let ?P = "is_profile appID userID"
  let ?pre = "takeWhile (\<lambda>d. \<not> ?P d) (pc_docs db)"
  have up: "pc_up db" "''created_at'' \<notin> fst ` set kvs" "''updated_at'' \<notin> fst ` set kvs"
    using assms by (auto simp: UpsertUserProfile_def list_ex_iff overlap_def split: if_splits)
  show thesis
  proof (cases "dropWhile (\<lambda>d. \<not> ?P d) (pc_docs db)")
    case Nil
    let ?d = "[(''app_id'', JStr appID), (''user_id'', JStr userID)]"
    have fresh: "is_profile appID userID ?d" by (simp add: is_profile_def profile_key_def)
    have "store_profile db (apply_sets sp kvs ?d) (stamp_created now) (pc_docs db) (\<lambda>d'. pc_docs db @ [d']) = (None, db')"
      using assms unfolding UpsertUserProfile_def Let_def Nil by (simp split: if_splits)
    then obtain d' where "apply_sets sp kvs ?d = Some d'" "key_free db (stamp_created now d') (pc_docs db)"
      "db' = db\<lparr>pc_docs := pc_docs db @ [stamp_created now d']\<rparr>"
      by (auto simp: store_profile_def split: option.splits if_splits)
    then show thesis
      using up find_none_dropWhile [OF Nil] fresh
      by (intro that [of ?d d' "pc_docs db" "stamp_created now" "[]"]) simp_all
  next
    case (Cons d rest)
    note split = find_split [OF Cons]
    have "store_profile db (apply_sets sp kvs d) (stamp_updated now) (?pre @ rest) (\<lambda>d'. ?pre @ d' # rest) = (None, db')"
      using assms Cons by (auto simp: UpsertUserProfile_def Let_def split: if_splits)
    then obtain d' where "apply_sets sp kvs d = Some d'" "key_free db (stamp_updated now d') (?pre @ rest)"
      "db' = db\<lparr>pc_docs := ?pre @ stamp_updated now d' # rest\<rparr>"
      by (auto simp: store_profile_def split: option.splits if_splits)
    then show thesis
      using up split find_before [of ?P "pc_docs db" "[]"]
      by (intro that [of d d' ?pre "stamp_updated now" rest]) simp_all
  qed
qed

section \<open>Properties\<close>

text \<open>Traits with ordinary names that leave the key alone are stored: after a successful
  upsert the profile, read from the primary, of that user has every trait, keeps its other fields, and no other user's
  profile, of whatever application, is affected.\<close>

theorem profile_keeps_traits:
  assumes "set_law sp" "list_all plain_name (map fst kvs)" "distinct (map fst kvs)"
    and "''app_id'' \<notin> fst ` set kvs" "''user_id'' \<notin> fst ` set kvs"
    and "UpsertUserProfile sp appID userID (Some kvs) now db = (None, db')"
  shows "(\<exists>d. GetUserProfile db' appID userID = Inr d \<and> map_of kvs \<subseteq>\<^sub>m map_of d)
    \<and> ((a, u) \<noteq> (appID, userID) \<longrightarrow> GetUserProfile db' a u = GetUserProfile db a u)"
proof -
  obtain pre post d d' stamp where st: "apply_sets sp kvs d = Some d'" "is_profile appID userID d" "find (is_profile appID userID) pre = None"
    "pc_docs db' = pre @ stamp d' # post" "pc_up db" "pc_up db'" "pc_unique db' = pc_unique db"
    "''created_at'' \<notin> fst ` set kvs" "''updated_at'' \<notin> fst ` set kvs"
    "pc_docs db = pre @ d # post \<and> stamp = stamp_updated now \<or> pc_docs db = pre \<and> post = [] \<and> stamp = stamp_created now"
    "key_free db (stamp d') (pre @ post)"
    by (rule UpsertUserProfile_stores [OF assms(6)])
  have m: "map_of d' = map_of d ++ map_of kvs"
    using apply_sets_plain [OF assms(1-3), of d] st(1) by simp
  have key: "profile_key (stamp d') = profile_key d"
    using st(10) assms(4,5) by (auto simp: m profile_key_def map_add_def map_of_eq_None_iff [symmetric]
        stamp_created_def stamp_updated_def)
  have "is_profile appID userID (stamp d')" using st(2) key by (simp add: is_profile_def)
  then have "GetUserProfile db' appID userID = Inr (stamp d')"
    using st(3,4,6) by (simp add: GetUserProfile_def find_append)
  moreover have "GetUserProfile db' a u = GetUserProfile db a u" if "(a, u) \<noteq> (appID, userID)"
  proof -
    have "\<not> is_profile a u d" "\<not> is_profile a u (stamp d')"
      using st(2) key that by (auto simp: is_profile_def)
    then show ?thesis using st(4-6,10) by (auto simp: GetUserProfile_def find_append split: option.split)
  qed
  moreover have "map_of kvs k = map_of (stamp d') k" if k: "k \<in> dom (map_of kvs)" for k
  proof -
    obtain v where v: "map_of kvs k = Some v" using k by blast
    then have "k \<noteq> ''created_at''" "k \<noteq> ''updated_at''" using st(8,9) by (auto dest!: map_of_SomeD intro: rev_image_eqI)
    then show ?thesis using st(10) v by (auto simp: m map_add_def stamp_created_def stamp_updated_def)
  qed
  then have "map_of kvs \<subseteq>\<^sub>m map_of (stamp d')" by (simp add: map_le_def)
  ultimately show ?thesis by blast
qed

definition demo_profiles :: profile_col where
  "demo_profiles = \<lparr>pc_up = True, pc_unique = True, pc_docs = [[(''app_id'', JStr ''a''), (''user_id'', JStr ''u''), (''plan'', JStr ''x'')]]\<rparr>"

theorem profile_keeps_traits_witness:
  "\<exists>d. GetUserProfile (snd (UpsertUserProfile plain_set ''a'' ''u'' (Some [(''plan'', JStr ''y'')]) 7 demo_profiles)) ''a'' ''u'' = Inr d
     \<and> map_of [(''plan'', JStr ''y'')] \<subseteq>\<^sub>m map_of d"
proof -
  have "fst (UpsertUserProfile plain_set ''a'' ''u'' (Some [(''plan'', JStr ''y'')]) 7 demo_profiles) = None" by code_simp
  then have u: "UpsertUserProfile plain_set ''a'' ''u'' (Some [(''plan'', JStr ''y'')]) 7 demo_profiles
      = (None, snd (UpsertUserProfile plain_set ''a'' ''u'' (Some [(''plan'', JStr ''y'')]) 7 demo_profiles))"
    by (metis prod.collapse)
  show ?thesis
    using profile_keeps_traits [OF plain_set_law _ _ _ _ u, of "[]" "[]"] by (simp add: plain_name_def)
qed

text \<open>A trait may rename the application.\<close>

lemma upsert_moves:
  assumes "set_law sp" "pc_up db" "GetUserProfile db a u = Inl ErrNotFound" "GetUserProfile db b u = Inl ErrNotFound"
  shows "\<exists>d. GetUserProfile (snd (UpsertUserProfile sp a u (Some [(''app_id'', JStr b)]) now db)) b u = Inr d"
proof -
  let ?d = "[(''app_id'', JStr b), (''user_id'', JStr u)]"
  have none: "find (is_profile a u) (pc_docs db) = None" "find (is_profile b u) (pc_docs db) = None"
    using assms(2-4) by (auto simp: GetUserProfile_def split: option.splits)
  then have drop: "dropWhile (\<lambda>d. \<not> is_profile a u d) (pc_docs db) = []"
    by (simp add: find_None_iff)
  have "sp ''app_id'' (JStr b) [(''app_id'', JStr a), (''user_id'', JStr u)] = Some ?d"
    using assms(1) by (simp add: set_law_def plain_name_def)
  moreover have "paths_ok [''created_at'', ''updated_at'', ''app_id'']" by code_simp
  moreover have key: "profile_key (stamp_created now ?d) = (Some (JStr b), Some (JStr u))"
    unfolding profile_key_stamp by (simp add: profile_key_def)
  then have "is_profile b u (stamp_created now ?d)" by (simp add: is_profile_def)
  moreover have "key_free db (stamp_created now ?d) (pc_docs db)"
    using none(2) unfolding key_free_def key find_None_iff is_profile_def by auto
  ultimately have "pc_docs (snd (UpsertUserProfile sp a u (Some [(''app_id'', JStr b)]) now db)) = pc_docs db @ [stamp_created now ?d]"
    "pc_up (snd (UpsertUserProfile sp a u (Some [(''app_id'', JStr b)]) now db))"
    using assms(2) unfolding UpsertUserProfile_def Let_def drop by (simp_all add: store_profile_def)
  then show ?thesis
    using none(2) \<open>is_profile b u _\<close> by (simp add: GetUserProfile_def find_append)
qed

definition identify_as :: "string \<Rightarrow> string \<Rightarrow> json" where
  "identify_as u b = JObj [(''user_id'', JStr u), (''traits'', JObj [(''app_id'', JStr b)])]"

text \<open>C38: Profiles are not kept apart: the traits of an identify request may name another
  application, and the profile the gateway stores for its own application ends up as one of the
  other, where a profile of that user was not known.\<close>

theorem identify_crosses_tenants:
  assumes "set_law sp" "pc_up db" "gw_mongo gw = Some ms"
    and "GetUserProfile db (app_ID a) u = Inl ErrNotFound" "GetUserProfile db b u = Inl ErrNotFound"
  shows "\<exists>gw' w. handleIdentify env now a (Some (identify_as u b)) gw = (status_only 202, gw')
    \<and> gw_mongo gw' = Some (ms @ [w]) \<and> (\<exists>d. GetUserProfile (profiles sp [(w, t)] db) b u = Inr d)"
proof -
  have "\<exists>gw'. handleIdentify env now a (Some (identify_as u b)) gw = (status_only 202, gw')
      \<and> gw_mongo gw' = Some (ms @ [ProfileUpsert (app_ID a) u (Some [(''app_id'', JStr b)])])"
    using assms(3) by (simp add: handleIdentify_def identify_as_def jobj_def jvals_def to_lower_def to_lower_char_def
        to_props_def to_map_def PublishAsync_def encode_ingest_def Let_def)
  moreover have "\<exists>d. GetUserProfile (profiles sp [(ProfileUpsert (app_ID a) u (Some [(''app_id'', JStr b)]), t)] db) b u = Inr d"
    using upsert_moves [OF assms(1,2,4,5)] by simp
  ultimately show ?thesis by blast
qed

theorem identify_crosses_tenants_witness:
  "\<exists>gw' w. handleIdentify demo_env 1 demo_app (Some (identify_as ''u'' ''b'')) (demo_gateway\<lparr>gw_mongo := Some []\<rparr>) = (status_only 202, gw')
     \<and> gw_mongo gw' = Some ([] @ [w]) \<and> (\<exists>d. GetUserProfile (profiles plain_set [(w, 2)] \<lparr>pc_up = True, pc_unique = True, pc_docs = []\<rparr>) ''b'' ''u'' = Inr d)"
  by (rule identify_crosses_tenants [OF plain_set_law]) (simp_all add: GetUserProfile_def)

text \<open>An identify without traits, or with a trait of the server's own fields, is acknowledged and
  the profile refused.\<close>

lemma upsert_refused:
  "fst (UpsertUserProfile sp a u None now db) \<noteq> None"
  "''created_at'' \<in> fst ` set kvs \<or> ''updated_at'' \<in> fst ` set kvs \<Longrightarrow> fst (UpsertUserProfile sp a u (Some kvs) now db) \<noteq> None"
  by (auto simp: UpsertUserProfile_def list_ex_iff overlap_def rev_image_eqI)

end
