(* ===== verification/Delivery.thy ===== *)
theory Delivery
  imports Pipeline
begin

text \<open>
  The life of a \<open>cmd/chwriter\<close> process: the consume loop, the sharded writer's goroutines,
  shutdown and crash, as steps over one partition of the session topic.  The writers are those
  of the theory \<open>Writer\<close>, the loop and the handler those of \<open>Kafka\<close> and \<open>Pipeline\<close>.
  A crash can come at any point; what ClickHouse has taken stays (\<open>dl_past\<close> holds the
  batches handed over by processes that are gone), and the next process starts behind the
  committed offset with empty writers.
\<close>

section \<open>The process\<close>

record delivery =
  dl_log :: "krecord list"
  dl_base :: "krecord list"
  dl_consumer :: consumer
  dl_writers :: sharded
  dl_past :: "(ch_event list \<times> bool) list"

definition fresh_consumer :: "krecord list \<Rightarrow> consumer" where
  "fresh_consumer rs = \<lparr>cn_polled = rs, cn_committed = rs, cn_processed = 0, cn_errors = 0\<rparr>"

definition batches :: "sharded \<Rightarrow> (ch_event list \<times> bool) list" where
  "batches ws = concat (map w_flushed ws)"

text \<open>A process that starts after \<open>ws\<close> were left behind.\<close>

definition restart :: "nat \<Rightarrow> sharded \<Rightarrow> delivery \<Rightarrow> delivery" where
  "restart bufSize ws d = d\<lparr>dl_base := cn_committed (dl_consumer d),
     dl_consumer := fresh_consumer (cn_committed (dl_consumer d)),
     dl_writers := map (\<lambda>_. NewWriter bufSize) ws, dl_past := dl_past d @ batches ws\<rparr>"

definition start :: "nat \<Rightarrow> nat \<Rightarrow> delivery" where
  "start shards bufSize = \<lparr>dl_log = [], dl_base = [], dl_consumer = fresh_consumer [],
     dl_writers = replicate shards (NewWriter bufSize), dl_past = []\<rparr>"

text \<open>The outcome of an insert is any; a shutdown cancels the loop, stops the writers and
  exits.\<close>

inductive delivery_step :: "(f64 \<Rightarrow> string) \<Rightarrow> nat \<Rightarrow> delivery \<Rightarrow> delivery \<Rightarrow> bool"
  for g :: "f64 \<Rightarrow> string" and bufSize :: nat where
  produced: "delivery_step g bufSize d (d\<lparr>dl_log := dl_log d @ [r]\<rparr>)"
| polled: "prefix (cn_polled (dl_consumer d) @ fetches) (dl_log d) \<Longrightarrow>
     consume_turn (chwriter_handle g) ok fetches (dl_consumer d) (Some (dl_writers d)) = (c, Some ws) \<Longrightarrow>
     delivery_step g bufSize d (d\<lparr>dl_consumer := c, dl_writers := ws\<rparr>)"
| received: "i < length (dl_writers d) \<Longrightarrow>
     delivery_step g bufSize d (d\<lparr>dl_writers := (dl_writers d)[i := loop_recv cl (dl_writers d ! i)]\<rparr>)"
| ticked: "i < length (dl_writers d) \<Longrightarrow>
     delivery_step g bufSize d (d\<lparr>dl_writers := (dl_writers d)[i := loop_tick cl (dl_writers d ! i)]\<rparr>)"
| crashed: "delivery_step g bufSize d (restart bufSize (dl_writers d) d)"
| stopped: "sharded_Stop cl (dl_writers d) = Some ws \<Longrightarrow> delivery_step g bufSize d (restart bufSize ws d)"

abbreviation delivery_run :: "(f64 \<Rightarrow> string) \<Rightarrow> nat \<Rightarrow> delivery \<Rightarrow> delivery \<Rightarrow> bool" where
  "delivery_run g bufSize \<equiv> (delivery_step g bufSize)\<^sup>*\<^sup>*"

section \<open>What becomes of the rows\<close>

fun rows_of :: "(f64 \<Rightarrow> string) \<Rightarrow> krecord list \<Rightarrow> ch_event list" where
  "rows_of g [] = []"
| "rows_of g (r # rs) = (case chwriter_row g (kr_value r) of None \<Rightarrow> rows_of g rs | Some e \<Rightarrow> e # rows_of g rs)"

text \<open>The rows ClickHouse has, and the rows a writer has accepted: handed over or still with it.\<close>

definition inserted :: "(ch_event list \<times> bool) list \<Rightarrow> ch_event list" where
  "inserted bs = concat (map fst (filter snd bs))"

definition stored :: "delivery \<Rightarrow> ch_event list" where
  "stored d = inserted (dl_past d @ batches (dl_writers d))"

definition held :: "writer \<Rightarrow> ch_event list" where
  "held w = flushed_events w @ w_buf w @ w_ch w"

definition all_held :: "sharded \<Rightarrow> ch_event multiset" where
  "all_held ws = sum_list (map (\<lambda>w. mset (held w)) ws)"

lemma rows_of_append [simp]: "rows_of g (rs @ rs') = rows_of g rs @ rows_of g rs'"
  by (induction rs) (auto split: option.split)

lemma inserted_append [simp]: "inserted (xs @ ys) = inserted xs @ inserted ys"
  by (simp add: inserted_def)

lemma all_held_update:
  "i < length ws \<Longrightarrow> all_held (ws[i := w]) + mset (held (ws ! i)) = all_held ws + mset (held w)"
proof (induction ws arbitrary: i)
  case (Cons v ws)
  then show ?case by (cases i) (simp_all add: all_held_def ac_simps)
qed simp

lemma dropped_update:
  "i < length ws \<Longrightarrow>
   sharded_DroppedTotal (ws[i := w]) + w_dropped (ws ! i) = sharded_DroppedTotal ws + w_dropped w"
proof (induction ws arbitrary: i)
  case (Cons v ws)
  then show ?case by (cases i) (simp_all add: sharded_DroppedTotal_def DroppedTotal_def)
qed simp

text \<open>A writer in service: not stopped, its channel within its buffer.\<close>

definition serving :: "nat \<Rightarrow> writer \<Rightarrow> bool" where
  "serving bufSize w \<longleftrightarrow> \<not> w_closed w \<and> w_bufSize w = bufSize \<and> length (w_ch w) \<le> bufSize"

lemma serving_New [simp]: "serving n (NewWriter n)" "held (NewWriter n) = []" "w_dropped (NewWriter n) = 0"
  "w_flushed (NewWriter n) = []"
  by (simp_all add: serving_def NewWriter_def held_def flushed_events_def)

lemma flush_if_held [simp]: "held (flush_if cl b w) = held w"
  using arg_cong [OF flush_if_keeps, of "\<lambda>es. es @ w_ch w" cl b w] by (simp add: held_def)

lemma recv_held:
  "held (loop_recv cl w) = held w" "w_dropped (loop_recv cl w) = w_dropped w"
  "serving n w \<Longrightarrow> serving n (loop_recv cl w)"
proof -
  have *: "held (loop_recv cl w) = held w \<and> w_dropped (loop_recv cl w) = w_dropped w
    \<and> (serving n w \<longrightarrow> serving n (loop_recv cl w))"
  proof (cases "w_ch w")
    case (Cons e es)
    define w1 where "w1 = w\<lparr>w_ch := es, w_pending := w_pending w - 1, w_buf := w_buf w @ [e]\<rparr>"
    define w2 where "w2 = drain (length es) w1"
    have r: "loop_recv cl w = flush_if cl (length (w_buf w2) \<ge> w_bufSize w2) w2"
      by (simp add: loop_recv_def Cons w1_def w2_def Let_def)
    have "flushed_events w2 = flushed_events w" by (simp add: w2_def w1_def flushed_events_def)
    moreover have "w_buf w2 @ w_ch w2 = w_buf w @ w_ch w" "length (w_ch w2) \<le> length es"
      using drain_keeps(1,2) [of "length es" w1] by (simp_all add: w2_def w1_def Cons)
    moreover have "w_closed w2 = w_closed w" "w_bufSize w2 = w_bufSize w" "w_dropped w2 = w_dropped w"
      by (simp_all add: w2_def w1_def)
    ultimately show ?thesis
      by (simp add: r) (simp add: held_def serving_def Cons)
  qed (simp add: loop_recv_def)
  show "held (loop_recv cl w) = held w" "w_dropped (loop_recv cl w) = w_dropped w"
    "serving n w \<Longrightarrow> serving n (loop_recv cl w)" using * by blast+
qed

lemma tick_held:
  "held (loop_tick cl w) = held w" "w_dropped (loop_tick cl w) = w_dropped w"
  "serving n w \<Longrightarrow> serving n (loop_tick cl w)"
  by (simp_all add: loop_tick_def serving_def)

lemma writer_Write_one:
  assumes "serving n w" "writer_Write [e] w = Some (err, w')"
  shows "serving n w' \<and> w_flushed w' = w_flushed w
    \<and> (mset (held w') = add_mset e (mset (held w)) \<and> w_dropped w' = w_dropped w
       \<or> held w' = held w \<and> w_dropped w' = w_dropped w + 1)"
  using assms by (auto simp: writer_Write_def serving_def held_def flushed_events_def split: if_splits)

text \<open>One row goes to one writer, which takes it or counts it as dropped.\<close>

lemma write_buckets_other:
  "shard_index n (ch_AppID e) < i \<Longrightarrow> write_buckets n i [e] ws = Some (None, ws)"
  by (induction ws arbitrary: i) (simp_all add: Let_def)

lemma write_buckets_one:
  assumes "write_buckets n i [e] ws = Some (err, ws')" "i \<le> shard_index n (ch_AppID e)"
    "shard_index n (ch_AppID e) < i + length ws"
  shows "\<exists>j err' w. j < length ws \<and> writer_Write [e] (ws ! j) = Some (err', w) \<and> ws' = ws[j := w]"
  using assms
proof (induction ws arbitrary: i err ws')
  case (Cons w ws)
  show ?case
  proof (cases "shard_index n (ch_AppID e) = i")
    case True
    then have other: "write_buckets n (Suc i) [e] ws = Some (None, ws)" by (intro write_buckets_other) simp
    obtain err' w' where w': "writer_Write [e] w = Some (err', w')"
      using Cons.prems(1) True by (cases "writer_Write [e] w") (auto simp: Let_def)
    then have "ws' = w' # ws" using Cons.prems(1) True other by (auto simp: Let_def split: if_splits)
    with w' show ?thesis by (intro exI [of _ 0]) simp
  next
    case False
    obtain err2 ws2 where ws2: "write_buckets n (Suc i) [e] ws = Some (err2, ws2)" "ws' = w # ws2"
      using Cons.prems(1) False by (auto simp: Let_def split: option.splits if_splits)
    have "Suc i \<le> shard_index n (ch_AppID e)" "shard_index n (ch_AppID e) < Suc i + length ws"
      using Cons.prems(2,3) False by simp_all
    from Cons.IH [OF ws2(1) this] obtain j err' v where
      "j < length ws" "writer_Write [e] (ws ! j) = Some (err', v)" "ws2 = ws[j := v]" by blast
    with ws2(2) show ?thesis by (intro exI [of _ "Suc j"]) simp
  qed
qed simp

lemma sharded_Write_one:
  assumes "sharded_Write [e] ws = Some (err, ws')" "ws \<noteq> []" "length ws < 2 ^ 64"
  shows "\<exists>j err' w. j < length ws \<and> writer_Write [e] (ws ! j) = Some (err', w) \<and> ws' = ws[j := w]"
proof (cases "length ws = 1")
  case True
  then obtain w where "ws = [w]" by (auto simp: length_Suc_conv)
  with assms(1) show ?thesis by (auto simp: sharded_Write_def)
next
  case False
  have "shard_index (length ws) (ch_AppID e) < length ws" using assms(2,3) by (intro shard_index_less) simp_all
  with assms(1) False show ?thesis by (intro write_buckets_one [of "length ws" 0 e ws err ws']) (simp_all add: sharded_Write_def)
qed

text \<open>The state of the writers of a process that has worked through \<open>rs\<close>.\<close>

definition accounts :: "nat \<Rightarrow> ch_event list \<Rightarrow> sharded \<Rightarrow> bool" where
  "accounts bufSize rows ws \<longleftrightarrow> list_all (serving bufSize) ws \<and> all_held ws \<subseteq># mset rows
     \<and> int (size (all_held ws)) + sharded_DroppedTotal ws = int (length rows)"

lemma accounts_write:
  assumes "accounts n rows ws" "sharded_Write [e] ws = Some (err, ws')" "ws \<noteq> []" "length ws < 2 ^ 64"
  shows "accounts n (rows @ [e]) ws' \<and> length ws' = length ws"
proof -
  obtain j err' w where w: "j < length ws" "writer_Write [e] (ws ! j) = Some (err', w)" "ws' = ws[j := w]"
    using sharded_Write_one [OF assms(2-4)] by blast
  have "serving n (ws ! j)" using assms(1) w(1) by (simp add: accounts_def list_all_length)
  note one = writer_Write_one [OF this w(2)]
  have serv: "list_all (serving n) ws'"
    using assms(1) one w(1,3) by (auto simp: accounts_def list_all_length nth_list_update)
  note up = all_held_update [OF w(1), of w] dropped_update [OF w(1), of w]
  have "all_held ws' \<subseteq># mset (rows @ [e]) \<and> int (size (all_held ws')) + sharded_DroppedTotal ws' = int (length (rows @ [e]))"
  proof (cases "held w = held (ws ! j) \<and> w_dropped w = w_dropped (ws ! j) + 1")
    case True
    then have "all_held ws' = all_held ws" "sharded_DroppedTotal ws' = sharded_DroppedTotal ws + 1"
      using up by (simp_all add: w(3))
    moreover have "mset rows \<subseteq># mset (rows @ [e])" by simp
    ultimately show ?thesis using assms(1) subset_mset.order_trans by (fastforce simp: accounts_def)
  next
    case False
    then have "mset (held w) = add_mset e (mset (held (ws ! j)))" "w_dropped w = w_dropped (ws ! j)" using one by auto
    then have "all_held ws' = add_mset e (all_held ws)" "sharded_DroppedTotal ws' = sharded_DroppedTotal ws"
      using up by (simp_all add: w(3))
    then show ?thesis using assms(1) by (simp add: accounts_def)
  qed
  with serv w(1,3) show ?thesis by (simp add: accounts_def)
qed

lemma chwriter_handle_cases:
  "chwriter_row g v = None \<Longrightarrow> chwriter_handle g k v sw = (None, sw)"
  "chwriter_row g v = Some e \<Longrightarrow> chwriter_handle g k v sw = (None, sw \<bind> (\<lambda>w. map_option snd (sharded_Write [e] w)))"
  by (simp_all add: chwriter_handle_def)

lemma run_records_panic: "run_records (chwriter_handle g) rs None = None"
  by (induction rs) (auto simp: chwriter_handle_def split: option.split)

lemma accounts_run:
  assumes "run_records (chwriter_handle g) rs (Some ws) = Some ws'" "accounts n rows ws" "ws \<noteq> []" "length ws < 2 ^ 64"
  shows "accounts n (rows @ rows_of g rs) ws' \<and> length ws' = length ws"
  using assms
proof (induction rs arbitrary: rows ws)
  case (Cons r rs)
  show ?case
  proof (cases "chwriter_row g (kr_value r)")
    case None
    with Cons.IH [of ws rows] Cons.prems show ?thesis by (simp add: chwriter_handle_cases)
  next
    case (Some e)
    obtain err ws1 where w: "sharded_Write [e] ws = Some (err, ws1)"
      using Cons.prems(1) Some run_records_panic by (cases "sharded_Write [e] ws") (auto simp: chwriter_handle_cases)
    note acc = accounts_write [OF Cons.prems(2) w Cons.prems(3,4)]
    have "run_records (chwriter_handle g) rs (Some ws1) = Some ws'"
      using Cons.prems(1) Some w by (simp add: chwriter_handle_cases)
    moreover have "ws1 \<noteq> []" "length ws1 < 2 ^ 64" using acc Cons.prems(3,4) by auto
    ultimately have "accounts n ((rows @ [e]) @ rows_of g rs) ws' \<and> length ws' = length ws1"
      by (intro Cons.IH) (use acc in simp_all)
    with acc show ?thesis by (simp add: Some)
  qed
qed simp

text \<open>Writers in service take a row or drop it; they do not panic.\<close>

lemma write_buckets_serving: "list_all (serving n) ws \<Longrightarrow> \<exists>r. write_buckets k i es ws = Some r"
proof (induction ws arbitrary: i)
  case (Cons w ws)
  then obtain r where "write_buckets k (Suc i) es ws = Some r" by fastforce
  with Cons.prems show ?case by (cases r) (simp add: Let_def writer_Write_def serving_def)
qed simp

lemma sharded_Write_serving: "list_all (serving n) ws \<Longrightarrow> \<exists>err ws'. sharded_Write es ws = Some (err, ws')"
proof (cases "length ws = 1")
  case True
  assume "list_all (serving n) ws"
  moreover obtain w where "ws = [w]" using True by (auto simp: length_Suc_conv)
  ultimately show ?thesis by (simp add: sharded_Write_def writer_Write_def serving_def)
next
  case False
  assume "list_all (serving n) ws"
  from write_buckets_serving [OF this, of "length ws" 0 es] False show ?thesis by (auto simp: sharded_Write_def)
qed

text \<open>Stopping hands everything over.\<close>

lemma run_closed_held:
  "held (run_closed cl w) = held w \<and> w_ch (run_closed cl w) = [] \<and> w_buf (run_closed cl w) = []"
proof (induction cl w rule: run_closed.induct)
  case (1 cl w)
  show ?case
  proof (cases "w_ch w = []")
    case True
    then show ?thesis
      by (subst (1 2 3) run_closed.simps) (simp add: loop_exit_def held_def doFlush_def flushed_events_def)
  next
    case False
    with 1 show ?thesis by (subst (1 2 3) run_closed.simps) (simp add: recv_held)
  qed
qed

lemma writer_Stop_serving:
  assumes "serving n w"
  obtains w' where "writer_Stop cl w = Some w'" "held w' = held w" "flushed_events w' = held w"
proof -
  let ?w = "w\<lparr>w_ticking := False, w_closed := True\<rparr>"
  have "held ?w = held w" by (simp add: held_def flushed_events_def)
  then show thesis
    using assms run_closed_held [of cl ?w] that [of "run_closed cl ?w"]
    by (auto simp: writer_Stop_def serving_def held_def)
qed

lemma all_held_Cons [simp]: "all_held (w # ws) = mset (held w) + all_held ws"
  by (simp add: all_held_def)

lemma batches_Cons [simp]: "batches [] = []" "batches (w # ws) = w_flushed w @ batches ws"
  by (simp_all add: batches_def)

lemma sharded_Stop_serving:
  "list_all (serving n) ws \<Longrightarrow>
   \<exists>ws'. sharded_Stop cl ws = Some ws' \<and> length ws' = length ws \<and> all_held ws' = all_held ws
     \<and> mset (concat (map fst (batches ws'))) = all_held ws"
proof (induction ws)
  case Nil
  then show ?case by (simp add: all_held_def)
next
  case (Cons w ws)
  then obtain ws' where ws': "sharded_Stop cl ws = Some ws'" "length ws' = length ws" "all_held ws' = all_held ws"
    "mset (concat (map fst (batches ws'))) = all_held ws" by auto
  have "serving n w" using Cons.prems by simp
  then obtain w' where "writer_Stop cl w = Some w'" "held w' = held w" "flushed_events w' = held w"
    by (rule writer_Stop_serving)
  with ws' show ?case by (simp add: flushed_events_def)
qed

lemma batches_held: "set (inserted (batches ws)) \<subseteq> set_mset (all_held ws)"
  by (induction ws) (auto simp: inserted_def held_def flushed_events_def)

section \<open>The invariant\<close>

definition delivery_inv :: "(f64 \<Rightarrow> string) \<Rightarrow> nat \<Rightarrow> nat \<Rightarrow> delivery \<Rightarrow> bool" where
  "delivery_inv g shards n d \<longleftrightarrow> length (dl_writers d) = shards
     \<and> prefix (dl_base d) (cn_committed (dl_consumer d)) \<and> prefix (cn_committed (dl_consumer d)) (cn_polled (dl_consumer d))
     \<and> prefix (cn_polled (dl_consumer d)) (dl_log d)
     \<and> (\<exists>rs. cn_polled (dl_consumer d) = dl_base d @ rs \<and> accounts n (rows_of g rs) (dl_writers d))"

lemma accounts_fresh: "accounts n [] (map (\<lambda>_. NewWriter n) ws)"
  by (induction ws) (auto simp: accounts_def all_held_def sharded_DroppedTotal_def DroppedTotal_def)

lemma inv_start: "delivery_inv g shards n (start shards n)"
  using accounts_fresh [of n "replicate shards (NewWriter n)"]
  by (simp add: delivery_inv_def start_def fresh_consumer_def map_replicate_const)

lemma inv_restart:
  assumes "delivery_inv g shards n d" "length ws = shards"
  shows "delivery_inv g shards n (restart n ws d)"
proof -
  have "prefix (cn_committed (dl_consumer d)) (dl_log d)"
    using assms(1) prefix_order.order_trans unfolding delivery_inv_def by blast
  then show ?thesis
    using assms(2) accounts_fresh [of n ws] by (simp add: delivery_inv_def restart_def fresh_consumer_def)
qed

lemma accounts_update:
  assumes "accounts n rows ws" "i < length ws" "held w = held (ws ! i)" "w_dropped w = w_dropped (ws ! i)"
    "serving n (ws ! i) \<Longrightarrow> serving n w"
  shows "accounts n rows (ws[i := w])"
proof -
  have "all_held (ws[i := w]) = all_held ws" "sharded_DroppedTotal (ws[i := w]) = sharded_DroppedTotal ws"
    using all_held_update [OF assms(2), of w] dropped_update [OF assms(2), of w] assms(3,4) by simp_all
  with assms(1,2,5) show ?thesis by (auto simp: accounts_def list_all_length nth_list_update)
qed

lemma inv_step:
  assumes "delivery_step g n d d'" "delivery_inv g shards n d" "0 < shards" "shards < 2 ^ 64"
  shows "delivery_inv g shards n d'"
  using assms
proof (induction rule: delivery_step.induct)
  case (produced d r)
  then show ?case by (auto simp: delivery_inv_def)
next
  case (polled d fetches ok c ws)
  obtain rs where rs: "cn_polled (dl_consumer d) = dl_base d @ rs" "accounts n (rows_of g rs) (dl_writers d)"
    using polled.prems(1) by (auto simp: delivery_inv_def)
  note turn = consume_turn_eq [of "chwriter_handle g" ok fetches "dl_consumer d" "Some (dl_writers d)", unfolded polled.hyps(2)]
  have "dl_writers d \<noteq> []" "length (dl_writers d) < 2 ^ 64" using polled.prems by (auto simp: delivery_inv_def)
  from accounts_run [OF _ rs(2) this, of g fetches ws] turn(1)
  have "accounts n (rows_of g (rs @ fetches)) ws \<and> length ws = length (dl_writers d)" by simp
  moreover have "cn_polled c = dl_base d @ rs @ fetches" using turn(2) rs(1) by simp
  moreover have "prefix (cn_committed (dl_consumer d)) (dl_base d @ rs @ fetches)"
    using polled.prems(1) rs(1) prefix_prefix [of "cn_committed (dl_consumer d)" "dl_base d @ rs" fetches]
    by (simp add: delivery_inv_def)
  ultimately show ?case
    using polled.prems(1) polled.hyps(1) turn(3) by (auto simp: delivery_inv_def rs(1) split: if_splits)
next
  case (received i d cl)
  then show ?case using accounts_update recv_held by (fastforce simp: delivery_inv_def)
next
  case (ticked i d cl)
  then show ?case using accounts_update tick_held by (fastforce simp: delivery_inv_def)
next
  case (crashed d)
  then show ?case by (intro inv_restart) (simp_all add: delivery_inv_def)
next
  case (stopped cl d ws)
  then have "list_all (serving n) (dl_writers d)" by (auto simp: delivery_inv_def accounts_def)
  from sharded_Stop_serving [OF this, of cl] stopped show ?case
    by (intro inv_restart) (auto simp: delivery_inv_def)
qed

lemma inv_run:
  assumes "delivery_run g n d d'" "delivery_inv g shards n d" "0 < shards" "shards < 2 ^ 64"
  shows "delivery_inv g shards n d'"
  using assms by (induction rule: rtranclp_induct) (auto intro: inv_step)

section \<open>The fate of a row\<close>

text \<open>After a restart behind \<open>rs\<close>, what is stored besides what was is of records after
  \<open>rs\<close>.\<close>

definition behind :: "(f64 \<Rightarrow> string) \<Rightarrow> krecord list \<Rightarrow> ch_event set \<Rightarrow> delivery \<Rightarrow> bool" where
  "behind g rs S d \<longleftrightarrow> prefix rs (dl_base d)
     \<and> set (inserted (dl_past d)) \<subseteq> S \<union> set (rows_of g (drop (length rs) (dl_log d)))"

lemma held_behind:
  assumes "delivery_inv g shards n d" "prefix rs (dl_base d)"
  shows "set_mset (all_held (dl_writers d)) \<subseteq> set (rows_of g (drop (length rs) (dl_log d)))"
proof -
  obtain fs where fs: "cn_polled (dl_consumer d) = dl_base d @ fs" "accounts n (rows_of g fs) (dl_writers d)"
    using assms(1) by (auto simp: delivery_inv_def)
  obtain xs where xs: "dl_base d = rs @ xs" using assms(2) by (auto simp: prefix_def)
  obtain ys where "dl_log d = (dl_base d @ fs) @ ys"
    using assms(1) fs(1) by (auto simp: delivery_inv_def prefix_def)
  then have "drop (length rs) (dl_log d) = xs @ fs @ ys" by (simp add: xs)
  moreover have "set_mset (all_held (dl_writers d)) \<subseteq> set (rows_of g fs)"
    using fs(2) set_mset_mono by (fastforce simp: accounts_def)
  ultimately show ?thesis by auto
qed

lemma behind_step:
  assumes "delivery_step g n d d'" "delivery_inv g shards n d" "behind g rs S d"
  shows "behind g rs S d'"
proof -
  have restarted: "behind g rs S (restart n ws d)"
    if ws: "set (inserted (batches ws)) \<subseteq> set_mset (all_held (dl_writers d))" for ws
  proof -
    have "prefix rs (cn_committed (dl_consumer d))"
      using assms(2,3) prefix_order.order_trans unfolding delivery_inv_def behind_def by blast
    moreover have "set (inserted (batches ws)) \<subseteq> set (rows_of g (drop (length rs) (dl_log d)))"
      using ws held_behind [OF assms(2)] assms(3) by (auto simp: behind_def)
    ultimately show ?thesis using assms(3) by (auto simp: behind_def restart_def)
  qed
  show ?thesis
    using assms
  proof (cases rule: delivery_step.cases)
    case (stopped cl ws)
    have "list_all (serving n) (dl_writers d)" using assms(2) by (auto simp: delivery_inv_def accounts_def)
    from sharded_Stop_serving [OF this, of cl] stopped(2)
    have "all_held ws = all_held (dl_writers d)" by auto
    with restarted [of ws] batches_held [of ws] stopped(1) show ?thesis by simp
  next
    case (crashed)
    with restarted [of "dl_writers d"] batches_held [of "dl_writers d"] show ?thesis by simp
  qed (use assms(3) in \<open>auto simp: behind_def\<close>)
qed

lemma behind_run:
  assumes "delivery_run g n d d'" "delivery_inv g shards n d" "behind g rs S d" "0 < shards" "shards < 2 ^ 64"
  shows "behind g rs S d'"
  using assms(1)
proof (induction rule: rtranclp_induct)
  case (step d1 d2)
  then show ?case using behind_step inv_run [OF step(1) assms(2,4,5)] by blast
qed (rule assms(3))

lemma behind_stored:
  assumes "delivery_inv g shards n d" "behind g rs S d"
  shows "set (stored d) \<subseteq> S \<union> set (rows_of g (drop (length rs) (dl_log d)))"
  using held_behind [OF assms(1)] batches_held [of "dl_writers d"] assms(2) by (auto simp: stored_def behind_def)

lemma subset_size_eq: "A \<subseteq># B \<Longrightarrow> size A = size B \<Longrightarrow> A = B"
  using mset_subset_size [of A B] by (auto simp: subset_mset.le_less)

lemma Write_one_batches:
  assumes "sharded_Write [e] ws = Some (err, ws')" "list_all (serving n) ws" "ws \<noteq> []" "length ws < 2 ^ 64"
  shows "batches ws' = batches ws"
proof -
  obtain j err' w where w: "j < length ws" "writer_Write [e] (ws ! j) = Some (err', w)" "ws' = ws[j := w]"
    using sharded_Write_one [OF assms(1,3,4)] by blast
  have "serving n (ws ! j)" using assms(2) w(1) by (simp add: list_all_length)
  then have "w_flushed w = w_flushed (ws ! j)" using writer_Write_one w(2) by blast
  then have "map w_flushed ws' = map w_flushed ws" using w(1,3) by (simp add: map_update list_update_same_conv)
  then show ?thesis by (simp add: batches_def)
qed

text \<open>Handling one record, committing it and crashing: the row stays with the writers.\<close>

lemma commit_and_crash:
  assumes "delivery_inv g shards n d" "0 < shards" "shards < 2 ^ 64" "cn_polled (dl_consumer d) = dl_log d"
    and "chwriter_row g (kr_value r) = Some e"
  obtains d' where "delivery_run g n d d'" "delivery_inv g shards n d'" "behind g (dl_log d @ [r]) (set (stored d)) d'"
    "cn_committed (dl_consumer d') = dl_log d @ [r]" "dl_log d' = dl_log d @ [r]"
proof -
  let ?h = "chwriter_handle g"
  define d1 where "d1 = d\<lparr>dl_log := dl_log d @ [r]\<rparr>"
  have ws0: "list_all (serving n) (dl_writers d)" "dl_writers d \<noteq> []" "length (dl_writers d) < 2 ^ 64"
    using assms(1-3) by (auto simp: delivery_inv_def accounts_def)
  obtain err ws where ws: "sharded_Write [e] (dl_writers d) = Some (err, ws)"
    using sharded_Write_serving [OF ws0(1)] by blast
  define c where "c = fst (consume_turn ?h True [r] (dl_consumer d1) (Some (dl_writers d1)))"
  have turn: "consume_turn ?h True [r] (dl_consumer d1) (Some (dl_writers d1)) = (c, Some ws)"
    using consume_turn_eq(1) [of ?h True "[r]" "dl_consumer d1" "Some (dl_writers d1)"] ws
    by (simp add: c_def prod_eq_iff d1_def chwriter_handle_cases(2) [OF assms(5)])
  have com: "cn_committed c = dl_log d @ [r]"
    using consume_turn_eq(3) [of ?h True "[r]" "dl_consumer d1" "Some (dl_writers d1)"] turn assms(4)
    by (simp add: d1_def)
  define d2 where "d2 = d1\<lparr>dl_consumer := c, dl_writers := ws\<rparr>"
  define d3 where "d3 = restart n ws d2"
  have "delivery_step g n d d1" unfolding d1_def by (rule produced)
  moreover have "delivery_step g n d1 d2"
    unfolding d2_def using assms(4) by (intro polled [OF _ turn]) (simp add: d1_def)
  moreover have "delivery_step g n d2 d3"
    using crashed [of g n d2] by (simp add: d3_def d2_def)
  ultimately have run: "delivery_run g n d d3" by (blast intro: converse_rtranclp_into_rtranclp)
  have "inserted (dl_past d3) = stored d"
    using Write_one_batches [OF ws ws0] by (simp add: d3_def d2_def d1_def restart_def stored_def)
  then show thesis
    using that [OF run inv_run [OF run assms(1-3)]] com
    by (simp add: behind_def d3_def d2_def d1_def restart_def fresh_consumer_def)
qed

section \<open>Properties\<close>

text \<open>C11: Within the life of a process every row is accounted for, in every reachable state, shutdowns
  and crashes before included: the rows of the records it has worked through are handed to
  ClickHouse, with a writer, or counted as dropped, and nothing else is, nor anything twice;
  a shutdown works, and when none was dropped, it has handed over each of them once.\<close>

theorem delivery_accounts:
  assumes "delivery_run g n (start shards n) d" "0 < shards" "shards < 2 ^ 64"
  shows "\<exists>rs ws. cn_polled (dl_consumer d) = dl_base d @ rs
    \<and> all_held (dl_writers d) \<subseteq># mset (rows_of g rs)
    \<and> int (size (all_held (dl_writers d))) + sharded_DroppedTotal (dl_writers d) = int (length (rows_of g rs))
    \<and> sharded_Stop cl (dl_writers d) = Some ws
    \<and> (sharded_DroppedTotal (dl_writers d) = 0 \<longrightarrow> mset (concat (map fst (batches ws))) = mset (rows_of g rs))"
proof -
  obtain rs where rs: "cn_polled (dl_consumer d) = dl_base d @ rs" "accounts n (rows_of g rs) (dl_writers d)"
    using inv_run [OF assms(1) inv_start assms(2,3)] by (auto simp: delivery_inv_def)
  obtain ws where ws: "sharded_Stop cl (dl_writers d) = Some ws"
    "mset (concat (map fst (batches ws))) = all_held (dl_writers d)"
    using sharded_Stop_serving rs(2) unfolding accounts_def by blast
  have "all_held (dl_writers d) = mset (rows_of g rs)"
    if "sharded_DroppedTotal (dl_writers d) = 0"
    using rs(2) that by (intro subset_size_eq) (simp_all add: accounts_def)
  with rs ws show ?thesis by (auto simp: accounts_def)
qed

theorem delivery_accounts_witness:
  "\<exists>rs ws. cn_polled (dl_consumer (start 2 5)) = dl_base (start 2 5) @ rs
     \<and> sharded_Stop (\<lambda>_. Inserted) (dl_writers (start 2 5)) = Some ws"
  using delivery_accounts [of "\<lambda>_. []" 5 2 "start 2 5" "\<lambda>_. Inserted"] by auto

text \<open>C4: Delivery to ClickHouse is not at least once: from every reachable state in which the
  consumer has caught up, the next event can be handled and its offset committed while its row
  is only with a writer; after a crash there, no process ever stores that row, whatever it does,
  unless a later record carries it again.\<close>

theorem committed_row_lost:
  assumes "delivery_run g n (start shards n) d" "0 < shards" "shards < 2 ^ 64"
    and "cn_polled (dl_consumer d) = dl_log d" "chwriter_row g (kr_value r) = Some e" "e \<notin> set (stored d)"
  shows "\<exists>d'. delivery_run g n d d' \<and> cn_committed (dl_consumer d') = dl_log d @ [r]
    \<and> (\<forall>d'' later. delivery_run g n d' d'' \<longrightarrow> dl_log d'' = dl_log d @ r # later \<longrightarrow>
         e \<notin> set (rows_of g later) \<longrightarrow> e \<notin> set (stored d''))"
proof -
  have inv: "delivery_inv g shards n d" by (rule inv_run [OF assms(1) inv_start assms(2,3)])
  obtain d' where d': "delivery_run g n d d'" "delivery_inv g shards n d'"
    "behind g (dl_log d @ [r]) (set (stored d)) d'" "cn_committed (dl_consumer d') = dl_log d @ [r]"
    by (rule commit_and_crash [OF inv assms(2-5)])
  have "e \<notin> set (stored d'')"
    if k: "delivery_run g n d' d''" "dl_log d'' = dl_log d @ r # later" "e \<notin> set (rows_of g later)" for d'' later
    using behind_stored [OF inv_run [OF k(1) d'(2) assms(2,3)] behind_run [OF k(1) d'(2,3) assms(2,3)]] k(2,3) assms(6)
    by auto
  with d'(1,4) show ?thesis by blast
qed

definition demo_record :: krecord where
  "demo_record = \<lparr>kr_topic = [], kr_partition = 0, kr_offset = 0, kr_key = [], kr_value = Some (JObj [])\<rparr>"

lemma demo_record_row: "\<exists>e. chwriter_row g (kr_value demo_record) = Some e"
  by (simp add: demo_record_def chwriter_row_def decode_enriched_def jobj_def jvals_def to_props_def to_map_def decode_ptr_def)

theorem committed_row_lost_witness:
  "\<exists>d' e. delivery_run (\<lambda>_. []) 5 (start 2 5) d'
     \<and> cn_committed (dl_consumer d') = [demo_record]
     \<and> (\<forall>d''. delivery_run (\<lambda>_. []) 5 d' d'' \<longrightarrow>
          dl_log d'' = [demo_record] \<longrightarrow> e \<notin> set (stored d''))"
proof -
  let ?r = "demo_record"
  obtain e where e: "chwriter_row (\<lambda>_. []) (kr_value ?r) = Some e" using demo_record_row by blast
  have "stored (start 2 5) = []" "cn_polled (dl_consumer (start 2 5)) = dl_log (start 2 5)"
    by (simp_all add: stored_def start_def batches_def inserted_def fresh_consumer_def)
  then have "\<exists>d'. delivery_run (\<lambda>_. []) 5 (start 2 5) d' \<and> cn_committed (dl_consumer d') = dl_log (start 2 5) @ [?r]
    \<and> (\<forall>d'' later. delivery_run (\<lambda>_. []) 5 d' d'' \<longrightarrow> dl_log d'' = dl_log (start 2 5) @ ?r # later \<longrightarrow>
         e \<notin> set (rows_of (\<lambda>_. []) later) \<longrightarrow> e \<notin> set (stored d''))"
    by (intro committed_row_lost [OF _ _ _ _ e, of 5 2]) simp_all
  then show ?thesis by (fastforce simp: start_def)
qed

section \<open>Shutdown\<close>

text \<open>\<open>main\<close> cancels the loop's context and stops the writers without waiting for the loop:
  a record that the loop is still handling then panics the process, with a send on a closed
  channel, and the offsets of its poll stay uncommitted.\<close>

lemma run_closed_stays_closed: "w_closed (run_closed cl w) = w_closed w"
proof (induction cl w rule: run_closed.induct)
  case (1 cl w)
  have "w_closed (loop_recv cl w) = w_closed w"
    by (auto simp: loop_recv_def Let_def split: list.split)
  with 1 show ?case
    by (subst run_closed.simps) (simp add: loop_exit_def doFlush_def)
qed

lemma sharded_Stop_closes: "sharded_Stop cl ws = Some ws' \<Longrightarrow> length ws' = length ws \<and> list_all w_closed ws'"
proof (induction ws arbitrary: ws')
  case (Cons w ws)
  then show ?case
    by (auto simp: writer_Stop_def run_closed_stays_closed split: option.splits if_splits)
qed simp

lemma late_record_panics:
  assumes "sharded_Stop cl ws = Some ws'" "ws \<noteq> []" "length ws < 2 ^ 64" "chwriter_row g v = Some e"
  shows "chwriter_handle g k v (Some ws') = (None, None)"
proof -
  note closed = sharded_Stop_closes [OF assms(1)]
  have "sharded_Write [e] ws' = None"
  proof (rule ccontr)
    assume "sharded_Write [e] ws' \<noteq> None"
    then obtain err ws2 where w: "sharded_Write [e] ws' = Some (err, ws2)" by auto
    have "ws' \<noteq> []" "length ws' < 2 ^ 64" using closed assms(2,3) by auto
    from sharded_Write_one [OF w this] obtain j err' w where
      "j < length ws'" "writer_Write [e] (ws' ! j) = Some (err', w)" by blast
    with closed show False by (simp add: writer_Write_def list_all_length)
  qed
  then show ?thesis by (simp add: chwriter_handle_cases(2) [OF assms(4)])
qed

end
