(* ===== verification/Shutdown.thy ===== *)
theory Shutdown
  imports Ingest "HOL-Library.Multiset"
begin

text \<open>
  The life of a gateway process, of \<open>cmd/gateway\<close> and of the module \<open>gateway/\<close>: serving,
  and the shutdown of \<open>main\<close>, which flushes the producer, then stops the HTTP server, then
  closes the producer.  The Kafka client buffers what \<open>PublishAsync\<close> gives it: a buffered
  record is acknowledged by the broker or fails for good, \<open>Flush\<close> returns when none is left or
  when its context ends, and \<open>Close\<close> fails what is left.
\<close>

datatype gw_phase = GwServing | GwFlushed | GwStopped | GwClosed

record ('s, 'l, 'b) gw_process =
  gp_phase :: gw_phase
  gp_api :: "('s, 'l, 'b) ingest_api"
  gp_buffer :: "(string \<times> string \<times> json) list"
  gp_delivered :: "(string \<times> string \<times> json) list"
  gp_failed :: "(string \<times> string \<times> json) list"

definition gw_start :: "('s, 'l, 'b) ingest_api \<Rightarrow> ('s, 'l, 'b) gw_process" where
  "gw_start api = \<lparr>gp_phase = GwServing, gp_api = api, gp_buffer = [], gp_delivered = [], gp_failed = []\<rparr>"

text \<open>What a request has published goes to the buffer.\<close>

definition gw_serve ::
  "'b ingest_handlers \<Rightarrow> ('s, json) redis \<Rightarrow> 'l rate_lib \<Rightarrow> auth_config \<Rightarrow> ingest_turn \<Rightarrow> ('s, 'l, 'b) gw_process \<Rightarrow>
   response \<times> ('s, 'l, 'b) gw_process" where
  "gw_serve H R RL cfg t p =
     (case ingest_route H R RL cfg t (gp_api p) of
        (resp, st) \<Rightarrow> (resp, p\<lparr>gp_api := st, gp_buffer := gp_buffer p @ drop (length (api_out (gp_api p))) (api_out st)\<rparr>))"

definition gw_close :: "('s, 'l, 'b) gw_process \<Rightarrow> ('s, 'l, 'b) gw_process" where
  "gw_close p = p\<lparr>gp_phase := GwClosed, gp_failed := gp_failed p @ gp_buffer p, gp_buffer := []\<rparr>"

inductive gw_step ::
  "'b ingest_handlers \<Rightarrow> ('s, json) redis \<Rightarrow> 'l rate_lib \<Rightarrow> auth_config \<Rightarrow>
   ('s, 'l, 'b) gw_process \<Rightarrow> ('s, 'l, 'b) gw_process \<Rightarrow> bool"
  for H :: "'b ingest_handlers" and R :: "('s, json) redis" and RL :: "'l rate_lib" and cfg :: auth_config where
  served: "gp_phase p \<in> {GwServing, GwFlushed} \<Longrightarrow> gw_step H R RL cfg p (snd (gw_serve H R RL cfg t p))"
| acknowledged: "gp_phase p \<noteq> GwClosed \<Longrightarrow> gp_buffer p = xs @ d # ys \<Longrightarrow>
     gw_step H R RL cfg p (p\<lparr>gp_buffer := xs @ ys, gp_delivered := gp_delivered p @ [d]\<rparr>)"
| given_up: "gp_phase p \<noteq> GwClosed \<Longrightarrow> gp_buffer p = xs @ d # ys \<Longrightarrow>
     gw_step H R RL cfg p (p\<lparr>gp_buffer := xs @ ys, gp_failed := gp_failed p @ [d]\<rparr>)"
| flushed: "gp_phase p = GwServing \<Longrightarrow> gp_buffer p = [] \<or> timed_out \<Longrightarrow>
     gw_step H R RL cfg p (p\<lparr>gp_phase := GwFlushed\<rparr>)"
| stopped: "gp_phase p = GwFlushed \<Longrightarrow> gw_step H R RL cfg p (p\<lparr>gp_phase := GwStopped\<rparr>)"
| closed: "gp_phase p = GwStopped \<Longrightarrow> gw_step H R RL cfg p (gw_close p)"

inductive_cases gw_stepE: "gw_step H R RL cfg p q"

abbreviation gw_run ::
  "'b ingest_handlers \<Rightarrow> ('s, json) redis \<Rightarrow> 'l rate_lib \<Rightarrow> auth_config \<Rightarrow>
   ('s, 'l, 'b) gw_process \<Rightarrow> ('s, 'l, 'b) gw_process \<Rightarrow> bool" where
  "gw_run H R RL cfg \<equiv> (gw_step H R RL cfg)\<^sup>*\<^sup>*"

section \<open>Lemmas\<close>

lemma closed_is_final: "gp_phase p = GwClosed \<Longrightarrow> gw_run H R RL cfg p q \<Longrightarrow> q = p"
proof -
  assume c: "gp_phase p = GwClosed"
  have "\<not> gw_step H R RL cfg p q'" for q' using c by (auto elim: gw_stepE)
  then show "gw_run H R RL cfg p q \<Longrightarrow> q = p" by (auto elim: converse_rtranclpE)
qed

text \<open>Every record published is with the broker, failed, or in the buffer.\<close>

definition gw_accounts :: "('s, 'l, 'b) ingest_api \<Rightarrow> ('s, 'l, 'b) gw_process \<Rightarrow> bool" where
  "gw_accounts api p \<longleftrightarrow> (\<exists>ds. api_out (gp_api p) = api_out api @ ds
     \<and> mset ds = mset (gp_delivered p) + mset (gp_failed p) + mset (gp_buffer p))
     \<and> (gp_phase p = GwClosed \<longrightarrow> gp_buffer p = [])"

context ingest_interface
begin

lemma route_appends:
  assumes "ingest_route H R RL cfg t st = (resp, st')"
  shows "\<exists>ds. api_out st' = api_out st @ ds"
proof -
  obtain g au l where m: "APIKeyMiddleware R RL (it_reachable t) cfg (it_now t) (it_request t) (ia_auth st) (ia_limiter st)
      = (g, au, l)"
    by (cases "APIKeyMiddleware R RL (it_reachable t) cfg (it_now t) (it_request t) (ia_auth st) (ia_limiter st)") auto
  show ?thesis
  proof (cases g)
    case (Answer r)
    then show ?thesis using assms m by (auto simp: ingest_route_def)
  next
    case (Pass a)
    then show ?thesis
      using assms m call_own [of "it_env t" a "ia_gateway st" "it_now t div 1000000" "it_call t"]
      by (auto simp: ingest_route_def publishes_own_def split: prod.splits)
  qed
qed

lemma step_accounts:
  assumes "gw_step H R RL cfg p q" "gw_accounts api p"
  shows "gw_accounts api q"
  using assms
proof (cases rule: gw_step.cases)
  case (served t)
  obtain resp st where r: "ingest_route H R RL cfg t (gp_api p) = (resp, st)"
    by (cases "ingest_route H R RL cfg t (gp_api p)")
  obtain ds where "api_out st = api_out (gp_api p) @ ds" using route_appends [OF r] by blast
  then show ?thesis
    using served assms(2) r by (auto simp: gw_accounts_def gw_serve_def ac_simps)
next
  case closed
  then show ?thesis using assms(2) by (auto simp: gw_accounts_def gw_close_def)
qed (use assms(2) in \<open>auto simp: gw_accounts_def\<close>)

lemma run_accounts:
  assumes "gw_run H R RL cfg (gw_start api) p"
  shows "gw_accounts api p"
  using assms
proof (induction rule: rtranclp_induct)
  case base
  show ?case by (simp add: gw_accounts_def gw_start_def)
next
  case (step p q)
  then show ?case using step_accounts by blast
qed

end

text \<open>A request between the flush and the end of the server.\<close>

lemma late_request:
  assumes "gp_phase p = GwFlushed" "gp_buffer p = []" "ingest_route H R RL cfg t (gp_api p) = (resp, st)"
  shows "\<exists>q. gw_run H R RL cfg p q \<and> gp_phase q = GwClosed \<and> gp_api q = st \<and> gp_delivered q = gp_delivered p
    \<and> (\<forall>q'. gw_run H R RL cfg q q' \<longrightarrow> q' = q)"
proof -
  define p1 where "p1 = snd (gw_serve H R RL cfg t p)"
  define p2 where "p2 = p1\<lparr>gp_phase := GwStopped\<rparr>"
  have p1: "gp_phase p1 = GwFlushed" "gp_api p1 = st" "gp_delivered p1 = gp_delivered p"
    using assms by (simp_all add: p1_def gw_serve_def)
  have "gw_step H R RL cfg p p1" unfolding p1_def using assms(1) by (intro served) simp
  moreover have "gw_step H R RL cfg p1 p2" unfolding p2_def using p1(1) by (rule stopped)
  moreover have "gw_step H R RL cfg p2 (gw_close p2)" by (rule closed) (simp add: p2_def)
  ultimately have "gw_run H R RL cfg p (gw_close p2)" by (blast intro: converse_rtranclp_into_rtranclp)
  moreover have "gp_phase (gw_close p2) = GwClosed" "gp_api (gw_close p2) = st" "gp_delivered (gw_close p2) = gp_delivered p"
    using p1 by (simp_all add: gw_close_def p2_def)
  ultimately show ?thesis using closed_is_final by blast
qed

section \<open>Properties\<close>


definition demo_rate :: "unit rate_lib" where
  "demo_rate = \<lparr>rate_NewLimiter = \<lambda>r b. (), rate_AllowN = \<lambda>l t n. (True, l)\<rparr>"

definition demo_api :: "(json mem, unit, string list) ingest_api" where
  "demo_api = \<lparr>ia_auth = (mem_empty, demo_pg), ia_limiter = None, ia_gateway = demo_gateway\<rparr>"


text \<open>C6: The shutdown loses acknowledged events: the producer is flushed while the server still
  answers, so an authorised batch with new events that arrives between the two is answered 202,
  and the process can end without the broker having it, for good.\<close>

theorem accepted_after_flush_lost:
  assumes "gp_phase p = GwFlushed" "gp_buffer p = []" "it_call t = PostEvents r"
    and "APIKeyMiddleware R RL (it_reachable t) cfg (it_now t) (it_request t) (ia_auth (gp_api p)) (ia_limiter (gp_api p))
      = (Pass a, au, l)"
    and "request_batch (it_env t) r = Some batch" "eb_Events batch \<noteq> []" "length (eb_Events batch) \<le> 500"
    and "dedup_loop BL (it_now t div 1000000) (ge_newID (it_env t)) 0 (eb_Events batch) (gw_filter (ia_gateway (gp_api p)))
      = (e # es, f)"
  shows "rs_status (fst (gw_serve (cmd_handlers BL) R RL cfg t p)) = 202
    \<and> (\<exists>q d. gw_run (cmd_handlers BL) R RL cfg p q \<and> gp_phase q = GwClosed
        \<and> api_out (gp_api q) = api_out (gp_api p) @ [d] \<and> own_record (it_env t) a d
        \<and> gp_delivered q = gp_delivered p \<and> (\<forall>q'. gw_run (cmd_handlers BL) R RL cfg q q' \<longrightarrow> q' = q))"
proof -
  obtain resp st where r: "ingest_route (cmd_handlers BL) R RL cfg t (gp_api p) = (resp, st)"
    by (cases "ingest_route (cmd_handlers BL) R RL cfg t (gp_api p)")
  note h = handleIngest_cases [OF assms(5-8), of a]
  have st: "rs_status resp = 202" "\<exists>d. api_out st = api_out (gp_api p) @ [d]"
    using r assms(3,4) h by (auto simp: ingest_route_def cmd_handlers_def)
  then obtain d where d: "api_out st = api_out (gp_api p) @ [d]" by blast
  have "publishes_own (it_env t) a (ia_gateway (gp_api p)) (ia_gateway st)"
    using r assms(3,4) handleIngest_own [of "it_env t" a "ia_gateway (gp_api p)" BL "it_now t div 1000000" r]
    by (auto simp: ingest_route_def cmd_handlers_def split: prod.splits)
  then have "own_record (it_env t) a d" using d by (auto simp: publishes_own_def)
  moreover obtain q where q: "gw_run (cmd_handlers BL) R RL cfg p q" "gp_phase q = GwClosed" "gp_api q = st"
    "gp_delivered q = gp_delivered p" "\<forall>q'. gw_run (cmd_handlers BL) R RL cfg q q' \<longrightarrow> q' = q"
    using late_request [OF assms(1,2) r] by blast
  moreover have "rs_status (fst (gw_serve (cmd_handlers BL) R RL cfg t p)) = 202"
    using st(1) r by (simp add: gw_serve_def)
  ultimately show ?thesis using d by (intro conjI exI [of _ q] exI [of _ d]) simp_all
qed

lemma demo_turn_passes:
  "\<exists>au. APIKeyMiddleware mem_redis demo_rate (it_reachable demo_turn) demo_cfg (it_now demo_turn) (it_request demo_turn)
     (mem_empty, demo_pg) None = (Pass demo_app, au, None)"
proof -
  have "redis_GetJSON mem_redis decode_app_model mem_empty 1000000 (auth_cache_key ''old'') = Inl ErrNotFound"
    by (simp add: redis_GetJSON_def mem_redis_def mem_get_def mem_empty_def)
  moreover have "GetAppByAPIKey (fst (pg_read demo_pg)) ''old'' = Inr demo_app"
    by (simp add: pg_read_def demo_pg_def GetAppByAPIKey_def select_row_def demo_db_def empty_db_def demo_app_def)
  ultimately have "\<exists>au. ValidateAPIKey mem_redis demo_cfg 1000000 ''old'' (mem_empty, demo_pg) = (Inr demo_app, au)"
    by (simp add: ValidateAPIKey_def split_def)
  then show ?thesis by (auto simp: APIKeyMiddleware_def demo_turn_def Let_def)
qed

theorem accepted_after_flush_lost_witness:
  "\<exists>q d. gw_run (cmd_handlers list_bloom) mem_redis demo_rate demo_cfg ((gw_start demo_api)\<lparr>gp_phase := GwFlushed\<rparr>) q
     \<and> gp_phase q = GwClosed \<and> api_out (gp_api q) = [d] \<and> gp_delivered q = []"
proof -
  let ?p = "(gw_start demo_api)\<lparr>gp_phase := GwFlushed\<rparr>"
  obtain au where pass: "APIKeyMiddleware mem_redis demo_rate (it_reachable demo_turn) demo_cfg (it_now demo_turn)
      (it_request demo_turn) (ia_auth (gp_api ?p)) (ia_limiter (gp_api ?p)) = (Pass demo_app, au, None)"
    using demo_turn_passes by (auto simp: gw_start_def demo_api_def)
  have loop: "dedup_loop list_bloom (it_now demo_turn div 1000000) (ge_newID (it_env demo_turn)) 0
      (eb_Events (batch_of [plain_event])) (gw_filter (ia_gateway (gp_api ?p)))
    = (plain_event # [], snd (dedup_loop list_bloom 1 (ge_newID demo_env) 0 [plain_event] (gw_filter demo_gateway)))"
    by (simp add: batch_of_def plain_event_def demo_gateway_def NewFilter_def list_bloom_def TestAndAdd_def
        maybeRotate_def Let_def gw_start_def demo_api_def demo_turn_def)
  have req: "request_batch (it_env demo_turn) demo_request = Some (batch_of [plain_event])"
    using demo_batch(1) by (simp add: demo_turn_def)
  have "gp_phase ?p = GwFlushed" "gp_buffer ?p = []" "it_call demo_turn = PostEvents demo_request"
    "eb_Events (batch_of [plain_event]) \<noteq> []" "length (eb_Events (batch_of [plain_event])) \<le> 500"
    by (simp_all add: gw_start_def demo_turn_def batch_of_def)
  note this(1-3) pass req this(4,5) loop
  from accepted_after_flush_lost [OF this] obtain q d where
    "gw_run (cmd_handlers list_bloom) mem_redis demo_rate demo_cfg ?p q" "gp_phase q = GwClosed"
    "api_out (gp_api q) = api_out (gp_api ?p) @ [d]" "gp_delivered q = gp_delivered ?p" by blast
  then show ?thesis
    by (intro exI [of _ q] exI [of _ d]) (simp add: gw_start_def demo_api_def demo_gateway_def)
qed

end
