(* ===== verification/Connect.thy ===== *)
theory Connect
  imports Config Health Writer Mongo
begin

text \<open>
  The constructors of the clients (\<open>internal/redis\<close>, \<open>internal/clickhouse\<close>,
  \<open>internal/kafka\<close>, \<open>internal/mongo\<close>) and the start of \<open>cmd/gateway\<close>.  The drivers
  are not part of the repository: \<open>dial\<close> says whether a driver takes the options, \<open>ping\<close>
  whether a connection answers.  A constructor takes and returns the list of the connections
  that are open.
\<close>

datatype conn = RedisCluster "string list" | RedisSingle string | ClickHouseConn "string list"
  | KafkaConn "string list" | MongoConn string

type_synonym net = "conn list"

section \<open>Constructors\<close>

text \<open>The cluster first; without it the first address alone, a panic (\<open>None\<close>) when there is
  none.\<close>

definition redis_NewClient :: "(conn \<Rightarrow> bool) \<Rightarrow> redis_config \<Rightarrow> net \<Rightarrow> ((go_error + conn) \<times> net) option" where
  "redis_NewClient ping cfg n =
     (let cluster = RedisCluster (rc_Addrs cfg) in
      if ping cluster then Some (Inr cluster, cluster # n)
      else case rc_Addrs cfg of
          [] \<Rightarrow> None
        | addr # _ \<Rightarrow>
            (let single = RedisSingle addr in
             if ping single then Some (Inr single, single # n)
             else Some (Inl (Errorf ''redis connect failed (cluster and single-node)''), single # n)))"

definition ch_NewClient ::
  "(conn \<Rightarrow> bool) \<Rightarrow> (conn \<Rightarrow> bool) \<Rightarrow> clickhouse_config \<Rightarrow> net \<Rightarrow> (go_error + conn) \<times> net" where
  "ch_NewClient dial ping cfg n =
     (let c = ClickHouseConn (chc_Hosts cfg) in
      if \<not> dial c then (Inl (Errorf ''clickhouse open''), n)
      else if \<not> ping c then (Inl (Errorf ''clickhouse ping''), c # n)
      else (Inr c, c # n))"

definition kafka_NewClient ::
  "string \<Rightarrow> string \<Rightarrow> (conn \<Rightarrow> bool) \<Rightarrow> (conn \<Rightarrow> bool) \<Rightarrow> kafka_config \<Rightarrow> net \<Rightarrow> (go_error + conn) \<times> net" where
  "kafka_NewClient create_msg ping_msg dial ping cfg n =
     (let c = KafkaConn (kc_Brokers cfg) in
      if \<not> dial c then (Inl (Errorf create_msg), n)
      else if \<not> ping c then (Inl (Errorf ping_msg), c # n)
      else (Inr c, c # n))"

definition NewConsumer :: "(conn \<Rightarrow> bool) \<Rightarrow> (conn \<Rightarrow> bool) \<Rightarrow> kafka_config \<Rightarrow> net \<Rightarrow> (go_error + conn) \<times> net" where
  "NewConsumer = kafka_NewClient ''kafka consumer'' ''kafka consumer broker unreachable''"

definition NewProducer :: "(conn \<Rightarrow> bool) \<Rightarrow> (conn \<Rightarrow> bool) \<Rightarrow> kafka_config \<Rightarrow> net \<Rightarrow> (go_error + conn) \<times> net" where
  "NewProducer = kafka_NewClient ''kafka producer'' ''kafka broker unreachable''"

definition mongo_NewClient ::
  "(conn \<Rightarrow> bool) \<Rightarrow> (conn \<Rightarrow> bool) \<Rightarrow> mongo_config \<Rightarrow> net \<Rightarrow> (go_error + conn \<times> read_pref) \<times> net" where
  "mongo_NewClient dial ping cfg n =
     (case parseReadPreference (mgc_ReadPreference cfg) of
        Inl _ \<Rightarrow> (Inl (Errorf ''mongo read preference''), n)
      | Inr rp \<Rightarrow>
          (let c = MongoConn (mgc_URI cfg) in
           if \<not> dial c then (Inl (Errorf ''mongo connect''), n)
           else if \<not> ping c then (Inl (Errorf ''mongo ping''), c # n)
           else (Inr (c, rp), c # n)))"

section \<open>The ClickHouse pool\<close>

definition close_conn :: "conn \<Rightarrow> net \<Rightarrow> net" where
  "close_conn c n = remove1 c n"

text \<open>The loop over the shard hosts closes what it has opened when one fails; a reader that
  fails is skipped.\<close>

fun pool_shards ::
  "(conn \<Rightarrow> bool) \<Rightarrow> (conn \<Rightarrow> bool) \<Rightarrow> clickhouse_config \<Rightarrow> conn list \<Rightarrow> string list \<Rightarrow> net \<Rightarrow>
   (go_error + conn list) \<times> net" where
  "pool_shards dial ping cfg shards [] n = (Inr shards, n)"
| "pool_shards dial ping cfg shards (host # hosts) n =
     (case ch_NewClient dial ping (cfg\<lparr>chc_Hosts := [host]\<rparr>) n of
        (Inl _, n') \<Rightarrow> (Inl (Errorf (''clickhouse shard '' @ host)), fold close_conn shards n')
      | (Inr c, n') \<Rightarrow> pool_shards dial ping cfg (shards @ [c]) hosts n')"

fun pool_readers ::
  "(conn \<Rightarrow> bool) \<Rightarrow> (conn \<Rightarrow> bool) \<Rightarrow> clickhouse_config \<Rightarrow> string list \<Rightarrow> net \<Rightarrow> conn list \<times> net" where
  "pool_readers dial ping cfg [] n = ([], n)"
| "pool_readers dial ping cfg (host # hosts) n =
     (case ch_NewClient dial ping (cfg\<lparr>chc_Hosts := [host]\<rparr>) n of
        (Inl _, n') \<Rightarrow> pool_readers dial ping cfg hosts n'
      | (Inr c, n') \<Rightarrow> (case pool_readers dial ping cfg hosts n' of (cs, n'') \<Rightarrow> (c # cs, n'')))"

definition pool_open ::
  "(conn \<Rightarrow> bool) \<Rightarrow> (conn \<Rightarrow> bool) \<Rightarrow> clickhouse_config \<Rightarrow> net \<Rightarrow> ((go_error + conn pool) \<times> net) option" where
  "pool_open dial ping cfg n =
     (if chc_ShardHosts cfg = [] \<and> chc_Hosts cfg = [] then None
      else Some (case pool_shards dial ping cfg []
            (if chc_ShardHosts cfg = [] then [hd (chc_Hosts cfg)] else chc_ShardHosts cfg) n of
          (Inl e, n') \<Rightarrow> (Inl e, n')
        | (Inr shards, n') \<Rightarrow>
            (case pool_readers dial ping cfg (chc_ReadHosts cfg) n' of
               (readers, n'') \<Rightarrow> (Inr \<lparr>pl_shards = shards, pl_readers = readers, pl_rrRead = 0\<rparr>, n''))))"

definition pool_Close :: "conn pool \<Rightarrow> net \<Rightarrow> net" where
  "pool_Close p n = fold close_conn (pl_readers p) (fold close_conn (pl_shards p) n)"

section \<open>The start of the gateway\<close>

datatype startup = Fatal string | Panics | Running checker

text \<open>\<open>main\<close> up to the router: what cannot be had is fatal, Mongo excepted; the readiness
  checks are those of the clients there are.\<close>

definition gateway_checks :: "bool \<Rightarrow> checker" where
  "gateway_checks with_mongo =
     (let c = AddCritical ''postgres'' (AddCritical ''redis'' (AddCritical ''kafka'' (health_New 3000000000)))
      in if with_mongo then AddOptional ''mongo'' c else c)"

definition start_gateway ::
  "(conn \<Rightarrow> bool) \<Rightarrow> (conn \<Rightarrow> bool) \<Rightarrow> (string \<Rightarrow> go_error + pg_db) \<Rightarrow> go_error + config \<Rightarrow> startup \<times> net" where
  "start_gateway dial ping newPool loaded =
     (case loaded of
        Inl _ \<Rightarrow> (Fatal ''failed to load config'', [])
      | Inr cfg \<Rightarrow>
          (case redis_NewClient ping (cf_Redis cfg) [] of
             None \<Rightarrow> (Panics, [])
           | Some (Inl _, n1) \<Rightarrow> (Fatal ''redis connect'', n1)
           | Some (Inr _, n1) \<Rightarrow>
               (case pg_NewClient newPool (pgc_DSN (cf_Postgres cfg)) (pgc_ReplicaDSNs (cf_Postgres cfg)) of
                  Inl _ \<Rightarrow> (Fatal ''postgres connect'', n1)
                | Inr _ \<Rightarrow>
                    (case mongo_NewClient dial ping (cf_Mongo cfg) n1 of
                       (mgo, n2) \<Rightarrow>
                         (case NewProducer dial ping (cf_Kafka cfg) n2 of
                            (Inl _, n3) \<Rightarrow> (Fatal ''kafka producer'', n3)
                          | (Inr _, n3) \<Rightarrow> (Running (gateway_checks (\<not> isl mgo)), n3))))))"

section \<open>Lemmas\<close>

text \<open>The connections of the hosts that answer, and of those that are dialled and do not.\<close>

definition host_conn :: "string \<Rightarrow> conn" where
  "host_conn h = ClickHouseConn [h]"

definition answers :: "(conn \<Rightarrow> bool) \<Rightarrow> (conn \<Rightarrow> bool) \<Rightarrow> string \<Rightarrow> bool" where
  "answers dial ping h \<longleftrightarrow> dial (host_conn h) \<and> ping (host_conn h)"

definition silent :: "(conn \<Rightarrow> bool) \<Rightarrow> (conn \<Rightarrow> bool) \<Rightarrow> string \<Rightarrow> bool" where
  "silent dial ping h \<longleftrightarrow> dial (host_conn h) \<and> \<not> ping (host_conn h)"

lemma ch_NewClient_host:
  "ch_NewClient dial ping (cfg\<lparr>chc_Hosts := [h]\<rparr>) n =
     (if answers dial ping h then (Inr (host_conn h), host_conn h # n)
      else (Inl (Errorf (if dial (host_conn h) then ''clickhouse ping'' else ''clickhouse open'')),
            if silent dial ping h then host_conn h # n else n))"
  by (simp add: ch_NewClient_def Let_def answers_def silent_def host_conn_def)

lemma mset_close_all: "mset cs \<subseteq># mset n \<Longrightarrow> mset (fold close_conn cs n) = mset n - mset cs"
proof (induction cs arbitrary: n)
  case (Cons c cs)
  have "mset cs \<subseteq># mset (close_conn c n)"
    using Cons.prems by (simp add: close_conn_def insert_subset_eq_iff)
  from Cons.IH [OF this] show ?case by (simp add: close_conn_def)
qed simp

lemma pool_shards_ok:
  assumes "pool_shards dial ping cfg shards hosts n = (Inr cs, n')"
  shows "cs = shards @ map host_conn hosts \<and> mset n' = mset n + mset (map host_conn hosts)"
  using assms
proof (induction hosts arbitrary: shards n)
  case (Cons h hosts)
  then have "pool_shards dial ping cfg (shards @ [host_conn h]) hosts (host_conn h # n) = (Inr cs, n')"
    by (simp add: ch_NewClient_host split: if_splits)
  from Cons.IH [OF this] show ?case by simp
qed simp

lemma pool_shards_fails:
  assumes "pool_shards dial ping cfg shards hosts n = (Inl e, n')" "mset shards \<subseteq># mset n"
  shows "\<exists>h \<in> set hosts. \<not> answers dial ping h \<and> e = Errorf (''clickhouse shard '' @ h)
    \<and> mset n' = mset n - mset shards + (if silent dial ping h then {#host_conn h#} else {#})"
  using assms
proof (induction hosts arbitrary: shards n)
  case (Cons h hosts)
  show ?case
  proof (cases "answers dial ping h")
    case True
    have "mset (shards @ [host_conn h]) \<subseteq># mset (host_conn h # n)" using Cons.prems(2) by simp
    from Cons.IH [OF _ this] Cons.prems(1) True show ?thesis by (auto simp: ch_NewClient_host)
  next
    case False
    have sub: "mset shards \<subseteq># add_mset (host_conn h) (mset n)" using Cons.prems(2) by (simp add: subset_mset.add_increasing2 subset_mset.order_trans)
    show ?thesis
      using Cons.prems False mset_close_all [of shards n] mset_close_all [of shards "host_conn h # n"] sub
      by (auto simp: ch_NewClient_host subset_mset.add_diff_assoc2 split: if_splits)
  qed
qed simp

lemma pool_readers_ok:
  "pool_readers dial ping cfg hosts n = (cs, n') \<Longrightarrow>
   cs = map host_conn (filter (answers dial ping) hosts)
   \<and> mset n' = mset n + mset cs + mset (map host_conn (filter (silent dial ping) hosts))"
proof (induction hosts arbitrary: n cs n')
  case (Cons h hosts)
  obtain cs' n1 where r: "pool_readers dial ping cfg hosts
      (if answers dial ping h \<or> silent dial ping h then host_conn h # n else n) = (cs', n1)"
    by (cases "pool_readers dial ping cfg hosts (if answers dial ping h \<or> silent dial ping h then host_conn h # n else n)")
  have "\<not> (answers dial ping h \<and> silent dial ping h)" by (simp add: answers_def silent_def)
  with Cons.prems Cons.IH [OF r] r show ?case
    by (cases "answers dial ping h"; cases "silent dial ping h") (force simp: ch_NewClient_host)+
qed simp

text \<open>The pool of the theory \<open>Writer\<close>, over connecting as it is here.\<close>

definition pool_config :: "clickhouse_config \<Rightarrow> ch_config" where
  "pool_config cfg = \<lparr>cc_Hosts = chc_Hosts cfg, cc_ShardHosts = chc_ShardHosts cfg, cc_ReadHosts = chc_ReadHosts cfg\<rparr>"

lemma pool_config_fields:
  "cc_Hosts (pool_config cfg) = chc_Hosts cfg" "cc_ShardHosts (pool_config cfg) = chc_ShardHosts cfg"
  "cc_ReadHosts (pool_config cfg) = chc_ReadHosts cfg"
  by (simp_all add: pool_config_def)

definition connect_host :: "(conn \<Rightarrow> bool) \<Rightarrow> (conn \<Rightarrow> bool) \<Rightarrow> string \<Rightarrow> go_error + conn" where
  "connect_host dial ping h = (if answers dial ping h then Inr (host_conn h) else Inl (Errorf ''clickhouse''))"

lemma open_shards_pool:
  "map_sum fst id (open_shards (connect_host dial ping) shards hosts) = fst (pool_shards dial ping cfg shards hosts n)"
  by (induction hosts arbitrary: shards n) (simp_all add: connect_host_def ch_NewClient_host)

lemma open_readers_pool:
  "open_readers (connect_host dial ping) hosts = fst (pool_readers dial ping cfg hosts n)"
proof (induction hosts arbitrary: n)
  case (Cons h hosts)
  show ?case
    using Cons.IH [of "if answers dial ping h \<or> silent dial ping h then host_conn h # n else n"]
    by (cases "answers dial ping h"; cases "silent dial ping h") (simp_all add: connect_host_def ch_NewClient_host split_def)
qed simp

section \<open>Properties\<close>

text \<open>A pool answers as the pool of the writers does, and its connections are accounted for: when
  it opens, closing it leaves what was open before and, for every read host that was dialled and
  did not answer, a connection nobody can close; when a shard fails, the shards before it are
  closed again and at most its own connection is left.\<close>

theorem pool_connections:
  assumes "pool_open dial ping cfg n = Some (r, n')"
  shows "map_option (map_sum fst id) (NewPool (connect_host dial ping) (pool_config cfg)) = Some r
    \<and> (case r of
        Inr p \<Rightarrow> mset (pool_Close p n') = mset n + mset (map host_conn (filter (silent dial ping) (chc_ReadHosts cfg)))
      | Inl e \<Rightarrow> \<exists>h. \<not> answers dial ping h \<and> e = Errorf (''clickhouse shard '' @ h)
          \<and> mset n' = mset n + (if silent dial ping h then {#host_conn h#} else {#}))"
proof -
  define hosts where "hosts = (if chc_ShardHosts cfg = [] then [hd (chc_Hosts cfg)] else chc_ShardHosts cfg)"
  obtain s n1 where s: "pool_shards dial ping cfg [] hosts n = (s, n1)" by (cases "pool_shards dial ping cfg [] hosts n")
  obtain cs n2 where cs: "pool_readers dial ping cfg (chc_ReadHosts cfg) n1 = (cs, n2)"
    by (cases "pool_readers dial ping cfg (chc_ReadHosts cfg) n1")
  have r: "(r, n') = (case s of Inl e \<Rightarrow> (Inl e, n1)
      | Inr shards \<Rightarrow> (Inr \<lparr>pl_shards = shards, pl_readers = cs, pl_rrRead = 0\<rparr>, n2))"
    "\<not> (chc_ShardHosts cfg = [] \<and> chc_Hosts cfg = [])"
    using assms s cs by (auto simp: pool_open_def hosts_def [symmetric] split: if_splits sum.splits)
  have "map_sum fst id (open_shards (connect_host dial ping) [] hosts) = s"
    using open_shards_pool [of dial ping "[]" hosts cfg n] s by simp
  moreover have "open_readers (connect_host dial ping) (chc_ReadHosts cfg) = cs"
    using open_readers_pool [of dial ping "chc_ReadHosts cfg" cfg n1] cs by simp
  moreover have "NewPool (connect_host dial ping) (pool_config cfg) =
      Some (case open_shards (connect_host dial ping) [] hosts of Inl e \<Rightarrow> Inl e
        | Inr shards \<Rightarrow> Inr \<lparr>pl_shards = shards, pl_readers = open_readers (connect_host dial ping) (chc_ReadHosts cfg),
            pl_rrRead = 0\<rparr>)"
    unfolding NewPool_def pool_config_fields Let_def hosts_def [symmetric] using r(2) by simp
  ultimately have new: "map_option (map_sum fst id) (NewPool (connect_host dial ping) (pool_config cfg)) = Some r"
    using r(1) by (cases "open_shards (connect_host dial ping) [] hosts") auto
  show ?thesis
  proof (cases s)
    case (Inl e)
    with pool_shards_fails [of dial ping cfg "[]" hosts n e n1] s r(1) new show ?thesis by auto
  next
    case (Inr shards)
    note sh = pool_shards_ok [OF s [unfolded Inr]]
    note rd = pool_readers_ok [OF cs]
    have "mset (pool_Close \<lparr>pl_shards = shards, pl_readers = cs, pl_rrRead = 0\<rparr> n2) = mset n2 - mset shards - mset cs"
      using sh rd by (simp add: pool_Close_def mset_close_all)
    then show ?thesis using Inr r(1) new sh rd by simp
  qed
qed

definition demo_clickhouse :: clickhouse_config where
  "demo_clickhouse = default_clickhouse\<lparr>chc_ReadHosts := [''r'']\<rparr>"

theorem pool_connections_witness:
  "\<exists>p n'. pool_open (\<lambda>_. True) (\<lambda>c. c \<noteq> host_conn ''r'') demo_clickhouse [] = Some (Inr p, n')
     \<and> mset (pool_Close p n') = {#host_conn ''r''#}"
proof -
  obtain p n' where p: "pool_open (\<lambda>_. True) (\<lambda>c. c \<noteq> host_conn ''r'') demo_clickhouse [] = Some (Inr p, n')"
    by (simp add: pool_open_def demo_clickhouse_def default_clickhouse_def ch_NewClient_def Let_def host_conn_def)
  from pool_connections [OF p] p show ?thesis by (simp add: demo_clickhouse_def silent_def)
qed

definition redis_reachable :: "(conn \<Rightarrow> bool) \<Rightarrow> redis_config \<Rightarrow> bool" where
  "redis_reachable ping cfg \<longleftrightarrow> ping (RedisCluster (rc_Addrs cfg))
     \<or> (rc_Addrs cfg \<noteq> [] \<and> ping (RedisSingle (hd (rc_Addrs cfg))))"

lemma redis_NewClient_reachable:
  "(\<exists>c n'. redis_NewClient ping cfg n = Some (Inr c, n')) \<longleftrightarrow> redis_reachable ping cfg"
  by (auto simp: redis_NewClient_def redis_reachable_def Let_def split: list.split)

lemma NewProducer_reachable:
  "(\<exists>c n'. NewProducer dial ping cfg n = (Inr c, n')) \<longleftrightarrow> dial (KafkaConn (kc_Brokers cfg)) \<and> ping (KafkaConn (kc_Brokers cfg))"
  by (simp add: NewProducer_def kafka_NewClient_def Let_def)

lemma pg_NewClient_reachable: "(\<exists>c. pg_NewClient newPool dsn rs = Inr c) \<longleftrightarrow> (\<exists>db. newPool dsn = Inr db)"
  by (simp add: pg_NewClient_def split: sum.split)

lemma start_gateway_runs:
  "(\<exists>c n. start_gateway dial ping newPool loaded = (Running c, n)) \<longleftrightarrow>
     (\<exists>cfg. loaded = Inr cfg \<and> redis_reachable ping (cf_Redis cfg)
        \<and> (\<exists>db. newPool (pgc_DSN (cf_Postgres cfg)) = Inr db)
        \<and> dial (KafkaConn (kc_Brokers (cf_Kafka cfg))) \<and> ping (KafkaConn (kc_Brokers (cf_Kafka cfg))))"
proof (cases loaded)
  case (Inr cfg)
  show ?thesis
    unfolding redis_NewClient_reachable [symmetric, where n = "[]"]
      pg_NewClient_reachable [symmetric, where rs = "pgc_ReplicaDSNs (cf_Postgres cfg)"]
    by (auto simp: Inr start_gateway_def NewProducer_def kafka_NewClient_def Let_def
        split: option.splits sum.splits prod.splits if_splits)
qed (simp add: start_gateway_def)

lemma gateway_checks_eq:
  "hk_checks (gateway_checks m) = [\<lparr>nc_name = ''kafka'', nc_critical = True\<rparr>, \<lparr>nc_name = ''redis'', nc_critical = True\<rparr>,
     \<lparr>nc_name = ''postgres'', nc_critical = True\<rparr>] @ (if m then [\<lparr>nc_name = ''mongo'', nc_critical = False\<rparr>] else [])"
  by (simp add: gateway_checks_def AddCritical_def AddOptional_def health_New_def Let_def)

lemma gateway_critical:
  "(\<forall>i < length (hk_checks (gateway_checks m)). nc_critical (hk_checks (gateway_checks m) ! i) \<longrightarrow> P i)
     \<longleftrightarrow> P 0 \<and> P 1 \<and> P (2 :: nat)"
  by (cases m) (auto simp: gateway_checks_eq less_Suc_eq numeral_2_eq_2 nth_Cons split: nat.splits)

lemma start_gateway_checks: "start_gateway dial ping newPool loaded = (Running c, n) \<Longrightarrow> \<exists>m. c = gateway_checks m"
  by (auto simp: start_gateway_def split: option.splits sum.splits prod.splits)



text \<open>No address for Redis panics the start; a Redis, Kafka or Mongo client that is created and
  does not answer is left open.\<close>

lemma empty_addresses_panic:
  "rc_Addrs (cf_Redis cfg) = [] \<Longrightarrow> \<not> ping (RedisCluster []) \<Longrightarrow>
   start_gateway dial ping newPool (Inr cfg) = (Panics, [])"
  by (simp add: start_gateway_def redis_NewClient_def Let_def)

lemma failed_ping_leaks:
  "rc_Addrs rcfg = a # as \<Longrightarrow> \<not> redis_reachable ping rcfg \<Longrightarrow>
   \<exists>e. redis_NewClient ping rcfg n = Some (Inl e, RedisSingle a # n)"
  "dial (KafkaConn (kc_Brokers kcfg)) \<Longrightarrow> \<not> ping (KafkaConn (kc_Brokers kcfg)) \<Longrightarrow>
   \<exists>e. NewConsumer dial ping kcfg n = (Inl e, KafkaConn (kc_Brokers kcfg) # n)"
  "parseReadPreference (mgc_ReadPreference mcfg) = Inr rp \<Longrightarrow> dial (MongoConn (mgc_URI mcfg)) \<Longrightarrow>
   \<not> ping (MongoConn (mgc_URI mcfg)) \<Longrightarrow> \<exists>e. mongo_NewClient dial ping mcfg n = (Inl e, MongoConn (mgc_URI mcfg) # n)"
  by (simp_all add: redis_NewClient_def redis_reachable_def NewConsumer_def kafka_NewClient_def mongo_NewClient_def Let_def)

end
