(* ===== verification/Spec2Isabelle.thy ===== *)
theory Spec2Isabelle
  imports Flow Health AnalyticsApi Mgmt Mongo Validator Notification Consistent LayeredFlow LayeredFunnel
    LayeredQuery LayeredAlert LayeredAuth Ingest Profiles Config Delivery Shutdown
    Connect
begin

text \<open>
  PulseAnalytics is a product-analytics platform in Go: mobile and server clients send batches
  of events over HTTP; a chain of services that talk over Kafka topics enriches them, cuts them
  into sessions, computes funnels and writes them to ClickHouse; query, alert, notification and
  management services work on what was stored, with Redis and Postgres beside them.

  \<^bold>\<open>The parts and their theories\<close>

  Shared: \<open>Prelude\<close> (Go's integers, strings and numbers; lemmas on lists and maps),
  \<open>Models\<close> (\<open>internal/models\<close>: the records, field for field),
  \<open>Wire\<close> (how \<open>encoding/json\<close> reads and writes them),
  \<open>Dates\<close> and \<open>Base64\<close> (the parts of \<open>time\<close> and
  \<open>encoding/base64\<close> in use), \<open>Http\<close> (requests, responses),
  \<open>Guard\<close> (the interface of the components that run a call for somebody: the locale
  \<open>nested_guard\<close>, interpreted on the bulkhead around the circuit breaker of the
  query service).

  Resilience: \<open>Breaker\<close> (\<open>internal/circuitbreaker\<close>),
  \<open>Bulkhead\<close> (\<open>internal/bulkhead\<close>), \<open>L1Cache\<close>
  (\<open>internal/cache\<close>), \<open>Consistent\<close>
  (\<open>internal/consistent\<close>), \<open>RateLimit\<close>
  (\<open>internal/ratelimit\<close>), \<open>Dedup\<close> (\<open>internal/dedup\<close>),
  \<open>Health\<close> (\<open>internal/health\<close>).

  Start-up: \<open>Config\<close> (\<open>internal/config\<close>: the structs, the defaults,
  \<open>Load\<close>), \<open>Connect\<close> (the constructors of the clients with the
  connections they open and leave, the ClickHouse pool, the start and the readiness of
  \<open>cmd/gateway\<close>).

  Stores: \<open>Redis\<close> (\<open>internal/redis\<close>: the laws of the server as
  predicates, with an instance that satisfies them), \<open>Postgres\<close>
  (\<open>internal/postgres\<close>: each statement as what it does to tables with the
  constraints of the migrations), \<open>Mongo\<close> (\<open>internal/mongo\<close>: the
  archive), \<open>Profiles\<close> (its user profiles, and what identify requests make of
  them), \<open>Writer\<close> (\<open>internal/clickhouse\<close>: the batching writer, the
  shards and the pool), \<open>Kafka\<close> (\<open>internal/kafka\<close>: consume loops,
  producer).

  The stream: \<open>Enricher\<close> (\<open>internal/enricher\<close>,
  \<open>internal/geo\<close>), \<open>Session\<close> (\<open>internal/session\<close>),
  \<open>Funnel\<close> (\<open>internal/funnel\<close>), \<open>Pipeline\<close> (the message
  handlers of \<open>cmd/enricher\<close>, \<open>cmd/session\<close>,
  \<open>cmd/funnel\<close>, \<open>cmd/chwriter\<close>), \<open>Gateway\<close>
  (\<open>cmd/gateway\<close>), \<open>Ingest\<close> (the routes of both gateways behind the
  API-key middleware, with the locale \<open>ingest_interface\<close> for the handlers they
  mount), \<open>SDK\<close> (\<open>sdk/go\<close>), \<open>Flow\<close> (the handlers composed
  along the topics), \<open>Delivery\<close> (the life of the \<open>cmd/chwriter\<close>
  process: loop, writers, shutdown, crash and restart), \<open>Shutdown\<close> (the life of a
  gateway process: serving, flush, stop, close).

  The APIs: \<open>Auth\<close> (\<open>internal/auth\<close>, \<open>cmd/authservice\<close>),
  \<open>Query\<close> and \<open>Analytics\<close> (\<open>internal/querying\<close>),
  \<open>QueryApi\<close>, \<open>AnalyticsApi\<close> and \<open>Mgmt\<close>
  (\<open>cmd/queryapi\<close>), \<open>Alert\<close> (\<open>cmd/alertengine\<close>),
  \<open>Notification\<close> (\<open>cmd/notificationservice\<close>), \<open>Validator\<close>
  (\<open>internal/validator\<close>).

  The modules at the top level restate the programs of \<open>cmd\<close> as handlers, services
  and repositories over \<open>shared/pkg\<close>, with other behaviour:
  \<open>LayeredGateway\<close> (\<open>gateway\<close>), \<open>LayeredEnricher\<close>
  (\<open>enricher\<close>), \<open>LayeredSession\<close> (\<open>session\<close>: sessions by
  the clock), \<open>LayeredFunnel\<close> (\<open>funnel\<close>: progress in Redis, refined by
  a tracker of step times), \<open>LayeredWriter\<close> (\<open>chwriter\<close>),
  \<open>LayeredFlow\<close> (the four of the stream composed), \<open>LayeredAuth\<close>
  (\<open>auth\<close>), \<open>LayeredMgmt\<close> and \<open>LayeredQuery\<close>
  (\<open>query-api\<close> and the statements \<open>shared/pkg/postgres\<close> adds),
  \<open>LayeredAlert\<close> (\<open>alert-engine\<close>, \<open>notification\<close>).

  \<^bold>\<open>How code and model correspond\<close>

  A struct is a \<open>record\<close> of its fields, a method a function that takes the state
  and returns it updated, an error a value of a sum or an option, a panic the value
  \<open>None\<close>. A function that reads the clock, generates an id or ranges over a map
  takes the reading, the id or the order as an argument, once for every place where the code
  does.  Code that runs concurrently is split where it leaves its mutex: breaker, bulkhead,
  filter, writer and SDK have step relations or schedules whose reachable states the invariants
  are about.  Third-party services and libraries (Redis, ClickHouse rows, the Bloom filter,
  JWT, HTTP and mail clients, gzip, viper, the JSON text) are parameters; what is relied on is a
  named predicate (\<open>redis_kv\<close>, \<open>redis_up\<close>,
  \<open>bloom_no_false_negatives\<close>, \<open>jwt_laws\<close>, \<open>wire_ok\<close>,
  \<open>viper_law\<close>), with an instance in the witnesses.  \<open>float64\<close> is a
  rational number; the 64-bit integers wrap where the code computes with them.

  \<^bold>\<open>What the lemmas show\<close>

  Wire format: every struct that crosses a topic or a cache decodes to itself; what the SDK
  sends is what the gateway reads.  Stream: the gateway publishes exactly the new events of a
  batch under the authenticated application, the enricher and the session service lose none of
  them, and each becomes one row (\<open>acknowledged_events_become_rows\<close>); the writer
  keeps every accepted row until it is flushed, and stopping flushes all; offsets are committed
  before the rows are stored, so a crash loses rows (theory \<open>Delivery\<close>), and a
  gateway that shuts down loses what it acknowledges after its flush (theory
  \<open>Shutdown\<close>). Sessions: one id per burst of events, a new one after a gap.
  Resilience: the breaker opens, probes and closes as stated in every reachable state, the
  bulkhead's counters balance, the caches serve one refresher, the ring moves keys only to a new
  node.  Accounts: every sequence of requests keeps the tables sound.  Queries: an answer
  belongs to the request's own query, placeholders and arguments agree.  Tenants: what either
  gateway publishes carries the application of a key holder of one of its requests; user
  profiles are not kept apart in that way.  Cooldowns of alerts and campaigns hold when
  deliveries are sequential.  Modules: a batch the gateway module accepts ends as rows together
  with the session events it causes, the funnel module reports a conversion only for the steps
  in order within the window, the query API answers only with a valid token, a registration
  hands out credentials that work.  Where the code does not do what it means to (synthetic
  session records that lose their content, a second \<open>Stop\<close> that panics, key
  rotation that a cache outlives, a documented variable for the token secret that is not read,
  an API without authentication, alerts that never fire and notifications that are never sent,
  ids the database refuses, and others), a theorem or a lemma shows that behaviour.

  \<^bold>\<open>Bounds and termination\<close>

  The drain loop of the writer takes the length of the channel as fuel, which each turn
  shortens; the loop over a closed channel, \<open>split_loop\<close> and the word splitting
  terminate by the length that is left; the other recursions are structural.

  \<^bold>\<open>Not modelled\<close>

  \<open>main\<close> functions beyond the handlers they mount, the start and shutdown of the
  gateway and the life of the ClickHouse writer, the options handed to drivers, methods of the
  Redis client that nothing uses, metrics (\<open>internal/metrics\<close>), tracing
  (\<open>internal/tracing\<close>) and logging: wiring and pure output.  The generated API
  documentation (\<open>docs\<close>), the dashboard (\<open>frontend\<close>), the JavaScript
  SDK and the deployment files are not Go or not logic.  \<open>shared/pkg\<close> is a copy of
  \<open>internal\<close> under another module path: its text differs in the statements modelled
  in \<open>LayeredMgmt\<close>, in \<open>PublishJSON\<close> and in \<open>InsertOne\<close>,
  and the modules' theories use the models of the originals.  The timer that reloads the funnel
  module's definitions and the HTTP servers of the modules are wiring.
\<close>

section \<open>From the request to the row\<close>

text \<open>C1: every event the gateway acknowledges becomes a row: for a well-formed batch with at
  least one new event the answer counts the new events, and running what was published through
  the enricher, the session service and the writer's decoder yields one row for each of them, in
  order, with its id, name, time and revenue, the authenticated application and the device,
  whatever Redis does and whichever synthetic records the session engine mixes in.\<close>

theorem acknowledged_events_become_rows:
  assumes "request_batch env r = Some batch" "eb_Events batch \<noteq> []" "length (eb_Events batch) \<le> 500"
    "wf_batch batch" "in_i64 now" "\<forall>i. ge_newID env i \<noteq> []"
    "dedup_loop BL now (ge_newID env) 0 (eb_Events batch) (gw_filter gw) = (es, f)" "es \<noteq> []"
  shows "handleIngest BL env now a r gw = (resp, gw') \<Longrightarrow>
      resp = writeJSON 202 (accepted_body (length es) (length (eb_Events batch) - length es))
    \<and> map row_data (filter (\<lambda>row. ch_EventID row \<noteq> [])
        (pipeline_rows v6 geo R g tp clk s (drop (length (pr_out (gw_producer gw))) (pr_out (gw_producer gw')))))
      = map (\<lambda>e. (ev_EventID e, ev_EventName e, ev_EventTime e, ev_Revenue e, app_ID a, eb_DeviceID batch)) es"
proof -
  assume h: "handleIngest BL env now a r gw = (resp, gw')"
  let ?b = "batch\<lparr>eb_AppID := app_ID a, eb_Events := es\<rparr>"
  let ?ip = "ExtractIP (ge_v6 env) (ir_forwarded r) (ir_remote r)"
  note fresh = fresh_events [OF assms(4,6,7)]
  obtain v where v: "encode_ingest ?b (Some ?ip) now = Some v" by (simp add: encode_ingest_def)
  from raw_record_rows [OF fresh(1) assms(5) v] fresh(2)
  have "map row_data (filter (\<lambda>row. ch_EventID row \<noteq> [])
      (pipeline_rows v6 geo R g tp clk s [(tp_raw (ge_topics env), app_ID a @ '':'' @ eb_DeviceID batch, v)]))
      = map (\<lambda>e. (ev_EventID e, ev_EventName e, ev_EventTime e, ev_Revenue e, app_ID a, eb_DeviceID batch)) es"
    by simp
  then show ?thesis
    using h handleIngest_cases [OF assms(1-3,7), of a] assms(8) v by auto
qed

theorem acknowledged_events_become_rows_witness:
  "\<exists>gw'. map row_data (filter (\<lambda>row. ch_EventID row \<noteq> []) (pipeline_rows (\<lambda>_. None) None mem_redis (\<lambda>_. []) demo_topics
       (\<lambda>_. 0) mem_empty (pr_out (gw_producer gw')))) = [(''e'', ''n'', 1, 0, ''a'', ''d'')]
     \<and> handleIngest list_bloom demo_env 1 demo_app demo_request demo_gateway = (writeJSON 202 (accepted_body 1 0), gw')"
proof -
  obtain resp gw' where h: "handleIngest list_bloom demo_env 1 demo_app demo_request demo_gateway = (resp, gw')"
    by (cases "handleIngest list_bloom demo_env 1 demo_app demo_request demo_gateway")
  obtain f where loop: "dedup_loop list_bloom 1 (ge_newID demo_env) 0 (eb_Events (batch_of [plain_event])) (gw_filter demo_gateway)
      = ([plain_event], f)"
    by (simp add: batch_of_def plain_event_def demo_gateway_def NewFilter_def list_bloom_def TestAndAdd_def maybeRotate_def Let_def)
  have b: "eb_Events (batch_of [plain_event]) \<noteq> []" "length (eb_Events (batch_of [plain_event])) \<le> 500"
    "in_i64 1" "\<forall>i. ge_newID demo_env i \<noteq> []" "[plain_event] \<noteq> []"
    by (simp_all add: batch_of_def in_i64_def demo_env_def)
  from acknowledged_events_become_rows [OF demo_batch(1) b(1,2) demo_batch(2) b(3,4) loop b(5) h,
      where ?v6.0 = "\<lambda>_. None" and geo = None and R = "mem_redis :: (json mem, json) redis" and g = "\<lambda>_. []"
        and tp = demo_topics and clk = "\<lambda>_. 0" and s = mem_empty]
  show ?thesis
    using h by (simp add: demo_gateway_def demo_app_def plain_event_def batch_of_def)
qed

end
